(* ===== verification/Rpmem_Prelude.thy ===== *)
theory Rpmem_Prelude
  imports Main "HOL-Library.Word" "HOL-Library.Monad_Syntax" "HOL-Library.Multiset"
begin

unbundle bit_operations_syntax

text \<open>
  What the components of the rpmem development share: the machine types of the C code, the byte
  order of a host and the bytes of a word in memory, reading and writing a field of a message
  buffer, the singly linked lists of \<^verbatim>\<open>sys/queue.h\<close>, and the simplification
  collections the component proofs use.
\<close>

named_theorems field_simps_rpmem \<open>reading a field back from a buffer after a write\<close>
named_theorems post_simps \<open>the outcome of the work request wrappers\<close>

section \<open>Machine types\<close>

text \<open>
  A C \<^verbatim>\<open>int\<close> is a 32-bit word read by \<^term>\<open>sint\<close>; conversions between
  \<^verbatim>\<open>int\<close> and \<^verbatim>\<open>uint32_t\<close> keep the bits.
\<close>

type_synonym u8 = "8 word"
type_synonym u16 = "16 word"
type_synonym u32 = "32 word"
type_synonym u64 = "64 word"
type_synonym cint = "32 word"
type_synonym ptr = "64 word"
type_synonym bytes = "8 word list"

abbreviation NULL :: ptr where
  "NULL \<equiv> 0"

text \<open>A length passed through a C int and extended again is the same if it is below \<open>2 ^ 31\<close>.\<close>

lemma length_through_int:
  fixes n :: u64
  assumes "n < 2 ^ 31"
  shows "scast (ucast n :: cint) = n"
proof -
  have "uint n < 2 ^ 31" using assms by (simp add: word_less_def)
  then have "sint (ucast n :: cint) = uint n"
    by (simp add: sint_uint uint_up_ucast signed_take_bit_int_eq_self unsigned_ucast_eq take_bit_int_eq_self
        order_trans [OF _ uint_ge_0 [of n]])
  then show ?thesis by (metis scast_eq word_of_int_uint)
qed

lemma neq0_unat: "(x :: 'a::len word) \<noteq> 0 \<Longrightarrow> 0 < unat x"
  by (simp add: unat_gt_0)

section \<open>Bytes of a word\<close>

text \<open>The byte order of the machine a program runs on.\<close>

datatype endian = LE | BE

definition le_bytes :: "nat \<Rightarrow> 'a::len word \<Rightarrow> bytes" where
  "le_bytes n w = map (\<lambda>i. ucast (drop_bit (8 * i) w)) [0..<n]"

primrec le_word :: "bytes \<Rightarrow> 'a::len word" where
  "le_word [] = 0"
| "le_word (b # bs) = ucast b OR push_bit 8 (le_word bs)"

text \<open>How a host of byte order \<open>e\<close> lays out a word in memory, and reads it back.\<close>

definition store_word :: "endian \<Rightarrow> nat \<Rightarrow> 'a::len word \<Rightarrow> bytes" where
  "store_word e n w = (case e of LE \<Rightarrow> le_bytes n w | BE \<Rightarrow> rev (le_bytes n w))"

definition load_word :: "endian \<Rightarrow> bytes \<Rightarrow> 'a::len word" where
  "load_word e bs = (case e of LE \<Rightarrow> le_word bs | BE \<Rightarrow> le_word (rev bs))"

lemma length_le_bytes [simp]: "length (le_bytes n w) = n"
  by (simp add: le_bytes_def)

lemma length_store_word [simp]: "length (store_word e n w) = n"
  by (simp add: store_word_def split: endian.split)

lemma bit_le_word [bit_simps]:
  "bit (le_word bs :: 'a::len word) i \<longleftrightarrow>
     i < LENGTH('a) \<and> i div 8 < length bs \<and> bit (bs ! (i div 8)) (i mod 8)"
proof (induction bs arbitrary: i)
  case Nil
  then show ?case by simp
next
  case (Cons b bs)
  show ?case
  proof (cases "i < 8")
    case True
    then show ?thesis
      by (auto simp: bit_or_iff bit_ucast_iff bit_push_bit_iff)
  next
    case False
    then obtain j where j: "i = 8 + j" by (metis le_add_diff_inverse not_less)
    then have high: "\<not> bit b i" by (auto dest: bit_imp_le_length)
    have dv: "(8 + j) div 8 = Suc (j div 8)" by simp
    show ?thesis
      using Cons.IH [of j] j by (auto simp: bit_or_iff bit_ucast_iff bit_push_bit_iff high dv
          dest: bit_imp_le_length)
  qed
qed

lemma bit_nth_le_bytes:
  "i < n \<Longrightarrow> bit (le_bytes n w ! i) j \<longleftrightarrow> j < 8 \<and> bit w (8 * i + j)"
  by (auto simp: le_bytes_def bit_ucast_iff bit_drop_bit_eq)

lemma le_word_le_bytes [simp]:
  fixes w :: "'a::len word"
  assumes "LENGTH('a) \<le> 8 * n"
  shows "le_word (le_bytes n w) = w"
proof (rule bit_word_eqI)
  fix i assume i: "i < LENGTH('a)"
  with assms have "i div 8 < n" by simp
  with i show "bit (le_word (le_bytes n w) :: 'a word) i = bit w i"
    by (simp add: bit_le_word bit_nth_le_bytes)
qed

lemma le_bytes_le_word [simp]:
  assumes "length bs = n" and "8 * n \<le> LENGTH('a)"
  shows "le_bytes n (le_word bs :: 'a::len word) = bs"
proof (rule nth_equalityI)
  show "length (le_bytes n (le_word bs :: 'a word)) = length bs"
    using assms by simp
  fix i assume "i < length (le_bytes n (le_word bs :: 'a word))"
  then have i: "i < n" by simp
  show "le_bytes n (le_word bs :: 'a word) ! i = bs ! i"
  proof (rule bit_word_eqI)
    fix j assume "j < LENGTH(8)"
    then have "j < 8" by simp
    with i assms show "bit (le_bytes n (le_word bs :: 'a word) ! i) j = bit (bs ! i) j"
      by (simp add: bit_nth_le_bytes bit_le_word)
  qed
qed

lemma load_store_word [field_simps_rpmem]:
  fixes w :: "'a::len word"
  shows "LENGTH('a) \<le> 8 * n \<Longrightarrow> load_word e (store_word e n w) = w"
  by (simp add: load_word_def store_word_def split: endian.split)

section \<open>Network byte order\<close>

text \<open>
  The conversions of \<^verbatim>\<open>arpa/inet.h\<close> and \<^verbatim>\<open>endian.h\<close> on a host of
  byte order \<open>e\<close>: they reverse the bytes of a word on a little endian host and do nothing on
  a big endian one.
\<close>

definition bswap32 :: "u32 \<Rightarrow> u32" where
  "bswap32 w = le_word (rev (le_bytes 4 w))"

definition bswap64 :: "u64 \<Rightarrow> u64" where
  "bswap64 w = le_word (rev (le_bytes 8 w))"

definition bswap16 :: "u16 \<Rightarrow> u16" where
  "bswap16 w = le_word (rev (le_bytes 2 w))"

definition htonl :: "endian \<Rightarrow> u32 \<Rightarrow> u32" where
  "htonl e w = (case e of LE \<Rightarrow> bswap32 w | BE \<Rightarrow> w)"

definition ntohl :: "endian \<Rightarrow> u32 \<Rightarrow> u32" where
  "ntohl e w = (case e of LE \<Rightarrow> bswap32 w | BE \<Rightarrow> w)"

abbreviation htobe32 :: "endian \<Rightarrow> u32 \<Rightarrow> u32" where
  "htobe32 \<equiv> htonl"

abbreviation be32toh :: "endian \<Rightarrow> u32 \<Rightarrow> u32" where
  "be32toh \<equiv> ntohl"

definition htons :: "endian \<Rightarrow> u16 \<Rightarrow> u16" where
  "htons e w = (case e of LE \<Rightarrow> bswap16 w | BE \<Rightarrow> w)"

definition htobe64 :: "endian \<Rightarrow> u64 \<Rightarrow> u64" where
  "htobe64 e w = (case e of LE \<Rightarrow> bswap64 w | BE \<Rightarrow> w)"

definition be64toh :: "endian \<Rightarrow> u64 \<Rightarrow> u64" where
  "be64toh e w = (case e of LE \<Rightarrow> bswap64 w | BE \<Rightarrow> w)"

text \<open>What a converted word looks like in memory does not depend on the host.\<close>

lemma store_htonl [field_simps_rpmem]: "store_word e 4 (htonl e w) = rev (le_bytes 4 w)"
  by (simp add: store_word_def htonl_def bswap32_def split: endian.split)

lemma store_htobe64 [field_simps_rpmem]: "store_word e 8 (htobe64 e w) = rev (le_bytes 8 w)"
  by (simp add: store_word_def htobe64_def bswap64_def split: endian.split)

lemma ntohl_load [field_simps_rpmem]: "length bs = 4 \<Longrightarrow> ntohl e (load_word e bs) = le_word (rev bs)"
  by (simp add: load_word_def ntohl_def bswap32_def split: endian.split)

lemma be64toh_load [field_simps_rpmem]:
  "length bs = 8 \<Longrightarrow> be64toh e (load_word e bs) = le_word (rev bs)"
  by (simp add: load_word_def be64toh_def bswap64_def split: endian.split)

section \<open>Fields of a buffer\<close>

definition get_at :: "nat \<Rightarrow> nat \<Rightarrow> bytes \<Rightarrow> bytes" where
  "get_at off n m = take n (drop off m)"

definition put_at :: "nat \<Rightarrow> bytes \<Rightarrow> bytes \<Rightarrow> bytes" where
  "put_at off bs m = take off m @ bs @ drop (off + length bs) m"

lemma length_put_at [simp]: "off + length bs \<le> length m \<Longrightarrow> length (put_at off bs m) = length m"
  by (simp add: put_at_def)

lemma length_get_at [simp]: "off + n \<le> length m \<Longrightarrow> length (get_at off n m) = n"
  by (simp add: get_at_def)

lemma get_put_at_same [simp]:
  "off + length bs \<le> length m \<Longrightarrow> n = length bs \<Longrightarrow> get_at off n (put_at off bs m) = bs"
  by (simp add: get_at_def put_at_def)

lemma get_put_at_other:
  assumes "off' + length bs \<le> length m" and "off + n \<le> off' \<or> off' + length bs \<le> off"
  shows "get_at off n (put_at off' bs m) = get_at off n m"
  using assms(2)
proof
  assume "off + n \<le> off'"
  with assms(1) show ?thesis by (auto simp: get_at_def put_at_def min_def drop_take)
next
  assume a: "off' + length bs \<le> off"
  then have "drop (off - off') bs = []" by simp
  with a assms(1) show ?thesis
    by (simp add: get_at_def put_at_def min_def)
qed

lemma get_put_at_below [simp]:
  "off' + length bs \<le> length m \<Longrightarrow> off + n \<le> off' \<Longrightarrow> get_at off n (put_at off' bs m) = get_at off n m"
  by (simp add: get_put_at_other)

lemma get_put_at_above [simp]:
  "off' + length bs \<le> length m \<Longrightarrow> off' + length bs \<le> off \<Longrightarrow>
     get_at off n (put_at off' bs m) = get_at off n m"
  by (simp add: get_put_at_other)

text \<open>A \<^verbatim>\<open>uint32_t\<close> or \<^verbatim>\<open>uint64_t\<close> member at a byte offset of a struct.\<close>

definition get32 :: "endian \<Rightarrow> nat \<Rightarrow> bytes \<Rightarrow> u32" where
  "get32 e off m = load_word e (get_at off 4 m)"

definition put32 :: "endian \<Rightarrow> nat \<Rightarrow> u32 \<Rightarrow> bytes \<Rightarrow> bytes" where
  "put32 e off w m = put_at off (store_word e 4 w) m"

definition get64 :: "endian \<Rightarrow> nat \<Rightarrow> bytes \<Rightarrow> u64" where
  "get64 e off m = load_word e (get_at off 8 m)"

definition put64 :: "endian \<Rightarrow> nat \<Rightarrow> u64 \<Rightarrow> bytes \<Rightarrow> bytes" where
  "put64 e off w m = put_at off (store_word e 8 w) m"

lemma length_put32 [simp]: "off + 4 \<le> length m \<Longrightarrow> length (put32 e off w m) = length m"
  by (simp add: put32_def)

lemma length_put64 [simp]: "off + 8 \<le> length m \<Longrightarrow> length (put64 e off w m) = length m"
  by (simp add: put64_def)

section \<open>Singly linked lists\<close>

text \<open>
  \<^verbatim>\<open>SLIST_REMOVE\<close> of \<^verbatim>\<open>sys/queue.h\<close> unlinks the first occurrence of an
  element and walks off the end of the list, dereferencing a null pointer, when there is none.
\<close>

fun slist_remove :: "'a \<Rightarrow> 'a list \<Rightarrow> 'a list option" where
  "slist_remove x [] = None"
| "slist_remove x (y # ys) =
     (if y = x then Some ys else map_option (Cons y) (slist_remove x ys))"

lemma slist_remove_in: "x \<in> set xs \<Longrightarrow> slist_remove x xs = Some (remove1 x xs)"
  by (induction xs) auto

lemma slist_remove_None: "slist_remove x xs = None \<longleftrightarrow> x \<notin> set xs"
  by (induction xs) auto

lemma slist_remove_Some_iff:
  "slist_remove x xs = Some ys \<longleftrightarrow> x \<in> set xs \<and> ys = remove1 x xs"
  by (metis not_None_eq option.inject slist_remove_None slist_remove_in)

end
