(* ===== verification/Wire_Protocol.thy ===== *)
theory Wire_Protocol
  imports Rpmem_Prelude
begin

text \<open>
  The message formats of \<^verbatim>\<open>rpmem_protocol.h\<close> and the pack and unpack functions of
  \<^verbatim>\<open>rpmem_protocol.c\<close>. A message is the 48 bytes of the request or response buffer of a
  connection; the code overlays a struct on them, so a member is read and written at its byte
  offset in the byte order \<open>e\<close> of the host. The interfaces \<open>rsp_codec\<close> and \<open>req_codec\<close> state
  what the two ends of a connection rely on, and are interpreted on all ten message types.
\<close>

section \<open>Messages\<close>

definition RPMEM_CMD_SIZE :: nat where
  "RPMEM_CMD_SIZE = 48"

datatype rpmem_opcode =
    RPMEM_OPEN_REQ | RPMEM_OPEN_RSP
  | RPMEM_CLOSE_REQ | RPMEM_CLOSE_RSP
  | RPMEM_MAP_REQ | RPMEM_MAP_RSP
  | RPMEM_UNMAP_REQ | RPMEM_UNMAP_RSP
  | RPMEM_COMMIT_REQ | RPMEM_COMMIT_RSP
  | RPMEM_CMD_LAST

text \<open>The values C gives the enumeration constants.\<close>

primrec opcode_val :: "rpmem_opcode \<Rightarrow> u32" where
  "opcode_val RPMEM_OPEN_REQ = 0"
| "opcode_val RPMEM_OPEN_RSP = 1"
| "opcode_val RPMEM_CLOSE_REQ = 2"
| "opcode_val RPMEM_CLOSE_RSP = 3"
| "opcode_val RPMEM_MAP_REQ = 4"
| "opcode_val RPMEM_MAP_RSP = 5"
| "opcode_val RPMEM_UNMAP_REQ = 6"
| "opcode_val RPMEM_UNMAP_RSP = 7"
| "opcode_val RPMEM_COMMIT_REQ = 8"
| "opcode_val RPMEM_COMMIT_RSP = 9"
| "opcode_val RPMEM_CMD_LAST = 10"

definition EINVAL :: cint where
  "EINVAL = 22"

text \<open>
  Offsets of the struct members: every message starts with its 32-bit opcode; the second member,
  where there is one, is a 32-bit word (\<open>len\<close>, \<open>size\<close>, \<open>ret\<close> or \<open>rkey\<close>); the address of the map
  response and of the unmap and commit requests follows at offset 8.
\<close>

definition off_opcode :: nat where "off_opcode = 0"

definition off_word :: nat where "off_word = 4"

definition off_addr :: nat where "off_addr = 8"

section \<open>Packing and unpacking\<close>

definition pack_open_req :: "endian \<Rightarrow> bytes \<Rightarrow> bytes" where
  "pack_open_req e req = put32 e off_opcode (htonl e (opcode_val RPMEM_OPEN_REQ)) req"

definition pack_open_rsp :: "endian \<Rightarrow> cint \<Rightarrow> bytes \<Rightarrow> bytes" where
  "pack_open_rsp e sz rsp =
     (let rsp = put32 e off_opcode (htonl e (opcode_val RPMEM_OPEN_RSP)) rsp
      in put32 e off_word (htonl e sz) rsp)"

text \<open>An output parameter is passed in with its old value and returned with the new one.\<close>

definition unpack_open_rsp :: "endian \<Rightarrow> bytes \<Rightarrow> cint \<Rightarrow> cint \<times> cint" where
  "unpack_open_rsp e rsp sz =
     (if ntohl e (get32 e off_opcode rsp) \<noteq> opcode_val RPMEM_OPEN_RSP then (- EINVAL, sz)
      else (0, ntohl e (get32 e off_word rsp)))"

definition pack_close_req :: "endian \<Rightarrow> bytes \<Rightarrow> bytes" where
  "pack_close_req e req = put32 e off_opcode (htonl e (opcode_val RPMEM_CLOSE_REQ)) req"

definition pack_close_rsp :: "endian \<Rightarrow> cint \<Rightarrow> bytes \<Rightarrow> bytes" where
  "pack_close_rsp e ret rsp =
     (let rsp = put32 e off_opcode (htonl e (opcode_val RPMEM_CLOSE_RSP)) rsp
      in put32 e off_word (htonl e ret) rsp)"

definition unpack_close_rsp :: "endian \<Rightarrow> bytes \<Rightarrow> cint \<Rightarrow> cint \<times> cint" where
  "unpack_close_rsp e rsp ret =
     (if ntohl e (get32 e off_opcode rsp) \<noteq> opcode_val RPMEM_CLOSE_RSP then (- EINVAL, ret)
      else (0, ntohl e (get32 e off_word rsp)))"

definition pack_map_req :: "endian \<Rightarrow> bytes \<Rightarrow> cint \<Rightarrow> bytes" where
  "pack_map_req e req len =
     (let req = put32 e off_opcode (htonl e (opcode_val RPMEM_MAP_REQ)) req
      in put32 e off_word (htonl e len) req)"

definition pack_map_rsp :: "endian \<Rightarrow> bytes \<Rightarrow> u32 \<Rightarrow> u64 \<Rightarrow> bytes" where
  "pack_map_rsp e rsp rkey remote_addr =
     (let rsp = put32 e off_opcode (htonl e (opcode_val RPMEM_MAP_RSP)) rsp;
          rsp = put32 e off_word (htobe32 e rkey) rsp
      in put64 e off_addr (htobe64 e remote_addr) rsp)"

definition unpack_map_rsp :: "endian \<Rightarrow> bytes \<Rightarrow> u32 \<Rightarrow> u64 \<Rightarrow> cint \<times> u32 \<times> u64" where
  "unpack_map_rsp e rsp rkey remote_addr =
     (if ntohl e (get32 e off_opcode rsp) \<noteq> opcode_val RPMEM_MAP_RSP
      then (- EINVAL, rkey, remote_addr)
      else (0, be32toh e (get32 e off_word rsp), be64toh e (get64 e off_addr rsp)))"

definition pack_unmap_req :: "endian \<Rightarrow> bytes \<Rightarrow> cint \<Rightarrow> u64 \<Rightarrow> bytes" where
  "pack_unmap_req e req len remote_addr =
     (let req = put32 e off_opcode (htonl e (opcode_val RPMEM_UNMAP_REQ)) req;
          req = put32 e off_word (htonl e len) req
      in put64 e off_addr (htobe64 e remote_addr) req)"

definition pack_unmap_rsp :: "endian \<Rightarrow> bytes \<Rightarrow> cint \<Rightarrow> bytes" where
  "pack_unmap_rsp e rsp ret =
     (let rsp = put32 e off_opcode (htonl e (opcode_val RPMEM_UNMAP_RSP)) rsp
      in put32 e off_word (htonl e ret) rsp)"

definition unpack_unmap_rsp :: "endian \<Rightarrow> bytes \<Rightarrow> cint \<Rightarrow> cint \<times> cint" where
  "unpack_unmap_rsp e rsp ret =
     (if ntohl e (get32 e off_opcode rsp) \<noteq> opcode_val RPMEM_UNMAP_RSP then (- EINVAL, ret)
      else (0, ntohl e (get32 e off_word rsp)))"

definition pack_commit_req :: "endian \<Rightarrow> bytes \<Rightarrow> cint \<Rightarrow> u64 \<Rightarrow> bytes" where
  "pack_commit_req e req len remote_addr =
     (let req = put32 e off_opcode (htonl e (opcode_val RPMEM_COMMIT_REQ)) req;
          req = put32 e off_word (htonl e len) req
      in put64 e off_addr (htobe64 e remote_addr) req)"

definition pack_commit_rsp :: "endian \<Rightarrow> bytes \<Rightarrow> cint \<Rightarrow> bytes" where
  "pack_commit_rsp e rsp ret =
     (let rsp = put32 e off_opcode (htonl e (opcode_val RPMEM_COMMIT_RSP)) rsp
      in put32 e off_word (htonl e ret) rsp)"

definition unpack_commit_rsp :: "endian \<Rightarrow> bytes \<Rightarrow> cint \<Rightarrow> cint \<times> cint" where
  "unpack_commit_rsp e rsp ret =
     (if ntohl e (get32 e off_opcode rsp) \<noteq> opcode_val RPMEM_COMMIT_RSP then (- EINVAL, ret)
      else (0, ntohl e (get32 e off_word rsp)))"

text \<open>
  How the request handlers of the server read a request: the opcode the dispatcher switches on,
  the length and the address.
\<close>

definition req_opcode :: "endian \<Rightarrow> bytes \<Rightarrow> cint" where
  "req_opcode e req = ntohl e (get32 e off_opcode req)"

definition req_len :: "endian \<Rightarrow> bytes \<Rightarrow> cint" where
  "req_len e req = ntohl e (get32 e off_word req)"

definition req_addr :: "endian \<Rightarrow> bytes \<Rightarrow> u64" where
  "req_addr e req = be64toh e (get64 e off_addr req)"

section \<open>Well-formed messages and the bytes on the wire\<close>

definition wf_cmd :: "bytes \<Rightarrow> bool" where
  "wf_cmd m \<longleftrightarrow> length m = RPMEM_CMD_SIZE"

text \<open>The fields of a message as big endian numbers, with no reference to a host.\<close>

definition wire_opcode :: "bytes \<Rightarrow> u32" where
  "wire_opcode m = le_word (rev (get_at off_opcode 4 m))"

definition wire_word :: "bytes \<Rightarrow> u32" where
  "wire_word m = le_word (rev (get_at off_word 4 m))"

definition wire_addr :: "bytes \<Rightarrow> u64" where
  "wire_addr m = le_word (rev (get_at off_addr 8 m))"

lemmas off_defs = off_opcode_def off_word_def off_addr_def

lemmas wire_defs = wire_opcode_def wire_word_def wire_addr_def

lemmas pack_defs =
  pack_open_req_def pack_open_rsp_def pack_close_req_def pack_close_rsp_def pack_map_req_def
  pack_map_rsp_def pack_unmap_req_def pack_unmap_rsp_def pack_commit_req_def pack_commit_rsp_def

lemmas unpack_defs =
  unpack_open_rsp_def unpack_close_rsp_def unpack_map_rsp_def unpack_unmap_rsp_def
  unpack_commit_rsp_def

lemma wf_cmd_length: "wf_cmd m \<longleftrightarrow> length m = 48"
  by (simp add: wf_cmd_def RPMEM_CMD_SIZE_def)

lemma wf_replicate [simp]: "wf_cmd (replicate 48 b)"
  by (simp add: wf_cmd_length)

lemma opcode_val_inject [simp]: "opcode_val a = opcode_val b \<longleftrightarrow> a = b"
  by (cases a; cases b) simp_all

lemma EINVAL_nonzero [simp]: "- EINVAL \<noteq> 0" "EINVAL \<noteq> 0"
  by (simp_all add: EINVAL_def)

text \<open>Writing a converted field is writing its big endian bytes, on every host.\<close>

lemma put32_htonl: "put32 e off (htonl e w) m = put_at off (rev (le_bytes 4 w)) m"
  by (simp add: put32_def store_htonl)

lemma put64_htobe64: "put64 e off (htobe64 e w) m = put_at off (rev (le_bytes 8 w)) m"
  by (simp add: put64_def store_htobe64)

lemma ntohl_get32: "off + 4 \<le> length m \<Longrightarrow> ntohl e (get32 e off m) = le_word (rev (get_at off 4 m))"
  by (simp add: get32_def ntohl_load)

lemma be64toh_get64: "off + 8 \<le> length m \<Longrightarrow> be64toh e (get64 e off m) = le_word (rev (get_at off 8 m))"
  by (simp add: get64_def be64toh_load)

lemma ntohl_opcode [field_simps_rpmem]:
  "wf_cmd m \<Longrightarrow> ntohl e (get32 e off_opcode m) = wire_opcode m"
  by (simp add: ntohl_get32 wf_cmd_length off_defs wire_defs)

lemma ntohl_word [field_simps_rpmem]:
  "wf_cmd m \<Longrightarrow> ntohl e (get32 e off_word m) = wire_word m"
  by (simp add: ntohl_get32 wf_cmd_length off_defs wire_defs)

lemma be64toh_addr [field_simps_rpmem]:
  "wf_cmd m \<Longrightarrow> be64toh e (get64 e off_addr m) = wire_addr m"
  by (simp add: be64toh_get64 wf_cmd_length off_defs wire_defs)

lemma wf_put_at [simp]: "wf_cmd m \<Longrightarrow> off + length bs \<le> 48 \<Longrightarrow> wf_cmd (put_at off bs m)"
  by (simp add: wf_cmd_length)

lemma wire_opcode_put [simp]:
  "wf_cmd m \<Longrightarrow> wire_opcode (put_at off_opcode (rev (le_bytes 4 w)) m) = w"
  "wf_cmd m \<Longrightarrow> wire_opcode (put_at off_word (rev (le_bytes 4 w)) m) = wire_opcode m"
  "wf_cmd m \<Longrightarrow> wire_opcode (put_at off_addr (rev (le_bytes 8 v)) m) = wire_opcode m"
  by (simp_all add: wf_cmd_length wire_defs off_defs)

lemma wire_word_put [simp]:
  "wf_cmd m \<Longrightarrow> wire_word (put_at off_word (rev (le_bytes 4 w)) m) = w"
  "wf_cmd m \<Longrightarrow> wire_word (put_at off_addr (rev (le_bytes 8 v)) m) = wire_word m"
  by (simp_all add: wf_cmd_length wire_defs off_defs)

lemma wire_addr_put [simp]:
  "wf_cmd m \<Longrightarrow> wire_addr (put_at off_addr (rev (le_bytes 8 v)) m) = v"
  by (simp_all add: wf_cmd_length wire_defs off_defs)

lemma off_fits [simp]: "off_opcode + 4 \<le> 48" "off_word + 4 \<le> 48" "off_addr + 8 \<le> 48"
  by (simp_all add: off_defs)

text \<open>The packing functions as writes of big endian bytes: the form the proofs use.\<close>

lemmas pack_wire = pack_defs [unfolded put32_htonl put64_htobe64 Let_def]

lemma wf_pack [simp]:
  assumes "wf_cmd m"
  shows "wf_cmd (pack_open_req e m)" "wf_cmd (pack_open_rsp e v m)"
    "wf_cmd (pack_close_req e m)" "wf_cmd (pack_close_rsp e v m)"
    "wf_cmd (pack_map_req e m v)" "wf_cmd (pack_map_rsp e m v a)"
    "wf_cmd (pack_unmap_req e m v a)" "wf_cmd (pack_unmap_rsp e m v)"
    "wf_cmd (pack_commit_req e m v a)" "wf_cmd (pack_commit_rsp e m v)"
  using assms by (simp_all add: pack_wire)

lemma wire_opcode_pack [simp]:
  assumes "wf_cmd m"
  shows "wire_opcode (pack_open_req e m) = opcode_val RPMEM_OPEN_REQ"
    "wire_opcode (pack_open_rsp e v m) = opcode_val RPMEM_OPEN_RSP"
    "wire_opcode (pack_close_req e m) = opcode_val RPMEM_CLOSE_REQ"
    "wire_opcode (pack_close_rsp e v m) = opcode_val RPMEM_CLOSE_RSP"
    "wire_opcode (pack_map_req e m v) = opcode_val RPMEM_MAP_REQ"
    "wire_opcode (pack_map_rsp e m v a) = opcode_val RPMEM_MAP_RSP"
    "wire_opcode (pack_unmap_req e m v a) = opcode_val RPMEM_UNMAP_REQ"
    "wire_opcode (pack_unmap_rsp e m v) = opcode_val RPMEM_UNMAP_RSP"
    "wire_opcode (pack_commit_req e m v a) = opcode_val RPMEM_COMMIT_REQ"
    "wire_opcode (pack_commit_rsp e m v) = opcode_val RPMEM_COMMIT_RSP"
  using assms by (simp_all add: pack_wire)

lemma wire_word_pack [simp]:
  assumes "wf_cmd m"
  shows "wire_word (pack_open_rsp e v m) = v" "wire_word (pack_close_rsp e v m) = v"
    "wire_word (pack_map_req e m v) = v" "wire_word (pack_map_rsp e m v a) = v"
    "wire_word (pack_unmap_req e m v a) = v" "wire_word (pack_unmap_rsp e m v) = v"
    "wire_word (pack_commit_req e m v a) = v" "wire_word (pack_commit_rsp e m v) = v"
  using assms by (simp_all add: pack_wire)

lemma wire_addr_pack [simp]:
  assumes "wf_cmd m"
  shows "wire_addr (pack_map_rsp e m v a) = a" "wire_addr (pack_unmap_req e m v a) = a"
    "wire_addr (pack_commit_req e m v a) = a"
  using assms by (simp_all add: pack_wire)

lemmas req_read_defs = req_opcode_def req_len_def req_addr_def

lemma req_read [simp]:
  assumes "wf_cmd m"
  shows "req_opcode e m = wire_opcode m" "req_len e m = wire_word m" "req_addr e m = wire_addr m"
  using assms by (simp_all add: req_read_defs field_simps_rpmem)

lemma unpack_wire:
  assumes "wf_cmd m"
  shows "unpack_open_rsp e m v =
      (if wire_opcode m \<noteq> opcode_val RPMEM_OPEN_RSP then (- EINVAL, v) else (0, wire_word m))"
    "unpack_close_rsp e m v =
      (if wire_opcode m \<noteq> opcode_val RPMEM_CLOSE_RSP then (- EINVAL, v) else (0, wire_word m))"
    "unpack_map_rsp e m v a =
      (if wire_opcode m \<noteq> opcode_val RPMEM_MAP_RSP then (- EINVAL, v, a)
       else (0, wire_word m, wire_addr m))"
    "unpack_unmap_rsp e m v =
      (if wire_opcode m \<noteq> opcode_val RPMEM_UNMAP_RSP then (- EINVAL, v) else (0, wire_word m))"
    "unpack_commit_rsp e m v =
      (if wire_opcode m \<noteq> opcode_val RPMEM_COMMIT_RSP then (- EINVAL, v) else (0, wire_word m))"
  using assms by (simp_all add: unpack_defs field_simps_rpmem)

section \<open>The codec interfaces\<close>

text \<open>
  What a client relies on when it unpacks a response: the two hosts may differ in byte order, a
  packed message reads back, a message of another type is refused and leaves the outputs alone.
\<close>

locale rsp_codec =
  fixes pack :: "endian \<Rightarrow> 'v \<Rightarrow> bytes \<Rightarrow> bytes"
    and unpack :: "endian \<Rightarrow> bytes \<Rightarrow> 'v \<Rightarrow> cint \<times> 'v"
    and opc :: rpmem_opcode
  assumes pack_wf: "wf_cmd m \<Longrightarrow> wf_cmd (pack e v m)"
    and pack_opcode: "wf_cmd m \<Longrightarrow> wire_opcode (pack e v m) = opcode_val opc"
    and pack_any_host: "pack e v m = pack e' v m"
    and unpack_any_host: "wf_cmd m \<Longrightarrow> unpack e m old = unpack e' m old"
    and unpack_pack: "wf_cmd m \<Longrightarrow> unpack e (pack e v m) old = (0, v)"
    and unpack_other: "wf_cmd m \<Longrightarrow> wire_opcode m \<noteq> opcode_val opc \<Longrightarrow> unpack e m old = (- EINVAL, old)"
    and unpack_own: "wf_cmd m \<Longrightarrow> wire_opcode m = opcode_val opc \<Longrightarrow> fst (unpack e m old) = 0"
begin

lemma roundtrip: "wf_cmd m \<Longrightarrow> unpack e' (pack e v m) old = (0, v)"
  by (metis pack_wf unpack_any_host unpack_pack)

lemma accepts_iff: "wf_cmd m \<Longrightarrow> fst (unpack e m old) = 0 \<longleftrightarrow> wire_opcode m = opcode_val opc"
  using unpack_other unpack_own by (metis EINVAL_nonzero(1) fst_conv)

lemma unpack_outcomes:
  "wf_cmd m \<Longrightarrow> fst (unpack e m old) = 0 \<or> unpack e m old = (- EINVAL, old)"
  using unpack_other unpack_own by blast

lemma foreign_refused:
  "wf_cmd m \<Longrightarrow> wire_opcode m = opcode_val other \<Longrightarrow> other \<noteq> opc \<Longrightarrow> unpack e m old = (- EINVAL, old)"
  using unpack_other by simp

lemma pack_inj: "wf_cmd m \<Longrightarrow> wf_cmd m' \<Longrightarrow> pack e v m = pack e' v' m' \<Longrightarrow> v = v'"
  using roundtrip by (metis prod.inject)

end

text \<open>What the server relies on when it reads a request.\<close>

locale req_codec =
  fixes pack :: "endian \<Rightarrow> 'v \<Rightarrow> bytes \<Rightarrow> bytes"
    and read :: "endian \<Rightarrow> bytes \<Rightarrow> 'v"
    and opc :: rpmem_opcode
  assumes pack_wf: "wf_cmd m \<Longrightarrow> wf_cmd (pack e v m)"
    and pack_opcode: "wf_cmd m \<Longrightarrow> wire_opcode (pack e v m) = opcode_val opc"
    and pack_any_host: "pack e v m = pack e' v m"
    and read_pack: "wf_cmd m \<Longrightarrow> read e' (pack e v m) = v"
begin

lemma dispatched: "wf_cmd m \<Longrightarrow> req_opcode e' (pack e v m) = opcode_val opc"
  by (simp add: pack_wf pack_opcode)

lemma pack_inj: "wf_cmd m \<Longrightarrow> wf_cmd m' \<Longrightarrow> pack e v m = pack e' v' m' \<Longrightarrow> v = v'"
  using read_pack by metis

end

interpretation open_rsp: rsp_codec pack_open_rsp unpack_open_rsp RPMEM_OPEN_RSP
  by unfold_locales (simp_all add: unpack_wire pack_wire)

interpretation close_rsp: rsp_codec pack_close_rsp unpack_close_rsp RPMEM_CLOSE_RSP
  by unfold_locales (simp_all add: unpack_wire pack_wire)

interpretation map_rsp: rsp_codec "\<lambda>e v m. pack_map_rsp e m (fst v) (snd v)"
  "\<lambda>e m v. unpack_map_rsp e m (fst v) (snd v)" RPMEM_MAP_RSP
  by unfold_locales (simp_all add: unpack_wire pack_wire)

interpretation unmap_rsp: rsp_codec "\<lambda>e v m. pack_unmap_rsp e m v" unpack_unmap_rsp RPMEM_UNMAP_RSP
  by unfold_locales (simp_all add: unpack_wire pack_wire)

interpretation commit_rsp: rsp_codec "\<lambda>e v m. pack_commit_rsp e m v" unpack_commit_rsp RPMEM_COMMIT_RSP
  by unfold_locales (simp_all add: unpack_wire pack_wire)

interpretation open_req: req_codec "\<lambda>e (v::unit) m. pack_open_req e m" "\<lambda>e m. ()" RPMEM_OPEN_REQ
  by unfold_locales (simp_all add: pack_wire)

interpretation close_req: req_codec "\<lambda>e (v::unit) m. pack_close_req e m" "\<lambda>e m. ()" RPMEM_CLOSE_REQ
  by unfold_locales (simp_all add: pack_wire)

interpretation map_req: req_codec "\<lambda>e v m. pack_map_req e m v" req_len RPMEM_MAP_REQ
  by unfold_locales (simp_all add: pack_wire)

interpretation unmap_req: req_codec "\<lambda>e v m. pack_unmap_req e m (fst v) (snd v)"
  "\<lambda>e m. (req_len e m, req_addr e m)" RPMEM_UNMAP_REQ
  by unfold_locales (simp_all add: pack_wire)

interpretation commit_req: req_codec "\<lambda>e v m. pack_commit_req e m (fst v) (snd v)"
  "\<lambda>e m. (req_len e m, req_addr e m)" RPMEM_COMMIT_REQ
  by unfold_locales (simp_all add: pack_wire)

section \<open>Properties\<close>

text \<open>
  C27: responses round trip. Whatever the byte orders of the server and of the client, unpacking
  each of the five responses the server packed succeeds and yields exactly the packed values,
  over any previous contents of the 48-byte buffer and of the outputs.
\<close>
theorem rsp_roundtrip:
  assumes "wf_cmd m"
  shows "unpack_open_rsp e' (pack_open_rsp e v m) old = (0, v) \<and>
    unpack_close_rsp e' (pack_close_rsp e v m) old = (0, v) \<and>
    unpack_map_rsp e' (pack_map_rsp e m k a) old_k old_a = (0, k, a) \<and>
    unpack_unmap_rsp e' (pack_unmap_rsp e m v) old = (0, v) \<and>
    unpack_commit_rsp e' (pack_commit_rsp e m v) old = (0, v)"
  using assms open_rsp.roundtrip close_rsp.roundtrip unmap_rsp.roundtrip commit_rsp.roundtrip
    map_rsp.roundtrip [of m e' e "(k, a)" "(old_k, old_a)"]
  by simp

theorem rsp_roundtrip_witness:
  "unpack_map_rsp BE (pack_map_rsp LE (replicate 48 255) 7 4096) 1 2 = (0, 7, 4096) \<and>
   unpack_unmap_rsp BE (pack_unmap_rsp LE (replicate 48 255) (-1)) 0 = (0, -1)"
  using rsp_roundtrip [of "replicate 48 255" BE LE _ _ 7 4096 1 2]
    rsp_roundtrip [of "replicate 48 255" BE LE "-1" 0]
  by simp

text \<open>
  C28: requests round trip. The dispatcher of the server sees the opcode of the request the client
  packed, and the map, unmap and commit handlers read exactly the length and address it packed,
  whatever the byte orders of the two hosts.
\<close>
theorem req_roundtrip:
  assumes "wf_cmd m"
  shows "req_opcode e' (pack_open_req e m) = opcode_val RPMEM_OPEN_REQ \<and>
    req_opcode e' (pack_close_req e m) = opcode_val RPMEM_CLOSE_REQ \<and>
    req_opcode e' (pack_map_req e m len) = opcode_val RPMEM_MAP_REQ \<and>
    req_len e' (pack_map_req e m len) = len \<and>
    req_opcode e' (pack_unmap_req e m len a) = opcode_val RPMEM_UNMAP_REQ \<and>
    req_len e' (pack_unmap_req e m len a) = len \<and>
    req_addr e' (pack_unmap_req e m len a) = a \<and>
    req_opcode e' (pack_commit_req e m len a) = opcode_val RPMEM_COMMIT_REQ \<and>
    req_len e' (pack_commit_req e m len a) = len \<and>
    req_addr e' (pack_commit_req e m len a) = a"
  using open_req.dispatched [OF assms] close_req.dispatched [OF assms]
    map_req.dispatched [OF assms] map_req.read_pack [OF assms]
    unmap_req.dispatched [OF assms, of e' e "(len, a)"] unmap_req.read_pack [OF assms, of e' e "(len, a)"]
    commit_req.dispatched [OF assms, of e' e "(len, a)"] commit_req.read_pack [OF assms, of e' e "(len, a)"]
  by (simp only: fst_conv snd_conv prod.inject simp_thms)

theorem req_roundtrip_witness:
  "req_opcode LE (pack_commit_req BE (replicate 48 170) 1024 65536) = 8 \<and>
   req_len LE (pack_commit_req BE (replicate 48 170) 1024 65536) = 1024 \<and>
   req_addr LE (pack_commit_req BE (replicate 48 170) 1024 65536) = 65536"
  using req_roundtrip [of "replicate 48 170" LE BE 1024 65536] by simp

text \<open>
  C29: a response of the wrong type is refused. Each unpack function returns 0 exactly on the
  messages that carry its opcode; on every other 48-byte message it returns -EINVAL and leaves
  its output parameters as they were.
\<close>
theorem unpack_accepts_only_own_opcode:
  assumes "wf_cmd m"
  shows "(unpack_open_rsp e m v = (if wire_opcode m = opcode_val RPMEM_OPEN_RSP
            then (0, wire_word m) else (- EINVAL, v))) \<and>
    (unpack_close_rsp e m v = (if wire_opcode m = opcode_val RPMEM_CLOSE_RSP
            then (0, wire_word m) else (- EINVAL, v))) \<and>
    (unpack_map_rsp e m k a = (if wire_opcode m = opcode_val RPMEM_MAP_RSP
            then (0, wire_word m, wire_addr m) else (- EINVAL, k, a))) \<and>
    (unpack_unmap_rsp e m v = (if wire_opcode m = opcode_val RPMEM_UNMAP_RSP
            then (0, wire_word m) else (- EINVAL, v))) \<and>
    (unpack_commit_rsp e m v = (if wire_opcode m = opcode_val RPMEM_COMMIT_RSP
            then (0, wire_word m) else (- EINVAL, v)))"
  using assms by (simp add: unpack_wire)

theorem unpack_accepts_only_own_opcode_witness:
  "unpack_map_rsp LE (pack_open_rsp LE 5 (replicate 48 0)) 1 2 = (- EINVAL, 1, 2)"
  using unpack_accepts_only_own_opcode [of "pack_open_rsp LE 5 (replicate 48 0)" LE _ 1 2] by simp

text \<open>
  The format on the wire does not depend on the host. Little endian and big endian machines
  put the same 48 bytes on the wire for every request and every response.
\<close>
theorem wire_format_any_host:
  "pack_open_req e m = pack_open_req e' m \<and> pack_open_rsp e v m = pack_open_rsp e' v m \<and>
   pack_close_req e m = pack_close_req e' m \<and> pack_close_rsp e v m = pack_close_rsp e' v m \<and>
   pack_map_req e m v = pack_map_req e' m v \<and> pack_map_rsp e m v a = pack_map_rsp e' m v a \<and>
   pack_unmap_req e m v a = pack_unmap_req e' m v a \<and> pack_unmap_rsp e m v = pack_unmap_rsp e' m v \<and>
   pack_commit_req e m v a = pack_commit_req e' m v a \<and>
   pack_commit_rsp e m v = pack_commit_rsp e' m v"
  by (simp add: pack_wire)

text \<open>
  Packing stays inside the message. Every pack function keeps the buffer at 48 bytes and
  leaves the bytes after its last member (the reserved area of its struct) as they were.
\<close>
theorem pack_frame:
  assumes "wf_cmd m"
  shows "wf_cmd (pack_open_req e m) \<and> drop 4 (pack_open_req e m) = drop 4 m \<and>
    wf_cmd (pack_close_req e m) \<and> drop 4 (pack_close_req e m) = drop 4 m \<and>
    wf_cmd (pack_open_rsp e v m) \<and> drop 8 (pack_open_rsp e v m) = drop 8 m \<and>
    wf_cmd (pack_close_rsp e v m) \<and> drop 8 (pack_close_rsp e v m) = drop 8 m \<and>
    wf_cmd (pack_map_req e m v) \<and> drop 8 (pack_map_req e m v) = drop 8 m \<and>
    wf_cmd (pack_unmap_rsp e m v) \<and> drop 8 (pack_unmap_rsp e m v) = drop 8 m \<and>
    wf_cmd (pack_commit_rsp e m v) \<and> drop 8 (pack_commit_rsp e m v) = drop 8 m \<and>
    wf_cmd (pack_map_rsp e m v a) \<and> drop 16 (pack_map_rsp e m v a) = drop 16 m \<and>
    wf_cmd (pack_unmap_req e m v a) \<and> drop 16 (pack_unmap_req e m v a) = drop 16 m \<and>
    wf_cmd (pack_commit_req e m v a) \<and> drop 16 (pack_commit_req e m v a) = drop 16 m"
  using assms by (simp add: pack_wire put_at_def off_defs wf_cmd_length)

theorem pack_frame_witness:
  "drop 16 (pack_map_rsp LE (replicate 48 9) 1 2) = replicate 32 9"
  using pack_frame [of "replicate 48 9" LE 1 2] by simp

end
