(* ===== verification/Platform.thy ===== *)
theory Platform
  imports Wire_Protocol
begin

text \<open>
  The boundary between the program and what it runs on: libibverbs, librdmacm, POSIX and the C
  library. Each external call that matters to the program is a value of \<open>call\<close>, carrying its
  arguments; an execution records the calls it makes in a trace, newest first. What a call returns
  is not defined here: it is a parameter, the record \<open>env\<close>, whose components map the history that
  ends in the call to its result. A property of the program quantifies over the environment and
  names what it needs of it as a hypothesis.
\<close>

section \<open>Verbs data\<close>

record ibv_mr =
  mr_handle :: ptr
  mr_lkey :: u32
  mr_rkey :: u32

text \<open>
  Addresses the program hands to the device: the request and response buffers embedded in a
  connection, or any other virtual address (0 is the null pointer).
\<close>

datatype vaddr = Conn_req | Conn_rsp | Vaddr u64

record ibv_sge =
  sge_addr :: vaddr
  sge_length :: u32
  sge_lkey :: u32

datatype ibv_wr_opcode = IBV_WR_RDMA_WRITE | IBV_WR_SEND | IBV_WR_RDMA_READ

text \<open>
  A send work request with one scatter/gather element and the signaled flag; members the code
  clears with \<^verbatim>\<open>memset\<close> are 0.
\<close>

record ibv_send_wr =
  swr_id :: vaddr
  swr_sge :: ibv_sge
  swr_opcode :: ibv_wr_opcode
  swr_signaled :: bool
  swr_rkey :: u32
  swr_remote_addr :: u64

record ibv_recv_wr =
  rwr_id :: vaddr
  rwr_sge :: ibv_sge

datatype ibv_wc_status = IBV_WC_SUCCESS | IBV_WC_WR_FLUSH_ERR | IBV_WC_OTHER_ERR nat

datatype ibv_wc_opcode =
    IBV_WC_SEND | IBV_WC_RDMA_WRITE | IBV_WC_RDMA_READ | IBV_WC_RECV | IBV_WC_OTHER nat

record ibv_wc =
  wc_status :: ibv_wc_status
  wc_opcode :: ibv_wc_opcode

datatype ibv_access = IBV_ACCESS_LOCAL_WRITE | IBV_ACCESS_REMOTE_WRITE | IBV_ACCESS_REMOTE_READ

text \<open>The connection manager events of \<^verbatim>\<open>rdma_cma.h\<close>.\<close>

datatype rdma_cm_event_type =
    RDMA_CM_EVENT_ADDR_RESOLVED | RDMA_CM_EVENT_ADDR_ERROR
  | RDMA_CM_EVENT_ROUTE_RESOLVED | RDMA_CM_EVENT_ROUTE_ERROR
  | RDMA_CM_EVENT_CONNECT_REQUEST | RDMA_CM_EVENT_CONNECT_RESPONSE
  | RDMA_CM_EVENT_CONNECT_ERROR | RDMA_CM_EVENT_UNREACHABLE
  | RDMA_CM_EVENT_REJECTED | RDMA_CM_EVENT_ESTABLISHED
  | RDMA_CM_EVENT_DISCONNECTED | RDMA_CM_EVENT_DEVICE_REMOVAL
  | RDMA_CM_EVENT_MULTICAST_JOIN | RDMA_CM_EVENT_MULTICAST_ERROR
  | RDMA_CM_EVENT_ADDR_CHANGE | RDMA_CM_EVENT_TIMEWAIT_EXIT

record rdma_cm_event =
  ev_id :: ptr
  ev_event :: rdma_cm_event_type

record rdma_conn_param =
  cp_responder_resources :: nat
  cp_initiator_depth :: nat
  cp_retry_count :: nat
  cp_rnr_retry_count :: nat

record qp_caps =
  cap_max_send_wr :: nat
  cap_max_recv_wr :: nat
  cap_max_send_sge :: nat
  cap_max_recv_sge :: nat

section \<open>POSIX data\<close>

datatype thread_kind = CM_THREAD | CQ_THREAD

datatype ai_family = PF_INET | PF_INET6 | PF_OTHER

record addrinfo =
  ai_family :: ai_family
  ai_addr :: bytes

record stat_buf =
  stat_size :: u64
  stat_isblk :: bool

text \<open>The control structures the program allocates.\<close>

datatype struct_kind = Priv_rpmem_file | Rpmem_server_unit

datatype mmap_flags = MAP_PRIVATE | MAP_SHARED

section \<open>Calls\<close>

datatype (plugins only: code) call =
    Ibv_post_send ptr ibv_send_wr bytes \<comment> \<open>queue pair, request, the bytes it gathers\<close>
  | Ibv_post_recv ptr ibv_recv_wr
  | Ibv_alloc_pd ptr
  | Ibv_dealloc_pd ptr
  | Ibv_reg_mr ptr vaddr u64 "ibv_access list"
  | Ibv_dereg_mr ibv_mr
  | Ibv_create_comp_channel ptr
  | Ibv_destroy_comp_channel ptr
  | Ibv_create_cq ptr nat ptr
  | Ibv_destroy_cq ptr
  | Ibv_req_notify_cq ptr
  | Ibv_get_cq_event ptr
  | Ibv_ack_cq_events ptr
  | Ibv_poll_cq ptr nat
  | Ibv_destroy_qp ptr
  | Rdma_create_event_channel
  | Rdma_destroy_event_channel ptr
  | Rdma_create_id ptr
  | Rdma_destroy_id ptr
  | Rdma_create_qp ptr ptr ptr qp_caps
  | Rdma_resolve_addr ptr bytes nat
  | Rdma_resolve_route ptr nat
  | Rdma_connect ptr rdma_conn_param
  | Rdma_disconnect ptr
  | Rdma_accept ptr rdma_conn_param
  | Rdma_reject ptr
  | Rdma_bind_addr ptr bytes
  | Rdma_listen ptr nat
  | Rdma_get_cm_event ptr
  | Rdma_ack_cm_event rdma_cm_event
  | Pthread_create thread_kind ptr
  | Pthread_cancel thread_kind ptr
  | Pthread_join thread_kind ptr
  | Sem_wait_connect ptr
  | Sem_wait_command ptr
  | Calloc u64
  | Calloc_struct struct_kind
  | Strdup string
  | Free ptr
  | Posix_fallocate cint u64
  | Mmap cint u64 mmap_flags
  | Munmap u64 u64
  | Msync u64 u64
  | Open_file "string option" \<comment> \<open>\<open>None\<close> is the null pointer\<close>
  | Fstat64 cint
  | Ioctl_blkgetsize64 cint
  | Close_fd cint
  | Getaddrinfo "string option"
  | Freeaddrinfo

type_synonym trace = "call list"

section \<open>The environment\<close>

text \<open>
  The result of the call at the head of a history: an \<^verbatim>\<open>int\<close>, a pointer (null for
  failure), a memory region, or what the call writes through an output parameter. \<open>env_junk32\<close>
  and \<open>env_junk64\<close> are the values an uninitialised local holds. \<open>env_rounds\<close> is how many rounds of
  its loop a helper thread has made by the time a semaphore wait is looked at, and \<open>env_inbox\<close> the
  message the device has written into the posted receive buffer by then, if any.
\<close>

record env =
  host :: endian
  env_int :: "trace \<Rightarrow> cint"
  env_ptr :: "trace \<Rightarrow> ptr"
  env_mr :: "trace \<Rightarrow> ibv_mr option"
  env_wc :: "trace \<Rightarrow> nat \<Rightarrow> ibv_wc"
  env_event :: "trace \<Rightarrow> rdma_cm_event"
  env_addrinfo :: "trace \<Rightarrow> addrinfo"
  env_stat :: "trace \<Rightarrow> stat_buf"
  env_junk32 :: "trace \<Rightarrow> u32"
  env_junk64 :: "trace \<Rightarrow> u64"
  env_rounds :: "trace \<Rightarrow> nat"
  env_inbox :: "trace \<Rightarrow> bytes option"

text \<open>
  The device writes a message it received into a posted buffer of 48 bytes: a longer message is
  cut off, a shorter one leaves the rest of the buffer.
\<close>

definition recv_into :: "bytes \<Rightarrow> bytes \<Rightarrow> bytes" where
  "recv_into m buf = take RPMEM_CMD_SIZE m @ drop (length m) buf"

lemma wf_recv_into [simp]: "wf_cmd buf \<Longrightarrow> wf_cmd (recv_into m buf)"
  by (auto simp: wf_cmd_def recv_into_def)

lemma recv_into_wf [simp]: "wf_cmd m \<Longrightarrow> wf_cmd buf \<Longrightarrow> recv_into m buf = m"
  by (simp add: wf_cmd_def recv_into_def)

text \<open>Making a call: it is recorded, and its result is read off the extended history.\<close>

definition call_int :: "env \<Rightarrow> call \<Rightarrow> trace \<Rightarrow> cint \<times> trace" where
  "call_int E c t = (env_int E (c # t), c # t)"

definition call_ptr :: "env \<Rightarrow> call \<Rightarrow> trace \<Rightarrow> ptr \<times> trace" where
  "call_ptr E c t = (env_ptr E (c # t), c # t)"

definition call_mr :: "env \<Rightarrow> call \<Rightarrow> trace \<Rightarrow> ibv_mr option \<times> trace" where
  "call_mr E c t = (env_mr E (c # t), c # t)"

lemmas call_defs = call_int_def call_ptr_def call_mr_def

section \<open>Live resources\<close>

text \<open>
  The objects a history has obtained and not yet given back, as a multiset: what leak freedom is
  about. A call that fails obtains nothing.
\<close>

datatype handle =
    H_pd ptr | H_mr ibv_mr | H_comp_channel ptr | H_cq ptr | H_qp ptr
  | H_event_channel ptr | H_cm_id ptr | H_thread thread_kind ptr
  | H_mem ptr | H_fd cint

definition some_ptr :: "(ptr \<Rightarrow> handle) \<Rightarrow> ptr \<Rightarrow> handle multiset" where
  "some_ptr h p = (if p = NULL then {#} else {#h p#})"

definition some_mr :: "ibv_mr option \<Rightarrow> handle multiset" where
  "some_mr m = (case m of None \<Rightarrow> {#} | Some r \<Rightarrow> {#H_mr r#})"

definition MAP_FAILED :: u64 where
  "MAP_FAILED = - 1"

definition gained :: "env \<Rightarrow> call \<Rightarrow> trace \<Rightarrow> handle multiset" where
  "gained E c t =
     (let rc = env_int E (c # t); p = env_ptr E (c # t) in
      case c of
        Ibv_alloc_pd _ \<Rightarrow> some_ptr H_pd p
      | Ibv_reg_mr _ _ _ _ \<Rightarrow> some_mr (env_mr E (c # t))
      | Ibv_create_comp_channel _ \<Rightarrow> some_ptr H_comp_channel p
      | Ibv_create_cq _ _ _ \<Rightarrow> some_ptr H_cq p
      | Rdma_create_event_channel \<Rightarrow> some_ptr H_event_channel p
      | Rdma_create_id _ \<Rightarrow> if rc \<noteq> 0 then {#} else {#H_cm_id p#}
      | Rdma_create_qp _ _ _ _ \<Rightarrow> if rc \<noteq> 0 then {#} else {#H_qp p#}
      | Pthread_create k a \<Rightarrow> if rc \<noteq> 0 then {#} else {#H_thread k a#}
      | Calloc _ \<Rightarrow> some_ptr H_mem p
      | Calloc_struct _ \<Rightarrow> some_ptr H_mem p
      | Strdup _ \<Rightarrow> some_ptr H_mem p
      | Open_file _ \<Rightarrow> if rc = -1 then {#} else {#H_fd rc#}
      | _ \<Rightarrow> {#})"

definition released :: "call \<Rightarrow> handle multiset" where
  "released c =
     (case c of
        Ibv_dealloc_pd p \<Rightarrow> {#H_pd p#}
      | Ibv_dereg_mr m \<Rightarrow> {#H_mr m#}
      | Ibv_destroy_comp_channel p \<Rightarrow> {#H_comp_channel p#}
      | Ibv_destroy_cq p \<Rightarrow> {#H_cq p#}
      | Ibv_destroy_qp p \<Rightarrow> {#H_qp p#}
      | Rdma_destroy_event_channel p \<Rightarrow> {#H_event_channel p#}
      | Rdma_destroy_id p \<Rightarrow> {#H_cm_id p#}
      | Pthread_cancel k p \<Rightarrow> {#H_thread k p#}
      | Free p \<Rightarrow> some_ptr H_mem p
      | Close_fd fd \<Rightarrow> {#H_fd fd#}
      | _ \<Rightarrow> {#})"

text \<open>
  The send work requests a history has handed to the device with the bytes they gather, newest
  first, and among them the messages.
\<close>

definition post_of :: "call \<Rightarrow> (ibv_send_wr \<times> bytes) option" where
  "post_of c = (case c of Ibv_post_send _ wr m \<Rightarrow> Some (wr, m) | _ \<Rightarrow> None)"

definition posted :: "trace \<Rightarrow> (ibv_send_wr \<times> bytes) list" where
  "posted t = List.map_filter post_of t"

definition payload :: "call \<Rightarrow> bytes option" where
  "payload c =
     (case post_of c of
        Some (wr, m) \<Rightarrow> if swr_opcode wr = IBV_WR_SEND then Some m else None
      | None \<Rightarrow> None)"

definition sends :: "trace \<Rightarrow> bytes list" where
  "sends t = List.map_filter payload t"

lemma posted_simps [simp]:
  "posted [] = []" "posted (c # t) = (case post_of c of None \<Rightarrow> posted t | Some x \<Rightarrow> x # posted t)"
  by (simp_all add: posted_def map_filter_simps split: option.split)

lemma sends_simps [simp]:
  "sends [] = []" "sends (c # t) = (case payload c of None \<Rightarrow> sends t | Some m \<Rightarrow> m # sends t)"
  by (simp_all add: sends_def map_filter_simps split: option.split)

lemma sends_posted:
  "sends t = [m. (wr, m) \<leftarrow> posted t, swr_opcode wr = IBV_WR_SEND]"
  by (induction t) (auto simp: payload_def split: option.splits)

lemma post_of_other [simp]:
  "post_of (Ibv_post_recv q rwr) = None" "post_of (Ibv_alloc_pd p) = None"
  "post_of (Ibv_dealloc_pd p) = None" "post_of (Ibv_reg_mr p v n fs) = None"
  "post_of (Ibv_dereg_mr mr) = None" "post_of (Ibv_create_comp_channel p) = None"
  "post_of (Ibv_destroy_comp_channel p) = None" "post_of (Ibv_create_cq p k q) = None"
  "post_of (Ibv_destroy_cq p) = None" "post_of (Ibv_req_notify_cq p) = None"
  "post_of (Ibv_get_cq_event p) = None" "post_of (Ibv_ack_cq_events p) = None"
  "post_of (Ibv_poll_cq p k) = None" "post_of (Ibv_destroy_qp p) = None"
  "post_of Rdma_create_event_channel = None" "post_of (Rdma_destroy_event_channel p) = None"
  "post_of (Rdma_create_id p) = None" "post_of (Rdma_destroy_id p) = None"
  "post_of (Rdma_create_qp p q r cap) = None" "post_of (Rdma_resolve_addr p adr k) = None"
  "post_of (Rdma_resolve_route p k) = None" "post_of (Rdma_connect p cp) = None"
  "post_of (Rdma_disconnect p) = None" "post_of (Rdma_accept p cp) = None"
  "post_of (Rdma_reject p) = None" "post_of (Rdma_get_cm_event p) = None"
  "post_of (Rdma_ack_cm_event ev) = None" "post_of (Pthread_create th p) = None"
  "post_of (Pthread_cancel th p) = None" "post_of (Sem_wait_connect p) = None"
  "post_of (Sem_wait_command p) = None" "post_of (Calloc n) = None"
  "post_of (Calloc_struct sk) = None" "post_of (Free p) = None"
  "post_of (Posix_fallocate fd n) = None" "post_of (Mmap fd n fl) = None"
  "post_of (Munmap a n) = None" "post_of (Msync a n) = None"
  "post_of (Getaddrinfo nm) = None" "post_of Freeaddrinfo = None" "post_of (Strdup str) = None"
  "post_of (Open_file nm) = None" "post_of (Fstat64 fd) = None" "post_of (Ioctl_blkgetsize64 fd) = None"
  "post_of (Close_fd fd) = None" "post_of (Rdma_bind_addr p adr) = None" "post_of (Rdma_listen p k) = None"
  "post_of (Pthread_join th p) = None"
  "post_of (Ibv_post_send q wr m) = Some (wr, m)"
  by (simp_all add: post_of_def)

lemma payload_post_of [simp]: "post_of c = None \<Longrightarrow> payload c = None"
  by (simp add: payload_def)

primrec live :: "env \<Rightarrow> trace \<Rightarrow> handle multiset" where
  "live E [] = {#}"
| "live E (c # t) = live E t + gained E c t - released c"

lemma live_calls [simp]:
  "live E (Ibv_alloc_pd v # t) = live E t + some_ptr H_pd (env_ptr E (Ibv_alloc_pd v # t))"
  "live E (Ibv_reg_mr p a n fs # t) = live E t + some_mr (env_mr E (Ibv_reg_mr p a n fs # t))"
  "live E (Ibv_create_comp_channel v # t) =
     live E t + some_ptr H_comp_channel (env_ptr E (Ibv_create_comp_channel v # t))"
  "live E (Ibv_create_cq v k ch # t) = live E t + some_ptr H_cq (env_ptr E (Ibv_create_cq v k ch # t))"
  "live E (Ibv_req_notify_cq p # t) = live E t"
  "live E (Ibv_post_send p swr pl # t) = live E t"
  "live E (Ibv_post_recv p rwr # t) = live E t"
  "live E (Pthread_create th p # t) =
     live E t + (if env_int E (Pthread_create th p # t) \<noteq> 0 then {#} else {#H_thread th p#})"
  "live E (Ibv_dealloc_pd p # t) = live E t - {#H_pd p#}"
  "live E (Ibv_dereg_mr m # t) = live E t - {#H_mr m#}"
  "live E (Ibv_destroy_comp_channel p # t) = live E t - {#H_comp_channel p#}"
  "live E (Ibv_destroy_cq p # t) = live E t - {#H_cq p#}"
  "live E (Rdma_create_qp i p cq cap # t) =
     live E t + (if env_int E (Rdma_create_qp i p cq cap # t) \<noteq> 0 then {#}
       else {#H_qp (env_ptr E (Rdma_create_qp i p cq cap # t))#})"
  "live E (Ibv_destroy_qp p # t) = live E t - {#H_qp p#}"
  "live E (Calloc_struct sk # t) = live E t + some_ptr H_mem (env_ptr E (Calloc_struct sk # t))"
  "live E (Free p # t) = live E t - some_ptr H_mem p"
  "live E (Rdma_reject i # t) = live E t"
  "live E (Rdma_accept i cp # t) = live E t"
  "live E (Rdma_resolve_route i ms # t) = live E t"
  "live E (Rdma_create_event_channel # t) =
     live E t + some_ptr H_event_channel (env_ptr E (Rdma_create_event_channel # t))"
  "live E (Rdma_destroy_event_channel p # t) = live E t - {#H_event_channel p#}"
  "live E (Rdma_create_id p # t) =
     live E t + (if env_int E (Rdma_create_id p # t) \<noteq> 0 then {#}
       else {#H_cm_id (env_ptr E (Rdma_create_id p # t))#})"
  "live E (Rdma_destroy_id p # t) = live E t - {#H_cm_id p#}"
  "live E (Pthread_cancel th p # t) = live E t - {#H_thread th p#}"
  "live E (Rdma_resolve_addr p adr ms # t) = live E t"
  "live E (Rdma_connect p cp # t) = live E t"
  "live E (Rdma_disconnect p # t) = live E t"
  "live E (Sem_wait_connect p # t) = live E t"
  "live E (Sem_wait_command p # t) = live E t"
  "live E (Rdma_get_cm_event p # t) = live E t"
  "live E (Rdma_ack_cm_event ev # t) = live E t"
  "live E (Ibv_get_cq_event p # t) = live E t"
  "live E (Ibv_ack_cq_events p # t) = live E t"
  "live E (Ibv_poll_cq p k # t) = live E t"
  "live E (Calloc len # t) = live E t + some_ptr H_mem (env_ptr E (Calloc len # t))"
  "live E (Strdup str # t) = live E t + some_ptr H_mem (env_ptr E (Strdup str # t))"
  "live E (Open_file nm # t) =
     live E t + (if env_int E (Open_file nm # t) = -1 then {#} else {#H_fd (env_int E (Open_file nm # t))#})"
  "live E (Close_fd fd # t) = live E t - {#H_fd fd#}"
  "live E (Fstat64 fd # t) = live E t"
  "live E (Ioctl_blkgetsize64 fd # t) = live E t"
  "live E (Getaddrinfo nm # t) = live E t"
  "live E (Freeaddrinfo # t) = live E t"
  "live E (Rdma_bind_addr p adr # t) = live E t"
  "live E (Rdma_listen p k # t) = live E t"
  "live E (Pthread_join th p # t) = live E t"
  by (simp_all add: gained_def released_def)

declare live.simps(2) [simp del]

lemma some_simps [simp]:
  "p \<noteq> NULL \<Longrightarrow> some_ptr h p = {#h p#}" "some_ptr h NULL = {#}"
  "some_mr (Some m) = {#H_mr m#}" "some_mr None = {#}"
  by (simp_all add: some_ptr_def some_mr_def)

section \<open>A run of polls\<close>

text \<open>
  \<^verbatim>\<open>ibv_poll_cq\<close> returns a negative number when it fails, and otherwise how many of the
  (here 16) completions it was asked for it has stored. The counts are kept in an unsigned variable.
\<close>

lemma count_signed:
  fixes n :: cint
  shows "16 < n \<longleftrightarrow> n <s 0 \<or> 16 <s n" and "n \<noteq> 0 \<and> n \<le> 16 \<longleftrightarrow> 0 <s n \<and> n \<le>s 16"
proof -
  have lt: "uint n < 4294967296" using uint_lt2p [of n] by simp
  have "(uint n + 2147483648) mod 4294967296 = uint n - 2147483648" if "2147483648 \<le> uint n"
    using that lt by (subst minus_mod_self2 [symmetric], subst mod_pos_pos_trivial) simp_all
  then have "sint n = (if uint n < 2147483648 then uint n else uint n - 4294967296)"
    using lt by (simp add: sint_uint signed_take_bit_eq_take_bit_shift take_bit_eq_mod)
  then show "16 < n \<longleftrightarrow> n <s 0 \<or> 16 <s n" "n \<noteq> 0 \<and> n \<le> 16 \<longleftrightarrow> 0 <s n \<and> n \<le>s 16"
    using uint_lt2p [of n] uint_ge_0 [of n]
    by (auto simp: word_less_def word_le_def word_sless_alt word_sle_eq word_uint_eq_iff order_less_le [of 0 "uint n"])
qed

text \<open>The result of the poll number \<open>i\<close> (from 0) of a run of polls after the history \<open>t\<close>.\<close>

definition poll_result :: "env \<Rightarrow> ptr \<Rightarrow> trace \<Rightarrow> nat \<Rightarrow> cint" where
  "poll_result E cq t i = env_int E (replicate (Suc i) (Ibv_poll_cq cq 16) @ t)"

text \<open>
  A run of polls overruns the array, with \<open>k\<close> completions handled before it: some polls find
  completions, fewer than 64 with those before, and the poll after them fails or reports more than
  it was asked for.
\<close>

definition overruns :: "(nat \<Rightarrow> cint) \<Rightarrow> nat \<Rightarrow> bool" where
  "overruns r k \<longleftrightarrow>
     (\<exists>j. (\<forall>i<j. 0 <s r i \<and> r i \<le>s 16) \<and> k + (\<Sum>i<j. unat (r i)) < 64 \<and> (r j <s 0 \<or> 16 <s r j))"

lemma overruns_step:
  "overruns r k \<longleftrightarrow>
     k < 64 \<and> (16 < r 0 \<or> r 0 \<noteq> 0 \<and> r 0 \<le> 16 \<and> overruns (\<lambda>i. r (Suc i)) (k + unat (r 0)))"
proof -
  let ?P = "\<lambda>r k j. (\<forall>i<j. r i \<noteq> 0 \<and> r i \<le> 16) \<and> k + (\<Sum>i<j. unat (r i)) < 64 \<and> 16 < r j"
  have eq: "overruns r k \<longleftrightarrow> (\<exists>j. ?P r k j)" for r k by (simp add: overruns_def count_signed)
  have "(\<exists>j. Q j) \<longleftrightarrow> Q 0 \<or> (\<exists>j. Q (Suc j))" for Q :: "nat \<Rightarrow> bool" by (metis not0_implies_Suc)
  then have split: "(\<exists>j. ?P r k j) \<longleftrightarrow> ?P r k 0 \<or> (\<exists>j. ?P r k (Suc j))" .
  have step: "?P r k (Suc j) \<longleftrightarrow> k < 64 \<and> r 0 \<noteq> 0 \<and> r 0 \<le> 16 \<and> ?P (\<lambda>i. r (Suc i)) (k + unat (r 0)) j" for j
    by (auto simp: All_less_Suc2 sum.lessThan_Suc_shift add.assoc simp del: sum.lessThan_Suc)
  show ?thesis unfolding eq split step by auto
qed

lemma poll_result_simps:
  "poll_result E cq t 0 = env_int E (Ibv_poll_cq cq 16 # t)"
  "(\<lambda>i. poll_result E cq t (Suc i)) = poll_result E cq (Ibv_poll_cq cq 16 # t)"
proof -
  have "replicate n c @ c # t = c # replicate n c @ t" for n and c :: call by (induction n) simp_all
  note rep = this [of _ "Ibv_poll_cq cq 16"]
  show "poll_result E cq t 0 = env_int E (Ibv_poll_cq cq 16 # t)"
    "(\<lambda>i. poll_result E cq t (Suc i)) = poll_result E cq (Ibv_poll_cq cq 16 # t)"
    by (simp_all add: poll_result_def fun_eq_iff rep)
qed

section \<open>A platform without failures\<close>

text \<open>
  A concrete environment on which the statements of the development are evaluated: every call
  succeeds, and every poll finds nothing.
\<close>

definition ok_mr :: ibv_mr where
  "ok_mr = \<lparr>mr_handle = 77, mr_lkey = 5, mr_rkey = 6\<rparr>"

definition ok_env :: env where
  "ok_env = \<lparr>host = LE, env_int = (\<lambda>_. 0), env_ptr = (\<lambda>_. 65536), env_mr = (\<lambda>_. Some ok_mr),
     env_wc = (\<lambda>_ _. \<lparr>wc_status = IBV_WC_SUCCESS, wc_opcode = IBV_WC_RECV\<rparr>),
     env_event = (\<lambda>_. \<lparr>ev_id = 9, ev_event = RDMA_CM_EVENT_ESTABLISHED\<rparr>),
     env_addrinfo = (\<lambda>_. \<lparr>ai_family = PF_INET, ai_addr = replicate 16 1\<rparr>),
     env_stat = (\<lambda>_. \<lparr>stat_size = 8192, stat_isblk = False\<rparr>),
     env_junk32 = (\<lambda>_. 0), env_junk64 = (\<lambda>_. 0), env_rounds = (\<lambda>_. 1),
     env_inbox = (\<lambda>_. None)\<rparr>"

end
