(* ===== verification/Verbs_Common.thy ===== *)
theory Verbs_Common
  imports Platform
begin

text \<open>
  The code client and server share (\<^verbatim>\<open>rpmem_common.h\<close>, \<^verbatim>\<open>rpmem_common.c\<close>):
  the connection structure, address resolution and the three wrappers that post work requests.
  A wrapper that would read through a null memory region pointer has no result (\<open>None\<close>).
\<close>

section \<open>The connection\<close>

text \<open>
  The list link is represented by the lists that hold connections; \<open>ib_device\<close> and \<open>dev_attr\<close>
  are never used by the code.
\<close>

record rpmem_conn =
  conn_cma_id :: ptr
  conn_pd :: ptr
  conn_cq :: ptr
  conn_qp :: ptr
  conn_comp_channel :: ptr
  conn_cqthread :: bool
  conn_req_mr :: "ibv_mr option"
  conn_rsp_mr :: "ibv_mr option"
  conn_req :: bytes
  conn_rsp :: bytes

text \<open>A connection inside a structure fresh from \<^verbatim>\<open>calloc\<close>.\<close>

definition conn_zero :: rpmem_conn where
  "conn_zero = \<lparr>conn_cma_id = NULL, conn_pd = NULL, conn_cq = NULL, conn_qp = NULL,
     conn_comp_channel = NULL, conn_cqthread = False, conn_req_mr = None, conn_rsp_mr = None,
     conn_req = replicate RPMEM_CMD_SIZE 0, conn_rsp = replicate RPMEM_CMD_SIZE 0\<rparr>"

text \<open>The buffer an address names, and storing into it.\<close>

definition conn_buf :: "rpmem_conn \<Rightarrow> vaddr \<Rightarrow> bytes" where
  "conn_buf c cmd = (case cmd of Conn_req \<Rightarrow> conn_req c | Conn_rsp \<Rightarrow> conn_rsp c | Vaddr _ \<Rightarrow> [])"

definition conn_set_buf :: "rpmem_conn \<Rightarrow> vaddr \<Rightarrow> bytes \<Rightarrow> rpmem_conn" where
  "conn_set_buf c cmd m =
     (case cmd of Conn_req \<Rightarrow> c\<lparr>conn_req := m\<rparr> | Conn_rsp \<Rightarrow> c\<lparr>conn_rsp := m\<rparr> | Vaddr _ \<Rightarrow> c)"

definition wf_conn :: "rpmem_conn \<Rightarrow> bool" where
  "wf_conn c \<longleftrightarrow> wf_cmd (conn_req c) \<and> wf_cmd (conn_rsp c)"

section \<open>Address resolution\<close>

text \<open>
  \<open>addr\<close> is the caller's \<^verbatim>\<open>struct sockaddr_storage\<close>; the port is a 16-bit member at
  offset 2 of both address families, stored in host order (callers pass it already converted).
  A name that is a null pointer is \<open>None\<close>.
\<close>

definition sockaddr_in_size :: nat where "sockaddr_in_size = 16"

definition sockaddr_in6_size :: nat where "sockaddr_in6_size = 28"

definition put_port :: "endian \<Rightarrow> u16 \<Rightarrow> bytes \<Rightarrow> bytes" where
  "put_port e port addr = put_at 2 (store_word e 2 port) addr"

definition get_addr :: "env \<Rightarrow> string option \<Rightarrow> bytes \<Rightarrow> u16 \<Rightarrow> trace \<Rightarrow> cint \<times> bytes \<times> trace" where
  "get_addr E dst_addr addr port t =
     (let (ret, t) = call_int E (Getaddrinfo dst_addr) t in
      if ret \<noteq> 0 then (ret, addr, t)
      else
        let res = env_addrinfo E t;
            (ret, addr) =
              (case ai_family res of
                 PF_INET \<Rightarrow>
                   (ret, put_port (host E) port
                           (put_at 0 (take sockaddr_in_size (ai_addr res)) addr))
               | PF_INET6 \<Rightarrow>
                   (ret, put_port (host E) port
                           (put_at 0 (take sockaddr_in6_size (ai_addr res)) addr))
               | PF_OTHER \<Rightarrow> (-1, addr))
        in (ret, addr, Freeaddrinfo # t))"

text \<open>The result carries the port; nothing is held and nothing posted.\<close>

lemma get_addr_live: "get_addr E nm a port t = (ret, a', t') \<Longrightarrow> live E t' = live E t"
  by (auto simp: get_addr_def call_defs Let_def split: if_splits ai_family.splits)

lemma get_addr_port:
  assumes "get_addr E nm a port t = (0, a', t')" and "\<And>h. 16 \<le> length (ai_addr (env_addrinfo E h))"
  shows "take 2 (drop 2 a') = store_word (host E) 2 port"
proof -
  have "16 \<le> length (ai_addr (env_addrinfo E (Getaddrinfo nm # t)))" by (rule assms(2))
  with assms(1) show ?thesis
    by (auto simp: get_addr_def call_defs Let_def put_port_def put_at_def sockaddr_in_size_def
        sockaddr_in6_size_def min_def split: if_splits ai_family.splits)
qed

lemma get_addr_posted: "get_addr E nm a port t = (ret, a', t') \<Longrightarrow> posted t' = posted t"
  by (auto simp: get_addr_def call_defs Let_def split: if_splits ai_family.splits)

section \<open>Posting work requests\<close>

definition cmd_sge :: "vaddr \<Rightarrow> ibv_mr \<Rightarrow> ibv_sge" where
  "cmd_sge cmd mr = \<lparr>sge_addr = cmd, sge_length = of_nat RPMEM_CMD_SIZE, sge_lkey = mr_lkey mr\<rparr>"

definition rpmem_post_send ::
  "env \<Rightarrow> rpmem_conn \<Rightarrow> vaddr \<Rightarrow> ibv_mr option \<Rightarrow> trace \<Rightarrow> (cint \<times> trace) option" where
  "rpmem_post_send E c cmd mr t = do {
     mr \<leftarrow> mr;
     let send_wr = \<lparr>swr_id = cmd, swr_sge = cmd_sge cmd mr, swr_opcode = IBV_WR_SEND,
                     swr_signaled = True, swr_rkey = 0, swr_remote_addr = 0\<rparr>;
     let (ret, t) = call_int E (Ibv_post_send (conn_qp c) send_wr (conn_buf c cmd)) t;
     Some (if ret \<noteq> 0 then -1 else 0, t)
   }"

definition rpmem_post_recv ::
  "env \<Rightarrow> rpmem_conn \<Rightarrow> vaddr \<Rightarrow> ibv_mr option \<Rightarrow> trace \<Rightarrow> (cint \<times> rpmem_conn \<times> trace) option"
where
  "rpmem_post_recv E c cmd mr t = do {
     let c = conn_set_buf c cmd (replicate RPMEM_CMD_SIZE 0);
     mr \<leftarrow> mr;
     let recv_wr = \<lparr>rwr_id = cmd, rwr_sge = cmd_sge cmd mr\<rparr>;
     let (ret, t) = call_int E (Ibv_post_recv (conn_qp c) recv_wr) t;
     Some (if ret \<noteq> 0 then -1 else 0, c, t)
   }"

definition rpmem_post_rdma_wr ::
  "env \<Rightarrow> rpmem_conn \<Rightarrow> u32 \<Rightarrow> u32 \<Rightarrow> u64 \<Rightarrow> vaddr \<Rightarrow> cint \<Rightarrow> ibv_wr_opcode \<Rightarrow> trace \<Rightarrow>
     cint \<times> trace" where
  "rpmem_post_rdma_wr E c rkey lkey remote_addr local_addr len opcode t =
     (let sge = \<lparr>sge_addr = local_addr, sge_length = len, sge_lkey = lkey\<rparr>;
          rdma_wr = \<lparr>swr_id = Vaddr 0, swr_sge = sge, swr_opcode = opcode, swr_signaled = True,
                      swr_rkey = rkey, swr_remote_addr = remote_addr\<rparr>;
          (ret, t) = call_int E (Ibv_post_send (conn_qp c) rdma_wr []) t
      in (if ret \<noteq> 0 then -1 else 0, t))"

section \<open>Lemmas\<close>

text \<open>The calls the wrappers make, named for the statements of the components above.\<close>

definition send_call :: "rpmem_conn \<Rightarrow> vaddr \<Rightarrow> ibv_mr \<Rightarrow> call" where
  "send_call c cmd mr =
     Ibv_post_send (conn_qp c)
       \<lparr>swr_id = cmd, swr_sge = cmd_sge cmd mr, swr_opcode = IBV_WR_SEND, swr_signaled = True,
        swr_rkey = 0, swr_remote_addr = 0\<rparr> (conn_buf c cmd)"

definition recv_call :: "rpmem_conn \<Rightarrow> vaddr \<Rightarrow> ibv_mr \<Rightarrow> call" where
  "recv_call c cmd mr = Ibv_post_recv (conn_qp c) \<lparr>rwr_id = cmd, rwr_sge = cmd_sge cmd mr\<rparr>"

definition rdma_call ::
  "rpmem_conn \<Rightarrow> u32 \<Rightarrow> u32 \<Rightarrow> u64 \<Rightarrow> vaddr \<Rightarrow> cint \<Rightarrow> ibv_wr_opcode \<Rightarrow> call" where
  "rdma_call c rkey lkey remote_addr local_addr len opcode =
     Ibv_post_send (conn_qp c)
       \<lparr>swr_id = Vaddr 0,
        swr_sge = \<lparr>sge_addr = local_addr, sge_length = len, sge_lkey = lkey\<rparr>,
        swr_opcode = opcode, swr_signaled = True, swr_rkey = rkey, swr_remote_addr = remote_addr\<rparr> []"

lemma wf_conn_zero [simp]: "wf_conn conn_zero"
  by (simp add: wf_conn_def conn_zero_def wf_cmd_def)

lemma conn_buf_simps [simp]:
  "conn_buf c Conn_req = conn_req c" "conn_buf c Conn_rsp = conn_rsp c"
  by (simp_all add: conn_buf_def)

lemma conn_set_buf_simps [simp]:
  "conn_set_buf c Conn_req m = c\<lparr>conn_req := m\<rparr>" "conn_set_buf c Conn_rsp m = c\<lparr>conn_rsp := m\<rparr>"
  by (simp_all add: conn_set_buf_def)

lemma wf_conn_upd [simp]:
  "wf_conn c \<Longrightarrow> wf_cmd m \<Longrightarrow> wf_conn (c\<lparr>conn_req := m\<rparr>)"
  "wf_conn c \<Longrightarrow> wf_cmd m \<Longrightarrow> wf_conn (c\<lparr>conn_rsp := m\<rparr>)"
  by (simp_all add: wf_conn_def)

lemma wf_connD [dest]: "wf_conn c \<Longrightarrow> wf_cmd (conn_req c) \<and> wf_cmd (conn_rsp c)"
  by (simp add: wf_conn_def)

definition zero_cmd :: bytes where
  "zero_cmd = replicate RPMEM_CMD_SIZE 0"

lemma wf_zero_cmd [simp]: "wf_cmd zero_cmd"
  by (simp add: zero_cmd_def wf_cmd_def)

lemma le_word_zeros: "le_word (replicate n 0) = 0"
  by (induction n) simp_all

lemma wire_opcode_zero [simp]: "wire_opcode zero_cmd = 0"
  by (simp add: wire_opcode_def zero_cmd_def RPMEM_CMD_SIZE_def off_opcode_def get_at_def le_word_zeros)

text \<open>Posting through a registered region always returns: 0 or -1 after the one call it makes.\<close>

lemma rpmem_post_send_Some [post_simps]:
  "rpmem_post_send E c cmd (Some mr) t =
     Some (if env_int E (send_call c cmd mr # t) \<noteq> 0 then -1 else 0, send_call c cmd mr # t)"
  by (simp add: rpmem_post_send_def send_call_def call_defs Let_def)

lemma rpmem_post_recv_Some [post_simps]:
  "rpmem_post_recv E c cmd (Some mr) t =
     Some (if env_int E (recv_call c cmd mr # t) \<noteq> 0 then -1 else 0,
       conn_set_buf c cmd zero_cmd, recv_call c cmd mr # t)"
  by (cases cmd) (simp_all add: rpmem_post_recv_def recv_call_def zero_cmd_def call_defs Let_def
      conn_set_buf_def)

lemma rpmem_post_None [post_simps]:
  "rpmem_post_send E c cmd None t = None" "rpmem_post_recv E c cmd None t = None"
  by (simp_all add: rpmem_post_send_def rpmem_post_recv_def Let_def)

lemma rpmem_post_rdma_wr_eq [post_simps]:
  "rpmem_post_rdma_wr E c rkey lkey ra la len opc t =
     (if env_int E (rdma_call c rkey lkey ra la len opc # t) \<noteq> 0 then -1 else 0,
      rdma_call c rkey lkey ra la len opc # t)"
  by (simp add: rpmem_post_rdma_wr_def rdma_call_def call_defs Let_def)

lemma payload_post [simp]:
  "payload (send_call c cmd mr) = Some (conn_buf c cmd)"
  "payload (recv_call c cmd mr) = None"
  "payload (rdma_call c rkey lkey ra la len IBV_WR_RDMA_READ) = None"
  "payload (rdma_call c rkey lkey ra la len IBV_WR_RDMA_WRITE) = None"
  by (simp_all add: payload_def send_call_def recv_call_def rdma_call_def)

lemma post_of_recv [simp]: "post_of (recv_call c cmd mr) = None"
  by (simp add: recv_call_def)

text \<open>Posting obtains and releases nothing.\<close>

lemma live_post [simp]:
  "live E (send_call c cmd mr # t) = live E t"
  "live E (recv_call c cmd mr # t) = live E t"
  "live E (rdma_call c rkey lkey ra la len opc # t) = live E t"
  by (simp_all add: send_call_def recv_call_def rdma_call_def)

section \<open>Obtaining resources with rollback\<close>

text \<open>
  The contract of a function that obtains several resources and rolls back when it cannot get them
  all: the setup of a connection on both sides and the mapping of a region on the client.
\<close>

locale acquire =
  fixes run :: "env \<Rightarrow> ptr \<Rightarrow> 'a \<Rightarrow> trace \<Rightarrow> (cint \<times> 'a \<times> trace) option"
    and footprint :: "ptr \<Rightarrow> 'a \<Rightarrow> handle multiset"
  assumes returns: "\<exists>ret a' t'. run E p a t = Some (ret, a', t')"
    and rollback: "run E p a t = Some (ret, a', t') \<Longrightarrow> ret \<noteq> 0 \<Longrightarrow> live E t' = live E t"
    and acquired: "run E p a t = Some (0, a', t') \<Longrightarrow> live E t' = live E t + footprint p a'"
begin

lemma balance:
  assumes "run E p a t = Some (ret, a', t')"
  shows "live E t' = live E t + (if ret = 0 then footprint p a' else {#})"
  using assms rollback [OF assms] acquired [of E p a t a' t'] by simp

lemma no_release: "run E p a t = Some (ret, a', t') \<Longrightarrow> live E t \<subseteq># live E t'"
  by (simp add: balance)

end

section \<open>The resources of a connection\<close>

definition dereg :: "ibv_mr option \<Rightarrow> trace \<Rightarrow> trace option" where
  "dereg mr t = do { m \<leftarrow> mr; Some (Ibv_dereg_mr m # t) }"

text \<open>What a connection that is set up holds, the queue pair apart.\<close>

definition conn_footprint :: "ptr \<Rightarrow> rpmem_conn \<Rightarrow> handle multiset" where
  "conn_footprint self c =
     {#H_pd (conn_pd c)#} + some_mr (conn_req_mr c) + some_mr (conn_rsp_mr c) +
     {#H_comp_channel (conn_comp_channel c)#} + {#H_cq (conn_cq c)#} +
     (if conn_cqthread c then {#H_thread CQ_THREAD self#} else {#})"

end
