(* ===== verification/Client_Events.thy ===== *)
theory Client_Events
  imports Verbs_Common
begin

text \<open>
  The client library's threads (\<^verbatim>\<open>rpmem.c\<close>, first half): the file structure, the
  completion thread of a file, and the connection manager thread that resolves the address and the
  route, creates the queue pair and connects. A step has no result (\<open>None\<close>) where the code
  dereferences a null pointer or runs past an array. Printing is left out.
\<close>

section \<open>The file structure\<close>

datatype file_state = RPMEM_INIT | RPMEM_ERROR | RPMEM_ESTABLISHED | RPMEM_DISCONNECTED

record rpmem_mr =
  rmr_addr :: ptr
  rmr_len :: u64

record priv_rpmem_mr =
  pmr_rmr :: rpmem_mr
  pmr_mr :: "ibv_mr option"
  pmr_rkey :: u32
  pmr_remote_addr :: u64

text \<open>
  The public part: \<open>rmr\<close> always points to the region inside the same structure, and
  \<open>dst_addr\<close> is never set.
\<close>

record rpmem_file =
  rf_size :: cint

text \<open>
  Semaphores are their counts. \<open>pf_cq_running\<close> says whether the completion thread exists and has
  not left its loop; the mutex is held during a step and not represented.
\<close>

record priv_rpmem_file =
  pf_rfile :: rpmem_file
  pf_conn :: rpmem_conn
  pf_cma_channel :: ptr
  pf_sem_connect :: nat
  pf_state :: file_state
  pf_sem_command :: nat
  pf_priv_mr :: priv_rpmem_mr
  pf_cq_running :: bool

text \<open>A file fresh from \<^verbatim>\<open>calloc\<close>.\<close>

definition file_zero :: priv_rpmem_file where
  "file_zero = \<lparr>pf_rfile = \<lparr>rf_size = 0\<rparr>, pf_conn = conn_zero, pf_cma_channel = NULL,
     pf_sem_connect = 0, pf_state = RPMEM_INIT, pf_sem_command = 0,
     pf_priv_mr = \<lparr>pmr_rmr = \<lparr>rmr_addr = NULL, rmr_len = 0\<rparr>, pmr_mr = None, pmr_rkey = 0,
       pmr_remote_addr = 0\<rparr>,
     pf_cq_running = False\<rparr>"

definition upd_pconn :: "(rpmem_conn \<Rightarrow> rpmem_conn) \<Rightarrow> priv_rpmem_file \<Rightarrow> priv_rpmem_file" where
  "upd_pconn g f = f\<lparr>pf_conn := g (pf_conn f)\<rparr>"

definition post_connect :: "priv_rpmem_file \<Rightarrow> priv_rpmem_file" where
  "post_connect f = f\<lparr>pf_sem_connect := Suc (pf_sem_connect f)\<rparr>"

definition post_command :: "priv_rpmem_file \<Rightarrow> priv_rpmem_file" where
  "post_command f = f\<lparr>pf_sem_command := Suc (pf_sem_command f)\<rparr>"

section \<open>Completions\<close>

definition client_handle_wc :: "ibv_wc \<Rightarrow> priv_rpmem_file \<Rightarrow> priv_rpmem_file" where
  "client_handle_wc wc f =
     (if wc_status wc = IBV_WC_SUCCESS then
        (case wc_opcode wc of
           IBV_WC_RECV \<Rightarrow> post_command f
         | IBV_WC_RDMA_READ \<Rightarrow> post_command f
         | _ \<Rightarrow> f)
      else f)"

text \<open>
  By the time a receive completion is handled the device has written the message into the response
  buffer of the connection.
\<close>

definition client_deliver :: "env \<Rightarrow> trace \<Rightarrow> ibv_wc \<Rightarrow> priv_rpmem_file \<Rightarrow> priv_rpmem_file" where
  "client_deliver E t wc f =
     (case env_inbox E t of
        None \<Rightarrow> f
      | Some m \<Rightarrow>
          if wc_status wc = IBV_WC_SUCCESS \<and> wc_opcode wc = IBV_WC_RECV
          then upd_pconn (\<lambda>c. c\<lparr>conn_rsp := recv_into m (conn_rsp c)\<rparr>) f else f)"

text \<open>
  The inner loop: \<open>k\<close> completions from index \<open>i\<close> on are taken out of the array \<open>wc\<close> and handled. An
  index outside the array has no result.
\<close>

primrec client_handle_wcs ::
  "env \<Rightarrow> trace \<Rightarrow> ibv_wc list \<Rightarrow> nat \<Rightarrow> nat \<Rightarrow> priv_rpmem_file \<Rightarrow> priv_rpmem_file option" where
  "client_handle_wcs E t wc i 0 f = Some f"
| "client_handle_wcs E t wc i (Suc k) f =
     (if i < length wc
      then client_handle_wcs E t wc (Suc i) k (client_handle_wc (wc ! i) (client_deliver E t (wc ! i) f))
      else None)"

text \<open>
  The polling loop: unlike the server's it leaves with 0 after 64 completions. As there, an error
  return of the poll is a large unsigned count, with which the inner loop runs past the array of 16
  completions.
\<close>

function client_cq_event_loop ::
  "env \<Rightarrow> nat \<Rightarrow> priv_rpmem_file \<Rightarrow> trace \<Rightarrow> (cint \<times> priv_rpmem_file \<times> trace) option" where
  "client_cq_event_loop E completed f t =
     (let (n, t) = call_int E (Ibv_poll_cq (conn_cq (pf_conn f)) 16) t in
      if n = 0 then Some (0, f, t)
      else
        (case client_handle_wcs E t (map (env_wc E t) [0..<16]) 0 (unat n) f of
           None \<Rightarrow> None
         | Some f \<Rightarrow>
             if 64 \<le> completed + unat n then Some (0, f, t)
             else client_cq_event_loop E (completed + unat n) f t))"
  by pat_completeness auto
termination
  by (relation "measure (\<lambda>(E, completed, f, t). 64 - completed)") (auto dest!: neq0_unat)

declare client_cq_event_loop.simps [simp del]

definition client_cq_event_handler ::
  "env \<Rightarrow> priv_rpmem_file \<Rightarrow> trace \<Rightarrow> (cint \<times> priv_rpmem_file \<times> trace) option" where
  "client_cq_event_handler E f t = client_cq_event_loop E 0 f t"

text \<open>One round of the completion thread: \<open>False\<close> when the thread exits.\<close>

definition client_cq_thread_round ::
  "env \<Rightarrow> priv_rpmem_file \<Rightarrow> trace \<Rightarrow> (bool \<times> priv_rpmem_file \<times> trace) option" where
  "client_cq_thread_round E f t = do {
     let c = pf_conn f;
     let (ret, t) = call_int E (Ibv_get_cq_event (conn_comp_channel c)) t;
     if ret \<noteq> 0 then Some (False, f, t)
     else if env_ptr E t \<noteq> conn_cq c then Some (False, f, t)
     else
       let (ret, t) = call_int E (Ibv_req_notify_cq (conn_cq c)) t in
       if ret \<noteq> 0 then Some (False, f, t)
       else do {
         (ret, f, t) \<leftarrow> client_cq_event_handler E f t;
         let (_, t) = call_int E (Ibv_ack_cq_events (conn_cq c)) t;
         Some (ret = 0, f, t)
       }
   }"

primrec client_cq_thread ::
  "env \<Rightarrow> nat \<Rightarrow> priv_rpmem_file \<Rightarrow> trace \<Rightarrow> (bool \<times> priv_rpmem_file \<times> trace) option" where
  "client_cq_thread E 0 f t = Some (True, f, t)"
| "client_cq_thread E (Suc n) f t = do {
     (running, f, t) \<leftarrow> client_cq_thread_round E f t;
     if running then client_cq_thread E n f t else Some (False, f, t)
   }"

section \<open>Connection manager events\<close>

text \<open>
  The labels of \<^verbatim>\<open>rpmem_addr_handler\<close>, each falling through to the next; the last
  one wakes up \<^verbatim>\<open>rpmem_open\<close>.
\<close>

definition ah_error :: "priv_rpmem_file \<Rightarrow> trace \<Rightarrow> (cint \<times> priv_rpmem_file \<times> trace) option" where
  "ah_error f t = Some (-1, post_connect f, t)"

definition ah_pd_error :: "priv_rpmem_file \<Rightarrow> trace \<Rightarrow> (cint \<times> priv_rpmem_file \<times> trace) option" where
  "ah_pd_error f t = ah_error f (Ibv_dealloc_pd (conn_pd (pf_conn f)) # t)"

definition ah_recv_mr_error :: "priv_rpmem_file \<Rightarrow> trace \<Rightarrow> (cint \<times> priv_rpmem_file \<times> trace) option" where
  "ah_recv_mr_error f t = do { t \<leftarrow> dereg (conn_rsp_mr (pf_conn f)) t; ah_pd_error f t }"

definition ah_send_mr_error :: "priv_rpmem_file \<Rightarrow> trace \<Rightarrow> (cint \<times> priv_rpmem_file \<times> trace) option" where
  "ah_send_mr_error f t = do { t \<leftarrow> dereg (conn_req_mr (pf_conn f)) t; ah_recv_mr_error f t }"

definition ah_comp_error :: "priv_rpmem_file \<Rightarrow> trace \<Rightarrow> (cint \<times> priv_rpmem_file \<times> trace) option" where
  "ah_comp_error f t = ah_send_mr_error f (Ibv_destroy_comp_channel (conn_comp_channel (pf_conn f)) # t)"

definition ah_cq_error :: "priv_rpmem_file \<Rightarrow> trace \<Rightarrow> (cint \<times> priv_rpmem_file \<times> trace) option" where
  "ah_cq_error f t = ah_comp_error f (Ibv_destroy_cq (conn_cq (pf_conn f)) # t)"

text \<open>
  \<open>self\<close> is the address of the file, the argument of the completion thread, whose creation is not
  checked. The identifier the event carries is the one of the file's connection.
\<close>

definition rpmem_addr_handler ::
  "env \<Rightarrow> ptr \<Rightarrow> priv_rpmem_file \<Rightarrow> trace \<Rightarrow> (cint \<times> priv_rpmem_file \<times> trace) option" where
  "rpmem_addr_handler E self f t = do {
     let cma_id = conn_cma_id (pf_conn f);
     let (ret, t) = call_int E (Rdma_resolve_route cma_id 1000) t;
     if ret \<noteq> 0 then ah_error f t else do {
     let (pd, t) = call_ptr E (Ibv_alloc_pd cma_id) t;
     let f = upd_pconn (\<lambda>c. c\<lparr>conn_pd := pd\<rparr>) f;
     if pd = NULL then ah_error f t else do {
     let (mr, t) = call_mr E (Ibv_reg_mr pd Conn_rsp (of_nat RPMEM_CMD_SIZE) [IBV_ACCESS_LOCAL_WRITE]) t;
     let f = upd_pconn (\<lambda>c. c\<lparr>conn_rsp_mr := mr\<rparr>) f;
     if mr = None then ah_pd_error f t else do {
     let (mr, t) = call_mr E (Ibv_reg_mr pd Conn_req (of_nat RPMEM_CMD_SIZE) [IBV_ACCESS_LOCAL_WRITE]) t;
     let f = upd_pconn (\<lambda>c. c\<lparr>conn_req_mr := mr\<rparr>) f;
     if mr = None then ah_recv_mr_error f t else do {
     let (ch, t) = call_ptr E (Ibv_create_comp_channel cma_id) t;
     let f = upd_pconn (\<lambda>c. c\<lparr>conn_comp_channel := ch\<rparr>) f;
     if ch = NULL then ah_send_mr_error f t else do {
     let max_cqe = 8;
     let (cq, t) = call_ptr E (Ibv_create_cq cma_id max_cqe ch) t;
     let f = upd_pconn (\<lambda>c. c\<lparr>conn_cq := cq\<rparr>) f;
     if cq = NULL then ah_comp_error f t else do {
     let (rc, t) = call_int E (Ibv_req_notify_cq cq) t;
     if rc \<noteq> 0 then ah_cq_error f t else do {
     let (rc, t) = call_int E (Pthread_create CQ_THREAD self) t;
     Some (0, (upd_pconn (\<lambda>c. c\<lparr>conn_cqthread := (rc = 0)\<rparr>) f)\<lparr>pf_cq_running := (rc = 0)\<rparr>, t)
     }}}}}}}}"

definition client_conn_param :: rdma_conn_param where
  "client_conn_param = \<lparr>cp_responder_resources = 1, cp_initiator_depth = 1, cp_retry_count = 7,
     cp_rnr_retry_count = 7\<rparr>"

definition rpmem_route_handler ::
  "env \<Rightarrow> priv_rpmem_file \<Rightarrow> trace \<Rightarrow> cint \<times> priv_rpmem_file \<times> trace" where
  "rpmem_route_handler E f t =
     (let c = pf_conn f;
          caps = \<lparr>cap_max_send_wr = 4, cap_max_recv_wr = 4, cap_max_send_sge = 1,
                  cap_max_recv_sge = 1\<rparr>;
          (ret, t) = call_int E (Rdma_create_qp (conn_cma_id c) (conn_pd c) (conn_cq c) caps) t
      in if ret \<noteq> 0 then (-1, f, t)
         else
           let f = upd_pconn (\<lambda>c. c\<lparr>conn_qp := env_ptr E t\<rparr>) f;
               (ret, t) = call_int E (Rdma_connect (conn_cma_id c) client_conn_param) t
           in if ret \<noteq> 0 then (-1, f, Ibv_destroy_qp (conn_qp (pf_conn f)) # t)
              else (ret, f, t))"

definition rpmem_cma_handler ::
  "env \<Rightarrow> ptr \<Rightarrow> rdma_cm_event \<Rightarrow> priv_rpmem_file \<Rightarrow> trace \<Rightarrow>
     (cint \<times> priv_rpmem_file \<times> trace) option" where
  "rpmem_cma_handler E self ev f t =
     (case ev_event ev of
        RDMA_CM_EVENT_ADDR_RESOLVED \<Rightarrow> rpmem_addr_handler E self f t
      | RDMA_CM_EVENT_ROUTE_RESOLVED \<Rightarrow> Some (rpmem_route_handler E f t)
      | RDMA_CM_EVENT_ESTABLISHED \<Rightarrow>
          Some (0, post_connect (f\<lparr>pf_state := RPMEM_ESTABLISHED\<rparr>), t)
      | RDMA_CM_EVENT_ADDR_ERROR \<Rightarrow> Some (-1, post_connect (f\<lparr>pf_state := RPMEM_ERROR\<rparr>), t)
      | RDMA_CM_EVENT_ROUTE_ERROR \<Rightarrow> Some (-1, post_connect (f\<lparr>pf_state := RPMEM_ERROR\<rparr>), t)
      | RDMA_CM_EVENT_CONNECT_ERROR \<Rightarrow> Some (-1, post_connect (f\<lparr>pf_state := RPMEM_ERROR\<rparr>), t)
      | RDMA_CM_EVENT_UNREACHABLE \<Rightarrow> Some (-1, post_connect (f\<lparr>pf_state := RPMEM_ERROR\<rparr>), t)
      | RDMA_CM_EVENT_REJECTED \<Rightarrow> Some (-1, post_connect (f\<lparr>pf_state := RPMEM_ERROR\<rparr>), t)
      | RDMA_CM_EVENT_DISCONNECTED \<Rightarrow>
          Some (-1, post_connect (f\<lparr>pf_state := RPMEM_DISCONNECTED\<rparr>), t)
      | RDMA_CM_EVENT_ADDR_CHANGE \<Rightarrow>
          Some (-1, post_connect (f\<lparr>pf_state := RPMEM_DISCONNECTED\<rparr>), t)
      | RDMA_CM_EVENT_TIMEWAIT_EXIT \<Rightarrow>
          Some (-1, post_connect (f\<lparr>pf_state := RPMEM_DISCONNECTED\<rparr>), t)
      | _ \<Rightarrow> Some (-1, post_connect (f\<lparr>pf_state := RPMEM_ERROR\<rparr>), t))"

text \<open>An event whose handling fails ends the thread and is not acknowledged.\<close>

definition client_cm_thread_round ::
  "env \<Rightarrow> ptr \<Rightarrow> priv_rpmem_file \<Rightarrow> trace \<Rightarrow> (bool \<times> priv_rpmem_file \<times> trace) option" where
  "client_cm_thread_round E self f t = do {
     let (ret, t) = call_int E (Rdma_get_cm_event (pf_cma_channel f)) t;
     if ret \<noteq> 0 then Some (False, f, t) else do {
     let ev = env_event E t;
     (ret, f, t) \<leftarrow> rpmem_cma_handler E self ev f t;
     if ret \<noteq> 0 then Some (False, f, t)
     else let (_, t) = call_int E (Rdma_ack_cm_event ev) t in Some (True, f, t)
     }}"

primrec client_cm_thread ::
  "env \<Rightarrow> ptr \<Rightarrow> nat \<Rightarrow> priv_rpmem_file \<Rightarrow> trace \<Rightarrow> (bool \<times> priv_rpmem_file \<times> trace) option" where
  "client_cm_thread E self 0 f t = Some (True, f, t)"
| "client_cm_thread E self (Suc n) f t = do {
     (running, f, t) \<leftarrow> client_cm_thread_round E self f t;
     if running then client_cm_thread E self n f t else Some (False, f, t)
   }"

section \<open>What the threads leave alone\<close>

text \<open>The objects \<^verbatim>\<open>rpmem_open\<close> itself creates, which no event handler may touch.\<close>

definition open_kind :: "handle \<Rightarrow> bool" where
  "open_kind h =
     (case h of H_event_channel _ \<Rightarrow> True | H_cm_id _ \<Rightarrow> True | H_mem _ \<Rightarrow> True
      | H_thread k _ \<Rightarrow> k = CM_THREAD | _ \<Rightarrow> False)"

definition open_live :: "env \<Rightarrow> trace \<Rightarrow> handle multiset" where
  "open_live E t = filter_mset open_kind (live E t)"

definition thread_ok :: "env \<Rightarrow> priv_rpmem_file \<Rightarrow> trace \<Rightarrow> priv_rpmem_file \<Rightarrow> trace \<Rightarrow> bool" where
  "thread_ok E f t f' t' \<longleftrightarrow>
     (wf_conn (pf_conn f) \<longrightarrow> wf_conn (pf_conn f')) \<and> pf_rfile f' = pf_rfile f \<and>
     pf_priv_mr f' = pf_priv_mr f \<and> pf_cma_channel f' = pf_cma_channel f \<and>
     conn_cma_id (pf_conn f') = conn_cma_id (pf_conn f) \<and>
     open_live E t' = open_live E t \<and> posted t' = posted t"

lemma thread_ok_refl [simp]: "thread_ok E f t f t"
  by (simp add: thread_ok_def)

lemma thread_ok_trans [trans]:
  "thread_ok E f t f' t' \<Longrightarrow> thread_ok E f' t' f'' t'' \<Longrightarrow> thread_ok E f t f'' t''"
  by (simp add: thread_ok_def)

text \<open>
  What completions may do to a file: fill the response buffer and post the command semaphore.
\<close>

definition same_file :: "priv_rpmem_file \<Rightarrow> priv_rpmem_file \<Rightarrow> bool" where
  "same_file f f' \<longleftrightarrow>
     pf_rfile f' = pf_rfile f \<and> pf_priv_mr f' = pf_priv_mr f \<and> pf_cma_channel f' = pf_cma_channel f \<and>
     pf_state f' = pf_state f \<and> pf_sem_connect f' = pf_sem_connect f \<and>
     conn_cma_id (pf_conn f') = conn_cma_id (pf_conn f) \<and> conn_pd (pf_conn f') = conn_pd (pf_conn f) \<and>
     conn_cq (pf_conn f') = conn_cq (pf_conn f) \<and> conn_qp (pf_conn f') = conn_qp (pf_conn f) \<and>
     conn_comp_channel (pf_conn f') = conn_comp_channel (pf_conn f) \<and>
     conn_cqthread (pf_conn f') = conn_cqthread (pf_conn f) \<and>
     conn_req_mr (pf_conn f') = conn_req_mr (pf_conn f) \<and>
     conn_rsp_mr (pf_conn f') = conn_rsp_mr (pf_conn f)"

lemma same_file_refl [simp]: "same_file f f"
  by (simp add: same_file_def)

lemma same_file_trans: "same_file f f' \<Longrightarrow> same_file f' f'' \<Longrightarrow> same_file f f''"
  by (simp add: same_file_def)

definition cq_ok :: "env \<Rightarrow> priv_rpmem_file \<Rightarrow> trace \<Rightarrow> priv_rpmem_file \<Rightarrow> trace \<Rightarrow> bool" where
  "cq_ok E f t f' t' \<longleftrightarrow>
     same_file f f' \<and> (wf_conn (pf_conn f) \<longrightarrow> wf_conn (pf_conn f')) \<and>
     conn_req (pf_conn f') = conn_req (pf_conn f) \<and>
     live E t' = live E t \<and> posted t' = posted t"

text \<open>A helper thread: rounds of its loop until one of them leaves it.\<close>

locale helper_thread =
  fixes round :: "env \<Rightarrow> ptr \<Rightarrow> priv_rpmem_file \<Rightarrow> trace \<Rightarrow> (bool \<times> priv_rpmem_file \<times> trace) option"
    and thread :: "env \<Rightarrow> ptr \<Rightarrow> nat \<Rightarrow> priv_rpmem_file \<Rightarrow> trace \<Rightarrow> (bool \<times> priv_rpmem_file \<times> trace) option"
    and ok :: "env \<Rightarrow> priv_rpmem_file \<Rightarrow> trace \<Rightarrow> priv_rpmem_file \<Rightarrow> trace \<Rightarrow> bool"
  assumes thread_0: "thread E p 0 f t = Some (True, f, t)"
    and thread_Suc: "thread E p (Suc n) f t =
      (case round E p f t of None \<Rightarrow> None
       | Some (running, f, t) \<Rightarrow> if running then thread E p n f t else Some (False, f, t))"
    and round_ok: "round E p f t = Some (b, f', t') \<Longrightarrow> ok E f t f' t'"
    and ok_refl: "ok E f t f t"
    and ok_trans: "ok E f t f' t' \<Longrightarrow> ok E f' t' f'' t'' \<Longrightarrow> ok E f t f'' t''"
begin

lemma runs_ok: "thread E p n f t = Some (b, f', t') \<Longrightarrow> ok E f t f' t'"
proof (induction n arbitrary: f t)
  case 0
  then show ?case by (simp add: thread_0 ok_refl)
next
  case (Suc n)
  then obtain run f1 t1 where r: "round E p f t = Some (run, f1, t1)"
    and rest: "if run then thread E p n f1 t1 = Some (b, f', t') else f' = f1 \<and> t' = t1"
    by (auto simp: thread_Suc split: option.splits if_splits)
  from round_ok [OF r] rest Suc.IH [of f1 t1] show ?case
    by (cases run) (auto intro: ok_trans)
qed

text \<open>Running on after some rounds.\<close>

lemma thread_add: "thread E p k f t = Some (True, f1, t1) \<Longrightarrow> thread E p (k + n) f t = thread E p n f1 t1"
proof (induction k arbitrary: f t)
  case 0
  then show ?case by (simp add: thread_0)
next
  case (Suc k)
  then show ?case by (auto simp: thread_Suc split: option.splits if_splits)
qed

lemma thread_prefix:
  assumes "thread E p k f t = Some (True, f1, t1)" and "n \<le> k"
  shows "\<exists>f2 t2. thread E p n f t = Some (True, f2, t2) \<and> ok E f2 t2 f1 t1"
  using assms
proof (induction n arbitrary: f t k)
  case 0
  then show ?case using runs_ok [of E p k f t] by (simp add: thread_0)
next
  case (Suc n)
  then obtain k' where k: "k = Suc k'" "n \<le> k'" by (cases k) auto
  from Suc.prems(1) k obtain f' t' where "round E p f t = Some (True, f', t')"
    "thread E p k' f' t' = Some (True, f1, t1)"
    by (auto simp: thread_Suc split: option.splits if_splits)
  with Suc.IH [of k' f' t'] k show ?case by (simp add: thread_Suc)
qed

text \<open>A thread that has left its loop stays out of it: more rounds change nothing.\<close>

lemma exited: "thread E p n f t = Some (False, f', t') \<Longrightarrow> n \<le> m \<Longrightarrow> thread E p m f t = Some (False, f', t')"
proof (induction n arbitrary: f t m)
  case 0
  then show ?case by (simp add: thread_0)
next
  case (Suc n)
  then obtain m' where m: "m = Suc m'" "n \<le> m'" by (cases m) auto
  from Suc.prems(1) obtain run f1 t1 where r: "round E p f t = Some (run, f1, t1)"
    and rest: "if run then thread E p n f1 t1 = Some (False, f', t') else f' = f1 \<and> t' = t1"
    by (auto simp: thread_Suc split: option.splits if_splits)
  with Suc.IH [of f1 t1 m'] m show ?case by (cases run) (auto simp: thread_Suc)
qed

end

lemma open_live_calls [simp]:
  "open_live E (Ibv_get_cq_event p # t) = open_live E t"
  "open_live E (Ibv_req_notify_cq p # t) = open_live E t"
  "open_live E (Ibv_poll_cq p k # t) = open_live E t"
  "open_live E (Ibv_ack_cq_events p # t) = open_live E t"
  "open_live E (Rdma_resolve_route p k # t) = open_live E t"
  "open_live E (Ibv_alloc_pd p # t) = open_live E t"
  "open_live E (Ibv_dealloc_pd p # t) = open_live E t"
  "open_live E (Ibv_reg_mr p v n fs # t) = open_live E t"
  "open_live E (Ibv_dereg_mr m # t) = open_live E t"
  "open_live E (Ibv_create_comp_channel p # t) = open_live E t"
  "open_live E (Ibv_destroy_comp_channel p # t) = open_live E t"
  "open_live E (Ibv_create_cq p k q # t) = open_live E t"
  "open_live E (Ibv_destroy_cq p # t) = open_live E t"
  "open_live E (Pthread_create CQ_THREAD p # t) = open_live E t"
  "open_live E (Rdma_create_qp p q r cap # t) = open_live E t"
  "open_live E (Ibv_destroy_qp p # t) = open_live E t"
  "open_live E (Rdma_connect p cp # t) = open_live E t"
  "open_live E (Rdma_get_cm_event p # t) = open_live E t"
  "open_live E (Rdma_ack_cm_event ev # t) = open_live E t"
  by (auto simp: open_live_def open_kind_def some_ptr_def some_mr_def filter_diff_mset
      split: option.split)

lemmas upd_file_defs = upd_pconn_def post_connect_def post_command_def

lemma cq_ok_refl [simp]: "cq_ok E f t f t"
  by (simp add: cq_ok_def)

lemma cq_ok_trans: "cq_ok E f t f' t' \<Longrightarrow> cq_ok E f' t' f'' t'' \<Longrightarrow> cq_ok E f t f'' t''"
  by (simp add: cq_ok_def same_file_def)

lemma handle_wc_ok: "cq_ok E f t (client_handle_wc wc (client_deliver E t' wc f)) t"
  by (auto simp: cq_ok_def same_file_def client_handle_wc_def client_deliver_def upd_file_defs wf_conn_def
      split: option.split ibv_wc_opcode.split)

text \<open>The effect of handling a list of completions, and the inner loop in terms of it.\<close>

definition wcs_done :: "env \<Rightarrow> trace \<Rightarrow> ibv_wc list \<Rightarrow> priv_rpmem_file \<Rightarrow> priv_rpmem_file" where
  "wcs_done E t wcs f = fold (\<lambda>wc f. client_handle_wc wc (client_deliver E t wc f)) wcs f"

lemma client_handle_wcs_eq:
  "i \<le> length wc \<Longrightarrow> client_handle_wcs E t wc i k f =
     (if i + k \<le> length wc then Some (wcs_done E t (take k (drop i wc)) f) else None)"
proof (induction k arbitrary: i f)
  case (Suc k)
  then show ?case by (auto simp: wcs_done_def Cons_nth_drop_Suc [symmetric])
qed (simp add: wcs_done_def)

lemma handle_wcs_ok: "cq_ok E f t (wcs_done E t' wcs f) t"
  by (induction wcs arbitrary: f)
    (auto simp: wcs_done_def intro: cq_ok_trans [OF handle_wc_ok])

lemma client_cq_event_loop_eq:
  fixes E f t
  defines "c \<equiv> Ibv_poll_cq (conn_cq (pf_conn f)) 16"
  defines "n \<equiv> env_int E (c # t)"
  defines "f1 \<equiv> wcs_done E (c # t) (map (env_wc E (c # t)) [0..<unat n]) f"
  shows "client_cq_event_loop E k f t =
    (if n = 0 then Some (0, f, c # t) else if 16 < n then None
     else if 64 \<le> k + unat n then Some (0, f1, c # t)
     else client_cq_event_loop E (k + unat n) f1 (c # t))"
proof -
  have "client_handle_wcs E t' (map (env_wc E t') [0..<16]) 0 j f =
      (if j \<le> 16 then Some (wcs_done E t' (map (env_wc E t') [0..<j]) f) else None)" for t' j
    by (simp add: client_handle_wcs_eq take_map min_def)
  then show ?thesis unfolding assms
    by (subst client_cq_event_loop.simps) (simp add: call_defs Let_def word_less_nat_alt)
qed

text \<open>
  The completion thread as a helper thread: a relation that a poll with the handling of what it
  returned and the three other calls of a round satisfy holds over any number of rounds.
\<close>

locale completion_thread =
  fixes ok :: "env \<Rightarrow> priv_rpmem_file \<Rightarrow> trace \<Rightarrow> priv_rpmem_file \<Rightarrow> trace \<Rightarrow> bool"
  assumes none: "ok E f t f t"
    and seq: "ok E f t f' t' \<Longrightarrow> ok E f' t' f'' t'' \<Longrightarrow> ok E f t f'' t''"
    and poll: "c = Ibv_poll_cq (conn_cq (pf_conn f)) 16 \<Longrightarrow>
      ok E f t (wcs_done E (c # t) (map (env_wc E (c # t)) [0..<unat (env_int E (c # t))]) f) (c # t)"
    and calls: "ok E f t f (Ibv_get_cq_event q # t)" "ok E f t f (Ibv_req_notify_cq q # t)"
      "ok E f t f (Ibv_ack_cq_events q # t)"
begin

lemma loop_ok: "client_cq_event_loop E k f t = Some (ret, f', t') \<Longrightarrow> ok E f t f' t'"
proof (induction "64 - k" arbitrary: k f t rule: less_induct)
  case less
  let ?c = "Ibv_poll_cq (conn_cq (pf_conn f)) 16"
  let ?n = "env_int E (?c # t)"
  let ?f = "wcs_done E (?c # t) (map (env_wc E (?c # t)) [0..<unat ?n]) f"
  note eq = client_cq_event_loop_eq [of E k f t] and p = poll [OF refl, of E f t]
  show ?case
  proof (cases "?n = 0 \<or> 16 < ?n \<or> 64 \<le> k + unat ?n")
    case True
    then show ?thesis using less.prems p unfolding eq by (auto simp: wcs_done_def split: if_splits)
  next
    case False
    then have "client_cq_event_loop E (k + unat ?n) ?f (?c # t) = Some (ret, f', t')"
      using less.prems unfolding eq by simp
    moreover from False neq0_unat [of ?n] have "64 - (k + unat ?n) < 64 - k" by linarith
    ultimately have "ok E ?f (?c # t) f' t'" by (intro less.hyps)
    with p show ?thesis by (rule seq)
  qed
qed

lemma cq_round: "client_cq_thread_round E f t = Some (b, f', t') \<Longrightarrow> ok E f t f' t'"
proof -
  assume h: "client_cq_thread_round E f t = Some (b, f', t')"
  let ?c = "pf_conn f"
  let ?t1 = "Ibv_get_cq_event (conn_comp_channel ?c) # t"
  let ?t2 = "Ibv_req_notify_cq (conn_cq ?c) # ?t1"
  have ok: "ok E f t f ?t1" "ok E f t f ?t2" by (rule calls(1), rule seq [OF calls(1) calls(2)])
  consider "f' = f" "t' = ?t1 \<or> t' = ?t2"
    | ret t1 where "client_cq_event_loop E 0 f ?t2 = Some (ret, f', t1)"
        "t' = Ibv_ack_cq_events (conn_cq ?c) # t1"
    using h by (auto simp: client_cq_thread_round_def client_cq_event_handler_def call_defs Let_def
        bind_eq_Some_conv split: if_splits)
  then show ?thesis
  proof cases
    case (2 ret t1)
    from loop_ok [OF 2(1)] ok(2) calls(3) show ?thesis unfolding 2(2) by (blast intro: seq)
  qed (use ok in auto)
qed

end

sublocale completion_thread \<subseteq> helper_thread "\<lambda>E p. client_cq_thread_round E" "\<lambda>E p. client_cq_thread E" ok
  by unfold_locales (auto intro: none seq cq_round split: option.splits)

interpretation cq_thr: completion_thread cq_ok
proof (unfold_locales, goal_cases)
  case (3 c f E t)
  from handle_wcs_ok [of E f t "c # t" "map (env_wc E (c # t)) [0..<unat (env_int E (c # t))]"]
  show ?case by (simp add: cq_ok_def 3)
qed (auto simp: cq_ok_def intro: same_file_trans)

section \<open>The connection manager thread\<close>

lemmas ah_defs = dereg_def ah_error_def ah_pd_error_def ah_recv_mr_error_def ah_send_mr_error_def
  ah_comp_error_def ah_cq_error_def

definition file_conn_footprint :: "ptr \<Rightarrow> priv_rpmem_file \<Rightarrow> handle multiset" where
  "file_conn_footprint p f = conn_footprint p (pf_conn f)"

interpretation addr_handler: acquire rpmem_addr_handler file_conn_footprint
proof (unfold_locales, goal_cases)
  case (1 E p a t)
  show ?case by (auto simp: rpmem_addr_handler_def call_defs ah_defs upd_file_defs Let_def)
next
  case (2 E p a t ret a' t')
  then show ?case
    by (auto simp: rpmem_addr_handler_def call_defs ah_defs upd_file_defs Let_def split: if_splits)
next
  case (3 E p a t a' t')
  then show ?case
    by (auto simp: rpmem_addr_handler_def call_defs ah_defs upd_file_defs file_conn_footprint_def
        conn_footprint_def Let_def split: if_splits)
qed

lemma addr_handler_ok:
  assumes "rpmem_addr_handler E p f t = Some (ret, f', t')"
  shows "thread_ok E f t f' t'"
    and "pf_sem_connect f' = pf_sem_connect f + (if ret = 0 then 0 else 1)"
    and "pf_state f' = pf_state f"
    and "ret = 0 \<Longrightarrow> conn_req_mr (pf_conn f') \<noteq> None \<and> conn_rsp_mr (pf_conn f') \<noteq> None"
  using assms
  by (auto simp: rpmem_addr_handler_def call_defs ah_defs upd_file_defs thread_ok_def wf_conn_def Let_def
      split: if_splits)

lemma route_handler_ok:
  assumes "rpmem_route_handler E f t = (ret, f', t')"
  shows "thread_ok E f t f' t'"
    and "pf_sem_connect f' = pf_sem_connect f" and "pf_state f' = pf_state f"
    and "ret \<noteq> 0 \<Longrightarrow> live E t' = live E t"
    and "ret = 0 \<Longrightarrow> live E t' = live E t + {#H_qp (conn_qp (pf_conn f'))#}"
  using assms
  by (auto simp: rpmem_route_handler_def call_defs upd_file_defs thread_ok_def wf_conn_def Let_def
      split: if_splits)

lemma cma_handler_ok:
  assumes "rpmem_cma_handler E p ev f t = Some (ret, f', t')"
  shows "thread_ok E f t f' t'"
proof (cases "ev_event ev \<in> {RDMA_CM_EVENT_ADDR_RESOLVED, RDMA_CM_EVENT_ROUTE_RESOLVED}")
  case True
  with assms addr_handler_ok(1) route_handler_ok(1) show ?thesis
    by (auto simp: rpmem_cma_handler_def)
next
  case False
  with assms show ?thesis
    by (auto simp: rpmem_cma_handler_def upd_file_defs thread_ok_def split: rdma_cm_event_type.splits)
qed

lemma cm_round_ok:
  assumes "client_cm_thread_round E p f t = Some (b, f', t')"
  shows "thread_ok E f t f' t'"
proof -
  let ?t1 = "Rdma_get_cm_event (pf_cma_channel f) # t"
  have ok: "thread_ok E f t f ?t1" by (simp add: thread_ok_def)
  have ack: "thread_ok E f1 t1 f1 (Rdma_ack_cm_event ev # t1)" for f1 t1 ev by (simp add: thread_ok_def)
  consider "f' = f" "t' = ?t1"
    | ret t1 where "rpmem_cma_handler E p (env_event E ?t1) f ?t1 = Some (ret, f', t1)"
        "t' = t1 \<or> t' = Rdma_ack_cm_event (env_event E ?t1) # t1"
    using assms by (auto simp: client_cm_thread_round_def call_defs Let_def bind_eq_Some_conv
        split: if_splits)
  then show ?thesis
  proof cases
    case (2 ret t1)
    from cma_handler_ok [OF 2(1)] ok have "thread_ok E f t f' t1" by (auto intro: thread_ok_trans)
    with 2(2) ack show ?thesis by (auto intro: thread_ok_trans)
  qed (use ok in simp)
qed

interpretation cm_thr: helper_thread client_cm_thread_round client_cm_thread thread_ok
  by unfold_locales (auto simp: cm_round_ok intro: thread_ok_trans split: option.splits)

text \<open>The connect semaphore is only ever posted by the thread.\<close>

definition connect_mono :: "env \<Rightarrow> priv_rpmem_file \<Rightarrow> trace \<Rightarrow> priv_rpmem_file \<Rightarrow> trace \<Rightarrow> bool" where
  "connect_mono E f t f' t' \<longleftrightarrow> pf_sem_connect f \<le> pf_sem_connect f'"

lemma cma_handler_mono:
  assumes "rpmem_cma_handler E p ev f t = Some (ret, f', t')"
  shows "pf_sem_connect f \<le> pf_sem_connect f'"
proof (cases "ev_event ev \<in> {RDMA_CM_EVENT_ADDR_RESOLVED, RDMA_CM_EVENT_ROUTE_RESOLVED}")
  case True
  with assms addr_handler_ok(2) route_handler_ok(2) show ?thesis
    by (fastforce simp: rpmem_cma_handler_def)
next
  case False
  with assms show ?thesis
    by (auto simp: rpmem_cma_handler_def upd_file_defs split: rdma_cm_event_type.splits)
qed

lemma cm_round_mono: "client_cm_thread_round E p f t = Some (b, f', t') \<Longrightarrow> connect_mono E f t f' t'"
  by (auto simp: client_cm_thread_round_def connect_mono_def call_defs Let_def bind_eq_Some_conv
      split: if_splits dest: cma_handler_mono)

interpretation cm_sem: helper_thread client_cm_thread_round client_cm_thread connect_mono
  by unfold_locales (auto simp: cm_round_mono connect_mono_def [abs_def] dest: cm_round_mono
      split: option.splits)

section \<open>Relations kept by completions\<close>

text \<open>
  A relation between files that handling one completion keeps is kept by the whole completion
  thread. It may depend on something about the history that the calls of the thread leave as it is.
\<close>

locale completion_rel =
  fixes obs :: "trace \<Rightarrow> 'o"
    and R :: "env \<Rightarrow> 'o \<Rightarrow> priv_rpmem_file \<Rightarrow> priv_rpmem_file \<Rightarrow> bool"
  assumes obs_calls: "obs (Ibv_poll_cq q n # t) = obs t" "obs (Ibv_get_cq_event q # t) = obs t"
      "obs (Ibv_req_notify_cq q # t) = obs t" "obs (Ibv_ack_cq_events q # t) = obs t"
    and R_refl: "R E x f f"
    and R_trans: "R E x f f' \<Longrightarrow> R E x f' f'' \<Longrightarrow> R E x f f''"
    and R_wc: "R E (obs t) f (client_handle_wc (env_wc E t i) (client_deliver E t (env_wc E t i) f))"
begin

lemma R_wcs: "R E (obs t) f (wcs_done E t (map (env_wc E t) ks) f)"
  unfolding wcs_done_def
proof (induction ks arbitrary: f)
  case Nil
  then show ?case by (simp add: R_refl)
next
  case (Cons k ks)
  show ?case using R_trans [OF R_wc Cons.IH] by simp
qed

end

sublocale completion_rel \<subseteq> completion_thread "\<lambda>E f t f' t'. R E (obs t) f f' \<and> obs t' = obs t"
proof (unfold_locales, goal_cases)
  case (3 c f E t)
  then show ?case using R_wcs [of E "c # t"] by (simp add: obs_calls)
qed (auto simp: obs_calls R_refl intro: R_trans)

text \<open>Completions with an error status never post the command semaphore.\<close>

definition silent :: "env \<Rightarrow> priv_rpmem_file \<Rightarrow> priv_rpmem_file \<Rightarrow> bool" where
  "silent E f f' \<longleftrightarrow>
     (\<forall>t i. wc_status (env_wc E t i) \<noteq> IBV_WC_SUCCESS) \<longrightarrow> pf_sem_command f' = pf_sem_command f"

interpretation err_wc: completion_rel "\<lambda>_. ()" "\<lambda>E _. silent E"
  by unfold_locales (auto simp: silent_def client_handle_wc_def client_deliver_def upd_file_defs
      split: option.split)

end
