(* ===== verification/Client_Api.thy ===== *)
theory Client_Api
  imports Client_Events
begin

text \<open>
  The five functions of the client library (\<^verbatim>\<open>rpmem.c\<close>, second half). A pointer to
  the public part of a file or of its region is the address of the file: the code gets from one to
  the other with \<^verbatim>\<open>container_of\<close>. An operation has no result (\<open>None\<close>) when it does
  not return: it dereferences a null pointer or freed memory, or waits for a semaphore nobody posts.
\<close>

section \<open>State\<close>

record client_state =
  cl_files :: "ptr \<rightharpoonup> priv_rpmem_file"
  cl_file_list :: "ptr list"
  cl_trace :: trace

definition put_file :: "ptr \<Rightarrow> priv_rpmem_file \<Rightarrow> trace \<Rightarrow> client_state \<Rightarrow> client_state" where
  "put_file p f t s = s\<lparr>cl_files := (cl_files s)(p \<mapsto> f), cl_trace := t\<rparr>"

definition drop_file :: "ptr \<Rightarrow> trace \<Rightarrow> client_state \<Rightarrow> client_state" where
  "drop_file p t s = s\<lparr>cl_files := (cl_files s)(p := None), cl_trace := Free p # t\<rparr>"

section \<open>Waiting\<close>

text \<open>
  A wait lets the helper thread run for as many rounds as the platform grants it before the
  caller is looked at again; the caller goes on if the count is positive then. The caller does
  nothing else while it waits, and the thread changes nothing the caller reads outside the wait.
\<close>

definition wait_connect ::
  "env \<Rightarrow> ptr \<Rightarrow> priv_rpmem_file \<Rightarrow> trace \<Rightarrow> (priv_rpmem_file \<times> trace) option" where
  "wait_connect E p f t = do {
     let t = Sem_wait_connect p # t;
     (_, f, t) \<leftarrow> client_cm_thread E p (env_rounds E t) f t;
     if pf_sem_connect f = 0 then None
     else Some (f\<lparr>pf_sem_connect := pf_sem_connect f - 1\<rparr>, t)
   }"

definition run_cq_thread ::
  "env \<Rightarrow> priv_rpmem_file \<Rightarrow> trace \<Rightarrow> (bool \<times> priv_rpmem_file \<times> trace) option" where
  "run_cq_thread E f t =
     (if pf_cq_running f then client_cq_thread E (env_rounds E t) f t else Some (False, f, t))"

definition wait_command ::
  "env \<Rightarrow> ptr \<Rightarrow> priv_rpmem_file \<Rightarrow> trace \<Rightarrow> (priv_rpmem_file \<times> trace) option" where
  "wait_command E p f t = do {
     let t = Sem_wait_command p # t;
     (running, f, t) \<leftarrow> run_cq_thread E f t;
     let f = f\<lparr>pf_cq_running := running\<rparr>;
     if pf_sem_command f = 0 then None
     else Some (f\<lparr>pf_sem_command := pf_sem_command f - 1\<rparr>, t)
   }"

section \<open>A request and its response\<close>

definition post_rsp_recv ::
  "env \<Rightarrow> priv_rpmem_file \<Rightarrow> trace \<Rightarrow> (cint \<times> priv_rpmem_file \<times> trace) option" where
  "post_rsp_recv E f t = do {
     (ret, c, t) \<leftarrow> rpmem_post_recv E (pf_conn f) Conn_rsp (conn_rsp_mr (pf_conn f)) t;
     Some (ret, f\<lparr>pf_conn := c\<rparr>, t)
   }"

definition send_req ::
  "env \<Rightarrow> (bytes \<Rightarrow> bytes) \<Rightarrow> priv_rpmem_file \<Rightarrow> trace \<Rightarrow> (cint \<times> priv_rpmem_file \<times> trace) option" where
  "send_req E pack f t = do {
     let c = (pf_conn f)\<lparr>conn_req := pack (conn_req (pf_conn f))\<rparr>;
     (ret, t) \<leftarrow> rpmem_post_send E c Conn_req (conn_req_mr c) t;
     Some (ret, f\<lparr>pf_conn := c\<rparr>, t)
   }"

text \<open>
  The sequence \<^verbatim>\<open>rpmem_open\<close>, \<^verbatim>\<open>rpmem_close\<close>,
  \<^verbatim>\<open>rpmem_map\<close> and \<^verbatim>\<open>rpmem_unmap\<close> share: post the response
  buffer, pack and send the request, wait for the response. A result other than 0 sends the caller
  to its error label.
\<close>

definition exchange ::
  "env \<Rightarrow> ptr \<Rightarrow> (bytes \<Rightarrow> bytes) \<Rightarrow> priv_rpmem_file \<Rightarrow> trace \<Rightarrow>
     (cint \<times> priv_rpmem_file \<times> trace) option" where
  "exchange E p pack f t = do {
     (ret, f, t) \<leftarrow> post_rsp_recv E f t;
     if ret \<noteq> 0 then Some (ret, f, t) else do {
     (ret, f, t) \<leftarrow> send_req E pack f t;
     if ret \<noteq> 0 then Some (ret, f, t) else do {
     (f, t) \<leftarrow> wait_command E p f t;
     Some (0, f, t)
     }}}"

section \<open>Open and close\<close>

text \<open>The labels of \<^verbatim>\<open>rpmem_open\<close>.\<close>

definition open_destroy_rfile :: "ptr \<Rightarrow> trace \<Rightarrow> client_state \<Rightarrow> (ptr \<times> client_state) option" where
  "open_destroy_rfile p t s = Some (NULL, drop_file p t s)"

definition open_destroy_event_channel ::
  "ptr \<Rightarrow> priv_rpmem_file \<Rightarrow> trace \<Rightarrow> client_state \<Rightarrow> (ptr \<times> client_state) option" where
  "open_destroy_event_channel p f t s =
     open_destroy_rfile p (Rdma_destroy_event_channel (pf_cma_channel f) # t) s"

definition open_destroy_id ::
  "ptr \<Rightarrow> priv_rpmem_file \<Rightarrow> trace \<Rightarrow> client_state \<Rightarrow> (ptr \<times> client_state) option" where
  "open_destroy_id p f t s =
     open_destroy_event_channel p f (Rdma_destroy_id (conn_cma_id (pf_conn f)) # t) s"

definition open_destroy_thread ::
  "ptr \<Rightarrow> priv_rpmem_file \<Rightarrow> trace \<Rightarrow> client_state \<Rightarrow> (ptr \<times> client_state) option" where
  "open_destroy_thread p f t s = open_destroy_id p f (Pthread_cancel CM_THREAD p # t) s"

text \<open>From the established connection on.\<close>

definition open_handshake ::
  "env \<Rightarrow> ptr \<Rightarrow> priv_rpmem_file \<Rightarrow> trace \<Rightarrow> client_state \<Rightarrow> (ptr \<times> client_state) option" where
  "open_handshake E p f t s = do {
     (ret, f, t) \<leftarrow> exchange E p (pack_open_req (host E)) f t;
     if ret \<noteq> 0 then open_destroy_thread p f t s else do {
     let (ret, sz) = unpack_open_rsp (host E) (conn_rsp (pf_conn f)) (rf_size (pf_rfile f));
     let f = f\<lparr>pf_rfile := (pf_rfile f)\<lparr>rf_size := sz\<rparr>\<rparr>;
     if ret \<noteq> 0 then open_destroy_thread p f t s
     else Some (p, (put_file p f t s)\<lparr>cl_file_list := p # cl_file_list s\<rparr>)
     }}"

definition rpmem_open :: "env \<Rightarrow> bytes \<Rightarrow> client_state \<Rightarrow> (ptr \<times> client_state) option" where
  "rpmem_open E dst_addr s = do {
     let (p, t) = call_ptr E (Calloc_struct Priv_rpmem_file) (cl_trace s);
     if p = NULL then Some (NULL, s\<lparr>cl_trace := t\<rparr>) else do {
     let f = file_zero;
     let (ch, t) = call_ptr E Rdma_create_event_channel t;
     let f = f\<lparr>pf_cma_channel := ch\<rparr>;
     if ch = NULL then open_destroy_rfile p t s else do {
     let (rc, t) = call_int E (Rdma_create_id ch) t;
     if rc \<noteq> 0 then open_destroy_event_channel p f t s else do {
     let f = upd_pconn (\<lambda>c. c\<lparr>conn_cma_id := env_ptr E t\<rparr>) f;
     let (rc, t) = call_int E (Pthread_create CM_THREAD p) t;
     if rc \<noteq> 0 then open_destroy_id p f t s else do {
     let (rc, t) = call_int E (Rdma_resolve_addr (conn_cma_id (pf_conn f)) dst_addr 2000) t;
     if rc \<noteq> 0 then open_destroy_thread p f t s else do {
     (f, t) \<leftarrow> wait_connect E p f t;
     if pf_state f \<noteq> RPMEM_ESTABLISHED then open_destroy_thread p f t s
     else open_handshake E p f t s
     }}}}}}"

text \<open>The code after the label \<open>out\<close> of \<^verbatim>\<open>rpmem_close\<close>.\<close>

definition close_out :: "ptr \<Rightarrow> priv_rpmem_file \<Rightarrow> trace \<Rightarrow> client_state \<Rightarrow> (cint \<times> client_state) option" where
  "close_out p f t s =
     (let c = pf_conn f;
          t = Rdma_destroy_event_channel (pf_cma_channel f) # Rdma_destroy_id (conn_cma_id c) #
              Ibv_destroy_qp (conn_qp c) # Rdma_disconnect (conn_cma_id c) #
              Pthread_cancel CM_THREAD p # t;
          t = Ibv_dealloc_pd (conn_pd c) # Ibv_destroy_comp_channel (conn_comp_channel c) #
              Ibv_destroy_cq (conn_cq c) # Pthread_cancel CQ_THREAD p # t
      in Some (0, drop_file p t s))"

text \<open>
  The result of the exchange is not used further: the response is unpacked for printing only, and
  every path leads to the label.
\<close>

definition rpmem_close :: "env \<Rightarrow> ptr \<Rightarrow> client_state \<Rightarrow> (cint \<times> client_state) option" where
  "rpmem_close E p s = do {
     f \<leftarrow> cl_files s p;
     rest \<leftarrow> slist_remove p (cl_file_list s);
     let s = s\<lparr>cl_file_list := rest\<rparr>;
     (ret, f, t) \<leftarrow> exchange E p (pack_close_req (host E)) f (cl_trace s);
     close_out p f t s
   }"

section \<open>Map, unmap and commit\<close>

definition upd_rmr :: "(rpmem_mr \<Rightarrow> rpmem_mr) \<Rightarrow> priv_rpmem_file \<Rightarrow> priv_rpmem_file" where
  "upd_rmr g f = f\<lparr>pf_priv_mr := (pf_priv_mr f)\<lparr>pmr_rmr := g (pmr_rmr (pf_priv_mr f))\<rparr>\<rparr>"

definition upd_pmr :: "(priv_rpmem_mr \<Rightarrow> priv_rpmem_mr) \<Rightarrow> priv_rpmem_file \<Rightarrow> priv_rpmem_file" where
  "upd_pmr g f = f\<lparr>pf_priv_mr := g (pf_priv_mr f)\<rparr>"

text \<open>The labels of \<^verbatim>\<open>rpmem_map\<close>.\<close>

definition map_out :: "ptr \<Rightarrow> priv_rpmem_file \<Rightarrow> trace \<Rightarrow> client_state \<Rightarrow> (ptr \<times> client_state) option" where
  "map_out p f t s = Some (NULL, put_file p (upd_rmr (\<lambda>m. m\<lparr>rmr_len := 0\<rparr>) f) t s)"

definition map_destroy_addr ::
  "ptr \<Rightarrow> priv_rpmem_file \<Rightarrow> trace \<Rightarrow> client_state \<Rightarrow> (ptr \<times> client_state) option" where
  "map_destroy_addr p f t s = map_out p f (Free (rmr_addr (pmr_rmr (pf_priv_mr f))) # t) s"

definition map_destroy_mr ::
  "ptr \<Rightarrow> priv_rpmem_file \<Rightarrow> trace \<Rightarrow> client_state \<Rightarrow> (ptr \<times> client_state) option" where
  "map_destroy_mr p f t s = do {
     t \<leftarrow> dereg (pmr_mr (pf_priv_mr f)) t;
     map_destroy_addr p f t s
   }"

definition map_destroy_rkey ::
  "ptr \<Rightarrow> priv_rpmem_file \<Rightarrow> trace \<Rightarrow> client_state \<Rightarrow> (ptr \<times> client_state) option" where
  "map_destroy_rkey p f t s =
     map_destroy_mr p (upd_pmr (\<lambda>m. m\<lparr>pmr_rkey := 0, pmr_remote_addr := 0\<rparr>) f) t s"

text \<open>Reading the remote region into the local buffer.\<close>

definition map_read ::
  "env \<Rightarrow> ptr \<Rightarrow> priv_rpmem_file \<Rightarrow> trace \<Rightarrow> client_state \<Rightarrow> (ptr \<times> client_state) option" where
  "map_read E p f t s = do {
     let pm = pf_priv_mr f;
     mr \<leftarrow> pmr_mr pm;
     let (ret, t) = rpmem_post_rdma_wr E (pf_conn f) (pmr_rkey pm) (mr_lkey mr) (pmr_remote_addr pm)
           (Vaddr (rmr_addr (pmr_rmr pm))) (ucast (rmr_len (pmr_rmr pm))) IBV_WR_RDMA_READ t;
     if ret \<noteq> 0 then map_destroy_rkey p f t s else do {
     (f, t) \<leftarrow> wait_command E p f t;
     Some (p, put_file p f t s)
     }}"

definition rpmem_map :: "env \<Rightarrow> ptr \<Rightarrow> u64 \<Rightarrow> client_state \<Rightarrow> (ptr \<times> client_state) option" where
  "rpmem_map E p len s = do {
     f \<leftarrow> cl_files s p;
     let (addr, t) = call_ptr E (Calloc len) (cl_trace s);
     let f = upd_rmr (\<lambda>m. m\<lparr>rmr_len := len, rmr_addr := addr\<rparr>) f;
     if addr = NULL then map_out p f t s else do {
     let (mr, t) = call_mr E (Ibv_reg_mr (conn_pd (pf_conn f)) (Vaddr addr) len [IBV_ACCESS_LOCAL_WRITE]) t;
     let f = upd_pmr (\<lambda>m. m\<lparr>pmr_mr := mr\<rparr>) f;
     if mr = None then map_destroy_addr p f t s else do {
     (ret, f, t) \<leftarrow> exchange E p (\<lambda>m. pack_map_req (host E) m (ucast len)) f t;
     if ret \<noteq> 0 then map_destroy_mr p f t s else do {
     let (ret, rkey, remote_addr) =
           unpack_map_rsp (host E) (conn_rsp (pf_conn f)) (pmr_rkey (pf_priv_mr f))
             (pmr_remote_addr (pf_priv_mr f));
     let f = upd_pmr (\<lambda>m. m\<lparr>pmr_rkey := rkey, pmr_remote_addr := remote_addr\<rparr>) f;
     if ret \<noteq> 0 then map_destroy_mr p f t s
     else map_read E p f t s
     }}}}"

text \<open>The code after the label \<^verbatim>\<open>destroy_mr\<close> of \<^verbatim>\<open>rpmem_unmap\<close>.\<close>

definition unmap_destroy_mr ::
  "ptr \<Rightarrow> cint \<Rightarrow> priv_rpmem_file \<Rightarrow> trace \<Rightarrow> client_state \<Rightarrow> (cint \<times> client_state) option" where
  "unmap_destroy_mr p ret f t s = do {
     t \<leftarrow> dereg (pmr_mr (pf_priv_mr f)) t;
     let f = upd_pmr (\<lambda>m. m\<lparr>pmr_rkey := 0, pmr_remote_addr := 0\<rparr>) f;
     let t = Free (rmr_addr (pmr_rmr (pf_priv_mr f))) # t;
     Some (ret, put_file p (upd_rmr (\<lambda>m. m\<lparr>rmr_len := 0\<rparr>) f) t s)
   }"

definition rpmem_unmap :: "env \<Rightarrow> ptr \<Rightarrow> client_state \<Rightarrow> (cint \<times> client_state) option" where
  "rpmem_unmap E p s = do {
     f \<leftarrow> cl_files s p;
     let pm = pf_priv_mr f;
     (ret, f, t) \<leftarrow> exchange E p
        (\<lambda>m. pack_unmap_req (host E) m (ucast (rmr_len (pmr_rmr pm))) (pmr_remote_addr pm)) f (cl_trace s);
     if ret \<noteq> 0 then unmap_destroy_mr p ret f t s else do {
     let (ret, unmap_ret) = unpack_unmap_rsp (host E) (conn_rsp (pf_conn f)) (env_junk32 E t);
     if ret \<noteq> 0 then unmap_destroy_mr p ret f t s
     else unmap_destroy_mr p unmap_ret f t s
     }}"

text \<open>Sending the commit request, once the write is posted.\<close>

definition commit_request ::
  "env \<Rightarrow> ptr \<Rightarrow> priv_rpmem_file \<Rightarrow> trace \<Rightarrow> client_state \<Rightarrow> (cint \<times> client_state) option" where
  "commit_request E p f t s = do {
     let pm = pf_priv_mr f;
     (ret, f, t) \<leftarrow> send_req E
        (\<lambda>m. pack_commit_req (host E) m (ucast (rmr_len (pmr_rmr pm))) (pmr_remote_addr pm)) f t;
     if ret \<noteq> 0 then Some (ret, put_file p f t s) else do {
     (f, t) \<leftarrow> wait_command E p f t;
     let (ret, commit_ret) = unpack_commit_rsp (host E) (conn_rsp (pf_conn f)) (env_junk32 E t);
     Some (if ret \<noteq> 0 then ret else commit_ret, put_file p f t s)
     }}"

definition rpmem_commit :: "env \<Rightarrow> ptr \<Rightarrow> client_state \<Rightarrow> (cint \<times> client_state) option" where
  "rpmem_commit E p s = do {
     f \<leftarrow> cl_files s p;
     let pm = pf_priv_mr f;
     (ret, f, t) \<leftarrow> post_rsp_recv E f (cl_trace s);
     if ret \<noteq> 0 then Some (ret, put_file p f t s) else do {
     mr \<leftarrow> pmr_mr pm;
     let (ret, t) = rpmem_post_rdma_wr E (pf_conn f) (pmr_rkey pm) (mr_lkey mr) (pmr_remote_addr pm)
           (Vaddr (rmr_addr (pmr_rmr pm))) (ucast (rmr_len (pmr_rmr pm))) IBV_WR_RDMA_WRITE t;
     if ret \<noteq> 0 then Some (ret, put_file p f t s)
     else commit_request E p f t s
     }}"

section \<open>The exchange\<close>

lemma run_cq_thread_ok: "run_cq_thread E f t = Some (b, f', t') \<Longrightarrow> cq_ok E f t f' t'"
  by (cases "pf_cq_running f") (auto simp: run_cq_thread_def intro: cq_thr.runs_ok)

lemma wait_command_ok:
  assumes "wait_command E p f t = Some (f', t')"
  shows "cq_ok E f t f' t'"
proof -
  let ?t = "Sem_wait_command p # t"
  have step: "cq_ok E f t f ?t" by (simp add: cq_ok_def)
  obtain b f1 t1 where r: "run_cq_thread E f ?t = Some (b, f1, t1)"
    using assms by (cases "run_cq_thread E f ?t") (auto simp: wait_command_def)
  have "cq_ok E f t f1 t1" by (rule cq_ok_trans [OF step run_cq_thread_ok [OF r]])
  moreover have "f' = f1\<lparr>pf_cq_running := b, pf_sem_command := pf_sem_command f1 - 1\<rparr> \<and> t' = t1"
    using assms r by (auto simp: wait_command_def Let_def split: if_splits)
  then have "same_file f1 f' \<and> pf_conn f' = pf_conn f1 \<and> t' = t1" by (simp add: same_file_def)
  ultimately show ?thesis by (auto simp: cq_ok_def intro: same_file_trans)
qed

lemma post_rsp_recv_ok:
  assumes "post_rsp_recv E f t = Some (ret, f', t')"
  shows "f' = f\<lparr>pf_conn := (pf_conn f)\<lparr>conn_rsp := zero_cmd\<rparr>\<rparr>" and "live E t' = live E t"
    and "posted t' = posted t" and "conn_rsp_mr (pf_conn f) \<noteq> None"
  using assms
  by (cases "conn_rsp_mr (pf_conn f)"; auto simp: post_rsp_recv_def post_simps)+

lemma send_req_ok:
  assumes "send_req E g f t = Some (ret, f', t')"
  shows "f' = f\<lparr>pf_conn := (pf_conn f)\<lparr>conn_req := g (conn_req (pf_conn f))\<rparr>\<rparr>" and "live E t' = live E t"
    and "\<exists>wr. posted t' = (wr, g (conn_req (pf_conn f))) # posted t \<and> swr_opcode wr = IBV_WR_SEND"
    and "conn_req_mr (pf_conn f) \<noteq> None" and "ret = 0 \<or> ret = -1"
proof -
  let ?c = "(pf_conn f)\<lparr>conn_req := g (conn_req (pf_conn f))\<rparr>"
  from assms obtain mr where mr: "conn_req_mr (pf_conn f) = Some mr"
    by (cases "conn_req_mr (pf_conn f)") (simp_all add: send_req_def post_simps Let_def)
  then have "send_req E g f t = Some (if env_int E (send_call ?c Conn_req mr # t) \<noteq> 0 then -1 else 0,
      f\<lparr>pf_conn := ?c\<rparr>, send_call ?c Conn_req mr # t)"
    by (simp add: send_req_def post_simps Let_def)
  with assms have "(ret, f', t') = (if env_int E (send_call ?c Conn_req mr # t) \<noteq> 0 then -1 else 0,
      f\<lparr>pf_conn := ?c\<rparr>, send_call ?c Conn_req mr # t)"
    by (metis option.inject)
  then have r: "ret = (if env_int E (send_call ?c Conn_req mr # t) \<noteq> 0 then -1 else 0)"
    and f': "f' = f\<lparr>pf_conn := ?c\<rparr>" and t': "t' = send_call ?c Conn_req mr # t"
    by simp_all
  show "f' = f\<lparr>pf_conn := ?c\<rparr>" by (rule f')
  show "live E t' = live E t" by (simp add: t')
  show "\<exists>wr. posted t' = (wr, g (conn_req (pf_conn f))) # posted t \<and> swr_opcode wr = IBV_WR_SEND"
    by (simp add: t' send_call_def)
  show "conn_req_mr (pf_conn f) \<noteq> None" using mr by simp
  show "ret = 0 \<or> ret = -1" by (simp add: r)
qed

text \<open>The ways an exchange can end: at either of its posts, or with the wait over.\<close>

lemma exchange_cases:
  assumes "exchange E p g f t = Some (ret, f', t')"
  obtains (no_recv) "ret \<noteq> 0" "post_rsp_recv E f t = Some (ret, f', t')"
  | (no_send) f1 t1 where "ret \<noteq> 0" "post_rsp_recv E f t = Some (0, f1, t1)" "send_req E g f1 t1 = Some (ret, f', t')"
  | (waited) f1 t1 f2 t2 where "ret = 0" "post_rsp_recv E f t = Some (0, f1, t1)"
      "send_req E g f1 t1 = Some (0, f2, t2)" "wait_command E p f2 t2 = Some (f', t')"
  using assms by (auto simp: exchange_def bind_eq_Some_conv split: if_splits)

text \<open>Packing a message into the request buffer, seen by an exchange that got that far.\<close>

lemma exchange_sent:
  assumes "post_rsp_recv E f t = Some (0, f1, t1)" and "send_req E g f1 t1 = Some (ret, f2, t2)"
  shows "same_file f f2" and "live E t2 = live E t"
    and "\<exists>wr. posted t2 = (wr, g (conn_req (pf_conn f))) # posted t \<and> swr_opcode wr = IBV_WR_SEND"
    and "wf_conn (pf_conn f) \<Longrightarrow> (\<And>m. wf_cmd m \<Longrightarrow> wf_cmd (g m)) \<Longrightarrow> wf_conn (pf_conn f2)"
  using post_rsp_recv_ok [OF assms(1)] send_req_ok [OF assms(2)] by (auto simp: same_file_def wf_conn_def)

text \<open>
  An exchange changes nothing of the file but its buffers and the command semaphore, obtains and
  releases nothing, and has sent at most the one request.
\<close>

lemma exchange_ok:
  assumes ex: "exchange E p g f t = Some (ret, f', t')"
  shows "same_file f f'" and "live E t' = live E t"
    and "wf_conn (pf_conn f) \<Longrightarrow> (\<And>m. wf_cmd m \<Longrightarrow> wf_cmd (g m)) \<Longrightarrow> wf_conn (pf_conn f')"
    and "ret = 0 \<Longrightarrow> \<exists>wr. posted t' = (wr, g (conn_req (pf_conn f))) # posted t \<and> swr_opcode wr = IBV_WR_SEND"
    and "conn_rsp_mr (pf_conn f) \<noteq> None"
proof -
  have "same_file f f' \<and> live E t' = live E t \<and>
    (wf_conn (pf_conn f) \<longrightarrow> (\<forall>m. wf_cmd m \<longrightarrow> wf_cmd (g m)) \<longrightarrow> wf_conn (pf_conn f')) \<and>
    (ret = 0 \<longrightarrow> (\<exists>wr. posted t' = (wr, g (conn_req (pf_conn f))) # posted t \<and> swr_opcode wr = IBV_WR_SEND)) \<and>
    conn_rsp_mr (pf_conn f) \<noteq> None"
    using ex
  proof (cases rule: exchange_cases)
    case no_recv
    with post_rsp_recv_ok [OF no_recv(2)] show ?thesis by (simp add: same_file_def)
  next
    case (no_send f1 t1)
    with exchange_sent [OF no_send(2,3)] post_rsp_recv_ok(4) [OF no_send(2)] show ?thesis by simp
  next
    case (waited f1 t1 f2 t2)
    with exchange_sent [OF waited(2,3)] post_rsp_recv_ok(4) [OF waited(2)] wait_command_ok [OF waited(4)]
      same_file_trans [of f f2 f'] show ?thesis by (auto simp: cq_ok_def)
  qed
  then show "same_file f f'" and "live E t' = live E t"
    and "wf_conn (pf_conn f) \<Longrightarrow> (\<And>m. wf_cmd m \<Longrightarrow> wf_cmd (g m)) \<Longrightarrow> wf_conn (pf_conn f')"
    and "ret = 0 \<Longrightarrow> \<exists>wr. posted t' = (wr, g (conn_req (pf_conn f))) # posted t \<and> swr_opcode wr = IBV_WR_SEND"
    and "conn_rsp_mr (pf_conn f) \<noteq> None"
    by auto
qed

section \<open>The ways the calls can go\<close>

text \<open>The post of an RDMA work request on the region of a file.\<close>

abbreviation region_call :: "ibv_wr_opcode \<Rightarrow> rpmem_conn \<Rightarrow> priv_rpmem_mr \<Rightarrow> ibv_mr \<Rightarrow> call" where
  "region_call opc c pm mr \<equiv> rdma_call c (pmr_rkey pm) (mr_lkey mr) (pmr_remote_addr pm)
     (Vaddr (rmr_addr (pmr_rmr pm))) (ucast (rmr_len (pmr_rmr pm))) opc"

lemma map_read_cases:
  assumes "map_read E p f t s = Some (r, s')"
  obtains (no_read) mr where "pmr_mr (pf_priv_mr f) = Some mr"
      "env_int E (region_call IBV_WR_RDMA_READ (pf_conn f) (pf_priv_mr f) mr # t) \<noteq> 0"
      "map_destroy_rkey p f (region_call IBV_WR_RDMA_READ (pf_conn f) (pf_priv_mr f) mr # t) s = Some (r, s')"
  | (waited) mr f1 t1 where "pmr_mr (pf_priv_mr f) = Some mr"
      "env_int E (region_call IBV_WR_RDMA_READ (pf_conn f) (pf_priv_mr f) mr # t) = 0"
      "wait_command E p f (region_call IBV_WR_RDMA_READ (pf_conn f) (pf_priv_mr f) mr # t) = Some (f1, t1)"
      "r = p" "s' = put_file p f1 t1 s"
proof -
  obtain mr where mr: "pmr_mr (pf_priv_mr f) = Some mr"
    using assms by (cases "pmr_mr (pf_priv_mr f)") (simp_all add: map_read_def)
  let ?t = "region_call IBV_WR_RDMA_READ (pf_conn f) (pf_priv_mr f) mr # t"
  have eq: "map_read E p f t s = (if env_int E ?t \<noteq> 0 then map_destroy_rkey p f ?t s
      else map_option (\<lambda>(f, t). (p, put_file p f t s)) (wait_command E p f ?t))"
    using mr by (simp add: map_read_def post_simps Let_def map_option_case split: option.split)
  show thesis
  proof (cases "env_int E ?t = 0")
    case True
    with assms show thesis unfolding eq by (auto intro: waited [OF mr])
  next
    case False
    with assms show thesis unfolding eq by (intro no_read [OF mr]) simp_all
  qed
qed

text \<open>The result of a call that unpacked a response with a return code.\<close>

definition unpacked :: "cint \<times> cint \<Rightarrow> cint" where
  "unpacked up = (if fst up \<noteq> 0 then fst up else snd up)"

lemma unmap_cases:
  assumes "cl_files s p = Some f" and "rpmem_unmap E p s = Some (ret, s')"
  obtains r1 f1 t1 where "exchange E p (\<lambda>m. pack_unmap_req (host E) m (ucast (rmr_len (pmr_rmr (pf_priv_mr f))))
        (pmr_remote_addr (pf_priv_mr f))) f (cl_trace s) = Some (r1, f1, t1)"
    "unmap_destroy_mr p (if r1 \<noteq> 0 then r1
       else unpacked (unpack_unmap_rsp (host E) (conn_rsp (pf_conn f1)) (env_junk32 E t1))) f1 t1 s = Some (ret, s')"
  using assms by (auto simp: rpmem_unmap_def unpacked_def Let_def split_beta bind_eq_Some_conv split: if_splits)

lemma commit_request_cases:
  assumes "commit_request E p f t s = Some (ret, s')"
  defines "g \<equiv> \<lambda>m. pack_commit_req (host E) m (ucast (rmr_len (pmr_rmr (pf_priv_mr f)))) (pmr_remote_addr (pf_priv_mr f))"
  obtains (no_send) f2 t2 where "ret \<noteq> 0" "send_req E g f t = Some (ret, f2, t2)" "s' = put_file p f2 t2 s"
  | (waited) f2 t2 f3 t3 where "send_req E g f t = Some (0, f2, t2)" "wait_command E p f2 t2 = Some (f3, t3)"
      "ret = unpacked (unpack_commit_rsp (host E) (conn_rsp (pf_conn f3)) (env_junk32 E t3))" "s' = put_file p f3 t3 s"
proof -
  obtain r2 f2 t2 where x: "send_req E g f t = Some (r2, f2, t2)"
    using assms by (cases "send_req E g f t") (auto simp: commit_request_def Let_def)
  show thesis
  proof (cases "r2 = 0")
    case False
    with assms x show thesis by (intro no_send [of f2 t2]) (auto simp: commit_request_def Let_def)
  next
    case True
    obtain f3 t3 where w: "wait_command E p f2 t2 = Some (f3, t3)"
      using assms x True by (cases "wait_command E p f2 t2") (auto simp: commit_request_def Let_def)
    with assms x True show thesis
      by (intro waited [of f2 t2 f3 t3]) (auto simp: commit_request_def unpacked_def Let_def split_beta split: if_splits)
  qed
qed

lemma commit_cases:
  assumes f: "cl_files s p = Some f" and h: "rpmem_commit E p s = Some (ret, s')"
  obtains (no_recv) f1 t1 where "ret \<noteq> 0" "post_rsp_recv E f (cl_trace s) = Some (ret, f1, t1)" "s' = put_file p f1 t1 s"
  | (no_write) f1 t1 mr where "ret = -1" "post_rsp_recv E f (cl_trace s) = Some (0, f1, t1)"
      "s' = put_file p f1 (region_call IBV_WR_RDMA_WRITE (pf_conn f1) (pf_priv_mr f) mr # t1) s"
  | (requested) f1 t1 mr where "post_rsp_recv E f (cl_trace s) = Some (0, f1, t1)" "pmr_mr (pf_priv_mr f) = Some mr"
      "commit_request E p f1 (region_call IBV_WR_RDMA_WRITE (pf_conn f1) (pf_priv_mr f) mr # t1) s = Some (ret, s')"
  using assms by (auto simp: rpmem_commit_def post_simps Let_def bind_eq_Some_conv split: if_splits)

section \<open>Map\<close>

lemma put_file_simps [simp]:
  "cl_files (put_file p f t s) = (cl_files s)(p \<mapsto> f)" "cl_trace (put_file p f t s) = t"
  "cl_file_list (put_file p f t s) = cl_file_list s"
  by (simp_all add: put_file_def)

lemma drop_file_simps [simp]:
  "cl_files (drop_file p t s) = (cl_files s)(p := None)" "cl_trace (drop_file p t s) = Free p # t"
  "cl_file_list (drop_file p t s) = cl_file_list s"
  by (simp_all add: drop_file_def)

lemmas map_label_defs = map_out_def map_destroy_addr_def map_destroy_mr_def map_destroy_rkey_def
  upd_rmr_def upd_pmr_def dereg_def

lemma map_destroy_mr_eq:
  assumes "pmr_mr (pf_priv_mr f) = Some mr"
  shows "map_destroy_mr p f t s = Some (NULL, put_file p (upd_rmr (\<lambda>m. m\<lparr>rmr_len := 0\<rparr>) f)
     (Free (rmr_addr (pmr_rmr (pf_priv_mr f))) # Ibv_dereg_mr mr # t) s)"
  using assms by (simp add: map_label_defs)

text \<open>The region a file has mapped, and the RDMA work request that transfers it.\<close>

definition region_wr :: "ibv_wr_opcode \<Rightarrow> priv_rpmem_mr \<Rightarrow> ibv_mr \<Rightarrow> ibv_send_wr" where
  "region_wr opc pm mr =
     \<lparr>swr_id = Vaddr 0,
      swr_sge = \<lparr>sge_addr = Vaddr (rmr_addr (pmr_rmr pm)), sge_length = ucast (rmr_len (pmr_rmr pm)),
        sge_lkey = mr_lkey mr\<rparr>,
      swr_opcode = opc, swr_signaled = True, swr_rkey = pmr_rkey pm,
      swr_remote_addr = pmr_remote_addr pm\<rparr>"

lemma rdma_region_post [simp]: "post_of (region_call opc c pm mr) = Some (region_wr opc pm mr, [])"
  by (simp add: rdma_call_def region_wr_def)

lemma map_read_ok:
  assumes h: "map_read E p f t s = Some (r, s')" and mr: "pmr_mr (pf_priv_mr f) = Some mr" and "p \<noteq> NULL"
  shows "if r = NULL
    then \<exists>t1 f1. s' = put_file p f1 (Free (rmr_addr (pmr_rmr (pf_priv_mr f))) # Ibv_dereg_mr mr # t1) s \<and>
      live E t1 = live E t \<and> rmr_len (pmr_rmr (pf_priv_mr f1)) = 0
    else r = p \<and> (\<exists>f1 t1. s' = put_file p f1 t1 s \<and> same_file f f1 \<and> live E t1 = live E t \<and>
      posted t1 = (region_wr IBV_WR_RDMA_READ (pf_priv_mr f) mr, []) # posted t)"
  using h
proof (cases rule: map_read_cases)
  case (no_read mr')
  then have "r = NULL \<and> (\<exists>f1. s' = put_file p f1 (Free (rmr_addr (pmr_rmr (pf_priv_mr f))) # Ibv_dereg_mr mr #
      region_call IBV_WR_RDMA_READ (pf_conn f) (pf_priv_mr f) mr # t) s \<and> rmr_len (pmr_rmr (pf_priv_mr f1)) = 0)"
    using mr by (auto simp: map_label_defs)
  then show ?thesis by fastforce
next
  case (waited mr' f1 t1)
  with mr have "mr' = mr" by simp
  with waited wait_command_ok [OF waited(3)] assms(3) show ?thesis by (auto simp: cq_ok_def)
qed

text \<open>The file once the local buffer is allocated and registered, before the request is sent.\<close>

definition map_local :: "env \<Rightarrow> u64 \<Rightarrow> client_state \<Rightarrow> priv_rpmem_file \<Rightarrow> ibv_mr \<Rightarrow> priv_rpmem_file" where
  "map_local E len s f mr =
     upd_pmr (\<lambda>m. m\<lparr>pmr_mr := Some mr\<rparr>)
       (upd_rmr (\<lambda>m. m\<lparr>rmr_len := len, rmr_addr := env_ptr E (Calloc len # cl_trace s)\<rparr>) f)"

definition map_local_trace :: "env \<Rightarrow> u64 \<Rightarrow> client_state \<Rightarrow> priv_rpmem_file \<Rightarrow> trace" where
  "map_local_trace E len s f =
     Ibv_reg_mr (conn_pd (pf_conn f)) (Vaddr (env_ptr E (Calloc len # cl_trace s))) len
       [IBV_ACCESS_LOCAL_WRITE] # Calloc len # cl_trace s"

lemma map_local_simps [simp]:
  "pf_conn (map_local E len s f mr) = pf_conn f" "pmr_mr (pf_priv_mr (map_local E len s f mr)) = Some mr"
  "rmr_len (pmr_rmr (pf_priv_mr (map_local E len s f mr))) = len"
  "rmr_addr (pmr_rmr (pf_priv_mr (map_local E len s f mr))) = env_ptr E (Calloc len # cl_trace s)"
  by (simp_all add: map_local_def upd_rmr_def upd_pmr_def)

lemma map_local_live:
  assumes "env_ptr E (Calloc len # cl_trace s) \<noteq> NULL" and "env_mr E (map_local_trace E len s f) = Some mr"
  shows "live E (map_local_trace E len s f) =
    live E (cl_trace s) + {#H_mem (env_ptr E (Calloc len # cl_trace s)), H_mr mr#}"
  using assms by (simp add: map_local_trace_def)

text \<open>The three ways a map request of the client can go once its buffer is registered.\<close>

lemma map_exchange:
  assumes f: "cl_files s p = Some f" and a: "env_ptr E (Calloc len # cl_trace s) \<noteq> NULL"
    and mr: "env_mr E (map_local_trace E len s f) = Some mr"
    and h: "rpmem_map E p len s = Some (r, s')"
  obtains ret f2 t2 where
    "exchange E p (\<lambda>m. pack_map_req (host E) m (ucast len)) (map_local E len s f mr)
       (map_local_trace E len s f) = Some (ret, f2, t2)"
    "ret \<noteq> 0 \<longrightarrow> map_destroy_mr p f2 t2 s = Some (r, s')"
    "ret = 0 \<longrightarrow> (let (ret, rkey, ra) = unpack_map_rsp (host E) (conn_rsp (pf_conn f2))
         (pmr_rkey (pf_priv_mr f2)) (pmr_remote_addr (pf_priv_mr f2));
       f3 = upd_pmr (\<lambda>m. m\<lparr>pmr_rkey := rkey, pmr_remote_addr := ra\<rparr>) f2
       in (if ret \<noteq> 0 then map_destroy_mr p f3 t2 s else map_read E p f3 t2 s)) = Some (r, s')"
proof -
  let ?f1 = "map_local E len s f mr" and ?t1 = "map_local_trace E len s f"
  let ?ex = "exchange E p (\<lambda>m. pack_map_req (host E) m (ucast len)) ?f1 ?t1"
  have eq: "rpmem_map E p len s = (case ?ex of None \<Rightarrow> None | Some (ret, f2, t2) \<Rightarrow>
      if ret \<noteq> 0 then map_destroy_mr p f2 t2 s
      else (let (ret, rkey, ra) = unpack_map_rsp (host E) (conn_rsp (pf_conn f2))
         (pmr_rkey (pf_priv_mr f2)) (pmr_remote_addr (pf_priv_mr f2));
       f3 = upd_pmr (\<lambda>m. m\<lparr>pmr_rkey := rkey, pmr_remote_addr := ra\<rparr>) f2
       in (if ret \<noteq> 0 then map_destroy_mr p f3 t2 s else map_read E p f3 t2 s)))"
    using f a mr
    by (simp add: rpmem_map_def call_defs Let_def map_local_def map_local_trace_def upd_rmr_def
        split: option.split)
  obtain ret f2 t2 where x: "?ex = Some (ret, f2, t2)"
    using h unfolding eq by (cases ?ex) auto
  show thesis using h unfolding eq x by (intro that [OF x]) auto
qed

text \<open>
  What a map call of the client amounts to: it returns null having given everything back, or the
  region, with the local buffer and its registration held, the request sent and the read posted.
\<close>

definition map_outcome ::
  "env \<Rightarrow> ptr \<Rightarrow> u64 \<Rightarrow> client_state \<Rightarrow> priv_rpmem_file \<Rightarrow> ptr \<Rightarrow> client_state \<Rightarrow> bool" where
  "map_outcome E p len s f r s' \<longleftrightarrow>
    cl_file_list s' = cl_file_list s \<and> (\<exists>f'. cl_files s' = (cl_files s)(p \<mapsto> f') \<and>
    (if r = NULL then live E (cl_trace s') = live E (cl_trace s) \<and> rmr_len (pmr_rmr (pf_priv_mr f')) = 0
     else r = p \<and> rmr_len (pmr_rmr (pf_priv_mr f')) = len \<and> rmr_addr (pmr_rmr (pf_priv_mr f')) \<noteq> NULL \<and>
       (\<exists>mr wr. pmr_mr (pf_priv_mr f') = Some mr \<and> swr_opcode wr = IBV_WR_SEND \<and>
          live E (cl_trace s') = live E (cl_trace s) + {#H_mem (rmr_addr (pmr_rmr (pf_priv_mr f'))), H_mr mr#} \<and>
          posted (cl_trace s') = (region_wr IBV_WR_RDMA_READ (pf_priv_mr f') mr, []) #
            (wr, pack_map_req (host E) (conn_req (pf_conn f)) (ucast len)) # posted (cl_trace s))))"

lemma map_undone:
  assumes "live E t = live E (cl_trace s)" and "rmr_len (pmr_rmr (pf_priv_mr f')) = 0"
  shows "map_outcome E p len s f NULL (put_file p f' t s)"
  using assms by (auto simp: map_outcome_def)

text \<open>The exchange with the region it answered, and the labels behind it.\<close>

lemma map_given_up:
  assumes "map_destroy_mr p f t s = Some (r, s')" and "pmr_mr (pf_priv_mr f) = Some mr"
    and "rmr_addr (pmr_rmr (pf_priv_mr f)) = a" and "a \<noteq> NULL"
    and "live E t = live E (cl_trace s) + {#H_mem a, H_mr mr#}"
  shows "map_outcome E p len s f0 r s'"
proof -
  have "r = NULL" "s' = put_file p (upd_rmr (\<lambda>m. m\<lparr>rmr_len := 0\<rparr>) f) (Free a # Ibv_dereg_mr mr # t) s"
    using assms(1,3) map_destroy_mr_eq [OF assms(2), of p t s] by auto
  moreover have "live E (Free a # Ibv_dereg_mr mr # t) = live E (cl_trace s)" using assms(4,5) by simp
  ultimately show ?thesis by (auto simp: upd_rmr_def intro!: map_undone)
qed

lemma map_read_outcome:
  assumes h: "map_read E p f t s = Some (r, s')" and p: "p \<noteq> NULL" and mr: "pmr_mr (pf_priv_mr f) = Some mr"
    and a: "rmr_addr (pmr_rmr (pf_priv_mr f)) = a" "a \<noteq> NULL" and len: "rmr_len (pmr_rmr (pf_priv_mr f)) = len"
    and l: "live E t = live E (cl_trace s) + {#H_mem a, H_mr mr#}"
    and w: "posted t = (wr, pack_map_req (host E) (conn_req (pf_conn f0)) (ucast len)) # posted (cl_trace s)"
      "swr_opcode wr = IBV_WR_SEND"
  shows "map_outcome E p len s f0 r s'"
proof (cases "r = NULL")
  case True
  with map_read_ok [OF h mr p] obtain t1 f1 where "s' = put_file p f1 (Free a # Ibv_dereg_mr mr # t1) s"
    "live E t1 = live E t" "rmr_len (pmr_rmr (pf_priv_mr f1)) = 0" using a(1) by auto
  with True l a(2) show ?thesis by (auto intro!: map_undone)
next
  case False
  with map_read_ok [OF h mr p] obtain f1 t1 where o: "r = p" "s' = put_file p f1 t1 s" "same_file f f1" "live E t1 = live E t"
    "posted t1 = (region_wr IBV_WR_RDMA_READ (pf_priv_mr f) mr, []) # posted t" by auto
  from o(3) have "pf_priv_mr f1 = pf_priv_mr f" by (simp add: same_file_def)
  with o False mr a len l w show ?thesis by (auto simp: map_outcome_def intro!: exI [of _ f1])
qed

lemma map_registered:
  assumes f: "cl_files s p = Some f" and p: "p \<noteq> NULL" and h: "rpmem_map E p len s = Some (r, s')"
    and a: "env_ptr E (Calloc len # cl_trace s) \<noteq> NULL" "env_mr E (map_local_trace E len s f) = Some mr"
  shows "map_outcome E p len s f r s'"
proof -
  let ?a = "env_ptr E (Calloc len # cl_trace s)"
  let ?f1 = "map_local E len s f mr" and ?t1 = "map_local_trace E len s f"
  obtain ret f2 t2 where x: "exchange E p (\<lambda>m. pack_map_req (host E) m (ucast len)) ?f1 ?t1 = Some (ret, f2, t2)"
    "ret \<noteq> 0 \<longrightarrow> map_destroy_mr p f2 t2 s = Some (r, s')"
    "ret = 0 \<longrightarrow> (let (ret, rkey, ra) = unpack_map_rsp (host E) (conn_rsp (pf_conn f2))
       (pmr_rkey (pf_priv_mr f2)) (pmr_remote_addr (pf_priv_mr f2));
     f3 = upd_pmr (\<lambda>m. m\<lparr>pmr_rkey := rkey, pmr_remote_addr := ra\<rparr>) f2
     in (if ret \<noteq> 0 then map_destroy_mr p f3 t2 s else map_read E p f3 t2 s)) = Some (r, s')"
    by (rule map_exchange [OF f a h])
  note e = exchange_ok [OF x(1)]
  have l: "live E t2 = live E (cl_trace s) + {#H_mem ?a, H_mr mr#}" using e(2) map_local_live [OF a] by simp
  from e(1) have pm: "pf_priv_mr f2 = pf_priv_mr ?f1" by (simp add: same_file_def)
  obtain ret2 rkey ra where up: "unpack_map_rsp (host E) (conn_rsp (pf_conn f2))
      (pmr_rkey (pf_priv_mr f2)) (pmr_remote_addr (pf_priv_mr f2)) = (ret2, rkey, ra)"
    by (cases "unpack_map_rsp (host E) (conn_rsp (pf_conn f2))
      (pmr_rkey (pf_priv_mr f2)) (pmr_remote_addr (pf_priv_mr f2))") auto
  let ?f3 = "upd_pmr (\<lambda>m. m\<lparr>pmr_rkey := rkey, pmr_remote_addr := ra\<rparr>) f2"
  have m3: "pmr_mr (pf_priv_mr ?f3) = Some mr" "rmr_addr (pmr_rmr (pf_priv_mr ?f3)) = ?a"
    "rmr_len (pmr_rmr (pf_priv_mr ?f3)) = len"
    by (simp_all add: upd_pmr_def pm)
  consider "map_destroy_mr p f2 t2 s = Some (r, s')" | "map_destroy_mr p ?f3 t2 s = Some (r, s')"
    | "ret = 0" "map_read E p ?f3 t2 s = Some (r, s')"
    using x(2,3) by (cases "ret = 0") (auto simp: up Let_def split: if_splits)
  then show ?thesis
  proof cases
    case 1
    then show ?thesis by (rule map_given_up [OF _ _ _ a(1) l]) (simp_all add: pm)
  next
    case 2
    then show ?thesis by (rule map_given_up [OF _ m3(1,2) a(1) l])
  next
    case 3
    moreover have "posted ?t1 = posted (cl_trace s)" by (simp add: map_local_trace_def)
    ultimately show ?thesis using e(4) by (auto intro!: map_read_outcome [OF 3(2) p m3(1,2) a(1) m3(3) l])
  qed
qed

lemma client_map_result:
  assumes f: "cl_files s p = Some f" and p: "p \<noteq> NULL" and h: "rpmem_map E p len s = Some (r, s')"
  shows "map_outcome E p len s f r s'"
proof -
  let ?a = "env_ptr E (Calloc len # cl_trace s)"
  consider "?a = NULL" | "?a \<noteq> NULL" "env_mr E (map_local_trace E len s f) = None"
    | mr where "?a \<noteq> NULL" "env_mr E (map_local_trace E len s f) = Some mr" by fastforce
  then show ?thesis
  proof cases
    case 1
    with f h show ?thesis by (auto simp: rpmem_map_def call_defs map_label_defs Let_def intro!: map_undone)
  next
    case 2
    with f h show ?thesis
      by (auto simp: rpmem_map_def call_defs map_label_defs Let_def map_local_trace_def intro!: map_undone)
  next
    case (3 mr)
    then show ?thesis by (rule map_registered [OF f p h])
  qed
qed

end
