(* ===== verification/Client_Spec.thy ===== *)
theory Client_Spec
  imports Client_Api
begin

text \<open>
  What the functions of the client library do: which resources they hold afterwards, what they
  put on the wire and in which order, and what their results mean.
\<close>

section \<open>Unmap\<close>

definition unmapped :: "priv_rpmem_file \<Rightarrow> priv_rpmem_file \<Rightarrow> bool" where
  "unmapped f f' \<longleftrightarrow>
     pmr_rkey (pf_priv_mr f') = 0 \<and> pmr_remote_addr (pf_priv_mr f') = 0 \<and>
     rmr_len (pmr_rmr (pf_priv_mr f')) = 0 \<and>
     rmr_addr (pmr_rmr (pf_priv_mr f')) = rmr_addr (pmr_rmr (pf_priv_mr f)) \<and>
     pmr_mr (pf_priv_mr f') = pmr_mr (pf_priv_mr f)"

lemma unmap_destroy_mr_ok:
  assumes "unmap_destroy_mr p ret0 f t s = Some (ret, s')"
  obtains f' mr where "ret = ret0" "pmr_mr (pf_priv_mr f) = Some mr" "unmapped f f'"
    "pf_conn f' = pf_conn f"
    "s' = put_file p f' (Free (rmr_addr (pmr_rmr (pf_priv_mr f))) # Ibv_dereg_mr mr # t) s"
proof -
  from assms obtain mr where mr: "pmr_mr (pf_priv_mr f) = Some mr"
    by (cases "pmr_mr (pf_priv_mr f)") (simp_all add: unmap_destroy_mr_def dereg_def)
  let ?f = "upd_rmr (\<lambda>m. m\<lparr>rmr_len := 0\<rparr>) (upd_pmr (\<lambda>m. m\<lparr>pmr_rkey := 0, pmr_remote_addr := 0\<rparr>) f)"
  have "unmap_destroy_mr p ret0 f t s =
      Some (ret0, put_file p ?f (Free (rmr_addr (pmr_rmr (pf_priv_mr f))) # Ibv_dereg_mr mr # t) s)"
    using mr by (simp add: unmap_destroy_mr_def dereg_def upd_pmr_def Let_def)
  with assms have "ret = ret0" "s' = put_file p ?f (Free (rmr_addr (pmr_rmr (pf_priv_mr f))) # Ibv_dereg_mr mr # t) s"
    by simp_all
  then show thesis
    using mr by (intro that [of mr ?f]) (simp_all add: unmapped_def upd_rmr_def upd_pmr_def)
qed

lemma unmap_result:
  assumes f: "cl_files s p = Some f" and h: "rpmem_unmap E p s = Some (ret, s')"
  obtains f' mr t where "pmr_mr (pf_priv_mr f) = Some mr" "unmapped f f'"
    "s' = put_file p f' (Free (rmr_addr (pmr_rmr (pf_priv_mr f))) # Ibv_dereg_mr mr # t) s"
    "live E t = live E (cl_trace s)"
    "wf_conn (pf_conn f) \<Longrightarrow> ret = 0 \<Longrightarrow>
       wire_opcode (conn_rsp (pf_conn f')) = opcode_val RPMEM_UNMAP_RSP \<and> wire_word (conn_rsp (pf_conn f')) = 0 \<and>
       sends t = pack_unmap_req (host E) (conn_req (pf_conn f)) (ucast (rmr_len (pmr_rmr (pf_priv_mr f))))
         (pmr_remote_addr (pf_priv_mr f)) # sends (cl_trace s)"
proof -
  let ?pm = "pf_priv_mr f"
  let ?g = "\<lambda>m. pack_unmap_req (host E) m (ucast (rmr_len (pmr_rmr ?pm))) (pmr_remote_addr ?pm)"
  obtain r1 f1 t1 where x: "exchange E p ?g f (cl_trace s) = Some (r1, f1, t1)"
    and d: "unmap_destroy_mr p (if r1 \<noteq> 0 then r1
       else unpacked (unpack_unmap_rsp (host E) (conn_rsp (pf_conn f1)) (env_junk32 E t1))) f1 t1 s = Some (ret, s')"
    by (rule unmap_cases [OF f h])
  let ?ret = "if r1 \<noteq> 0 then r1 else unpacked (unpack_unmap_rsp (host E) (conn_rsp (pf_conn f1)) (env_junk32 E t1))"
  note e = exchange_ok [OF x]
  from e(1) have pm: "pf_priv_mr f1 = ?pm" by (simp add: same_file_def)
  from d obtain f' mr where o: "ret = ?ret" "pmr_mr ?pm = Some mr" "unmapped f1 f'" "pf_conn f' = pf_conn f1"
    "s' = put_file p f' (Free (rmr_addr (pmr_rmr ?pm)) # Ibv_dereg_mr mr # t1) s"
    by (rule unmap_destroy_mr_ok) (simp add: pm)
  show thesis
  proof (rule that [OF o(2) _ o(5) e(2)])
    show "unmapped f f'" using o(3) by (simp add: unmapped_def pm)
    assume wf: "wf_conn (pf_conn f)" and ret: "ret = 0"
    have w1: "wf_cmd (conn_rsp (pf_conn f1))" using e(3) [OF wf] by auto
    have "r1 = 0" using o(1) ret by (auto split: if_splits)
    moreover from this o(1) ret w1 have "wire_opcode (conn_rsp (pf_conn f1)) = opcode_val RPMEM_UNMAP_RSP"
      "wire_word (conn_rsp (pf_conn f1)) = 0"
      by (auto simp: unpack_wire unpacked_def EINVAL_def split: if_splits)
    moreover from e(4) \<open>r1 = 0\<close> have "sends t1 = ?g (conn_req (pf_conn f)) # sends (cl_trace s)"
      by (auto simp: sends_posted)
    ultimately show "wire_opcode (conn_rsp (pf_conn f')) = opcode_val RPMEM_UNMAP_RSP \<and>
       wire_word (conn_rsp (pf_conn f')) = 0 \<and> sends t1 = ?g (conn_req (pf_conn f)) # sends (cl_trace s)"
      using o(4) by simp
  qed
qed

section \<open>Commit\<close>

definition commit_msg :: "env \<Rightarrow> priv_rpmem_file \<Rightarrow> bytes" where
  "commit_msg E f = pack_commit_req (host E) (conn_req (pf_conn f))
     (ucast (rmr_len (pmr_rmr (pf_priv_mr f)))) (pmr_remote_addr (pf_priv_mr f))"

lemma commit_request_result:
  assumes h: "commit_request E p f t s = Some (ret, s')"
  obtains f' t' where "s' = put_file p f' t' s" "same_file f f'" "live E t' = live E t"
    "\<exists>wr. posted t' = (wr, commit_msg E f) # posted t \<and> swr_opcode wr = IBV_WR_SEND"
    "wf_conn (pf_conn f) \<longrightarrow> ret = 0 \<longrightarrow>
       wire_opcode (conn_rsp (pf_conn f')) = opcode_val RPMEM_COMMIT_RSP \<and> wire_word (conn_rsp (pf_conn f')) = 0"
  using h
proof (cases rule: commit_request_cases)
  case (no_send f2 t2)
  note e = send_req_ok [OF no_send(2)]
  have "same_file f f2" by (simp add: e(1) same_file_def)
  with no_send(1,3) e(2,3) show thesis by (intro that [of f2 t2]) (auto simp: commit_msg_def)
next
  case (waited f2 t2 f3 t3)
  note e = send_req_ok [OF waited(1)] and w = wait_command_ok [OF waited(2), unfolded cq_ok_def]
  have "same_file f f2" by (simp add: e(1) same_file_def)
  moreover have "wire_opcode (conn_rsp (pf_conn f3)) = opcode_val RPMEM_COMMIT_RSP \<and>
      wire_word (conn_rsp (pf_conn f3)) = 0" if "wf_conn (pf_conn f)" "ret = 0"
  proof -
    have "wf_conn (pf_conn f2)" using that(1) by (auto simp: e(1) wf_conn_def)
    with w have "wf_cmd (conn_rsp (pf_conn f3))" by auto
    with waited(3) that(2) show ?thesis by (auto simp: unpack_wire unpacked_def EINVAL_def split: if_splits)
  qed
  ultimately show thesis using e(2,3) w waited(4)
    by (intro that [of f3 t3]) (auto simp: commit_msg_def intro: same_file_trans)
qed

lemma commit_result:
  assumes f: "cl_files s p = Some f" and h: "rpmem_commit E p s = Some (ret, s')"
  obtains f' t where "s' = put_file p f' t s" "same_file f f'" "live E t = live E (cl_trace s)"
    "ret = 0 \<longrightarrow> (\<exists>mr wr. pmr_mr (pf_priv_mr f) = Some mr \<and> swr_opcode wr = IBV_WR_SEND \<and>
       posted t = (wr, commit_msg E f) # (region_wr IBV_WR_RDMA_WRITE (pf_priv_mr f) mr, []) #
         posted (cl_trace s))"
    "wf_conn (pf_conn f) \<longrightarrow> ret = 0 \<longrightarrow>
       wire_opcode (conn_rsp (pf_conn f')) = opcode_val RPMEM_COMMIT_RSP \<and> wire_word (conn_rsp (pf_conn f')) = 0"
proof -
  have p: "same_file f f1 \<and> commit_msg E f1 = commit_msg E f \<and> live E t1 = live E (cl_trace s) \<and>
      posted t1 = posted (cl_trace s) \<and> (wf_conn (pf_conn f) \<longrightarrow> wf_conn (pf_conn f1))"
    if "post_rsp_recv E f (cl_trace s) = Some (r, f1, t1)" for r f1 t1
    using post_rsp_recv_ok [OF that] by (simp add: same_file_def commit_msg_def)
  from f h show thesis
  proof (cases rule: commit_cases)
    case (no_recv f1 t1)
    with p [OF no_recv(2)] show thesis by (intro that [of f1 t1]) auto
  next
    case (no_write f1 t1 mr)
    with p [OF no_write(2)] show thesis
      by (intro that [of f1 "region_call IBV_WR_RDMA_WRITE (pf_conn f1) (pf_priv_mr f) mr # t1"]) auto
  next
    case (requested f1 t1 mr)
    let ?t = "region_call IBV_WR_RDMA_WRITE (pf_conn f1) (pf_priv_mr f) mr # t1"
    note p1 = p [OF requested(1)]
    obtain f' t' where o: "s' = put_file p f' t' s" "same_file f1 f'" "live E t' = live E ?t"
      "\<exists>wr. posted t' = (wr, commit_msg E f1) # posted ?t \<and> swr_opcode wr = IBV_WR_SEND"
      "wf_conn (pf_conn f1) \<longrightarrow> ret = 0 \<longrightarrow>
         wire_opcode (conn_rsp (pf_conn f')) = opcode_val RPMEM_COMMIT_RSP \<and> wire_word (conn_rsp (pf_conn f')) = 0"
      by (rule commit_request_result [OF requested(3)])
    show thesis
    proof (rule that [OF o(1)])
      show "same_file f f'" using p1 o(2) same_file_trans by blast
      show "live E t' = live E (cl_trace s)" using o(3) p1 by simp
    qed (use o(4,5) p1 requested(2) in auto)
  qed
qed

section \<open>Close\<close>

definition file_footprint :: "ptr \<Rightarrow> priv_rpmem_file \<Rightarrow> handle multiset" where
  "file_footprint p f =
     {#H_mem p, H_event_channel (pf_cma_channel f), H_cm_id (conn_cma_id (pf_conn f)),
       H_thread CM_THREAD p, H_qp (conn_qp (pf_conn f))#} + conn_footprint p (pf_conn f)"

lemma file_footprint_cong: "same_file f f' \<Longrightarrow> file_footprint p f' = file_footprint p f"
  by (simp add: file_footprint_def conn_footprint_def same_file_def)

lemma close_out_live:
  assumes "close_out p f t s = Some (ret, s')" and "p \<noteq> NULL" and "conn_cqthread (pf_conn f)"
    and "file_footprint p f \<subseteq># live E t"
  shows "live E (cl_trace s') + file_footprint p f =
    live E t + some_mr (conn_req_mr (pf_conn f)) + some_mr (conn_rsp_mr (pf_conn f))"
proof -
  let ?c = "pf_conn f"
  let ?A = "{#H_thread CM_THREAD p#} + {#H_qp (conn_qp ?c)#} + {#H_cm_id (conn_cma_id ?c)#} +
    {#H_event_channel (pf_cma_channel f)#} + {#H_thread CQ_THREAD p#} + {#H_cq (conn_cq ?c)#} +
    {#H_comp_channel (conn_comp_channel ?c)#} + {#H_pd (conn_pd ?c)#} + {#H_mem p#}"
  let ?B = "some_mr (conn_req_mr ?c) + some_mr (conn_rsp_mr ?c)"
  have fp: "file_footprint p f = ?A + ?B"
    using assms(3) by (simp add: file_footprint_def conn_footprint_def ac_simps)
  have "live E (cl_trace s') = live E t - ?A"
    using assms(1,2) by (auto simp: close_out_def Let_def)
  moreover from assms(4) obtain R where "live E t = file_footprint p f + R"
    by (rule mset_subset_eq_exists_conv [THEN iffD1, THEN exE])
  ultimately show ?thesis by (simp add: fp)
qed

lemma close_result:
  assumes f: "cl_files s p = Some f" and h: "rpmem_close E p s = Some (ret, s')"
  obtains f1 t1 where "same_file f f1" "live E t1 = live E (cl_trace s)" "p \<in> set (cl_file_list s)"
    "close_out p f1 t1 (s\<lparr>cl_file_list := remove1 p (cl_file_list s)\<rparr>) = Some (ret, s')"
proof -
  from h f have p: "p \<in> set (cl_file_list s)"
    by (cases "slist_remove p (cl_file_list s)") (auto simp: rpmem_close_def slist_remove_Some_iff)
  then have l: "slist_remove p (cl_file_list s) = Some (remove1 p (cl_file_list s))"
    by (rule slist_remove_in)
  obtain r1 f1 t1 where x: "exchange E p (pack_close_req (host E)) f (cl_trace s) = Some (r1, f1, t1)"
    using h f l by (cases "exchange E p (pack_close_req (host E)) f (cl_trace s)") (auto simp: rpmem_close_def)
  then have "close_out p f1 t1 (s\<lparr>cl_file_list := remove1 p (cl_file_list s)\<rparr>) = Some (ret, s')"
    using h f l by (simp add: rpmem_close_def)
  with exchange_ok(1,2) [OF x] p show thesis by (intro that)
qed

section \<open>Open\<close>

lemma open_live_open [simp]:
  "open_live E (Calloc_struct sk # t) = open_live E t + some_ptr H_mem (env_ptr E (Calloc_struct sk # t))"
  "open_live E (Rdma_create_event_channel # t) =
     open_live E t + some_ptr H_event_channel (env_ptr E (Rdma_create_event_channel # t))"
  "open_live E (Rdma_create_id p # t) = open_live E t +
     (if env_int E (Rdma_create_id p # t) \<noteq> 0 then {#} else {#H_cm_id (env_ptr E (Rdma_create_id p # t))#})"
  "open_live E (Pthread_create CM_THREAD p # t) = open_live E t +
     (if env_int E (Pthread_create CM_THREAD p # t) \<noteq> 0 then {#} else {#H_thread CM_THREAD p#})"
  "open_live E (Pthread_cancel CM_THREAD p # t) = open_live E t - {#H_thread CM_THREAD p#}"
  "open_live E (Rdma_destroy_id p # t) = open_live E t - {#H_cm_id p#}"
  "open_live E (Rdma_destroy_event_channel p # t) = open_live E t - {#H_event_channel p#}"
  "open_live E (Free p # t) = open_live E t - some_ptr H_mem p"
  "open_live E (Rdma_resolve_addr p adr ms # t) = open_live E t"
  "open_live E (Sem_wait_connect p # t) = open_live E t"
  by (auto simp: open_live_def open_kind_def some_ptr_def)

lemma wait_connect_ok:
  assumes "wait_connect E p f t = Some (f', t')"
  shows "thread_ok E f t f' t'"
proof -
  let ?t = "Sem_wait_connect p # t"
  have step: "thread_ok E f t f ?t" by (simp add: thread_ok_def)
  obtain b f1 t1 where r: "client_cm_thread E p (env_rounds E ?t) f ?t = Some (b, f1, t1)"
    using assms by (cases "client_cm_thread E p (env_rounds E ?t) f ?t") (auto simp: wait_connect_def)
  have "thread_ok E f t f1 t1" by (rule thread_ok_trans [OF step cm_thr.runs_ok [OF r]])
  moreover have "f' = f1\<lparr>pf_sem_connect := pf_sem_connect f1 - 1\<rparr> \<and> t' = t1"
    using assms r by (auto simp: wait_connect_def Let_def split: if_splits)
  ultimately show ?thesis by (auto simp: thread_ok_def)
qed

lemmas open_label_defs = open_destroy_rfile_def open_destroy_event_channel_def open_destroy_id_def
  open_destroy_thread_def

text \<open>What the last label gives back.\<close>

lemma open_destroy_thread_eq:
  assumes "p \<noteq> NULL"
    and "open_live E t = B + {#H_mem p, H_event_channel (pf_cma_channel f), H_cm_id (conn_cma_id (pf_conn f)),
      H_thread CM_THREAD p#}"
  obtains t' where "open_destroy_thread p f t s = Some (NULL, drop_file p t' s)" "open_live E (Free p # t') = B"
  using assms by (simp add: open_label_defs)

lemma open_handshake_result:
  assumes h: "open_handshake E p f t s = Some (r, s')"
  obtains (failed) f' t' where "open_destroy_thread p f' t' s = Some (r, s')" "live E t' = live E t"
      "pf_cma_channel f' = pf_cma_channel f" "conn_cma_id (pf_conn f') = conn_cma_id (pf_conn f)"
  | (opened) f' t' where "r = p" "s' = (put_file p f' t' s)\<lparr>cl_file_list := p # cl_file_list s\<rparr>"
      "pf_state f' = pf_state f" "live E t' = live E t" "conn_rsp_mr (pf_conn f') \<noteq> None"
      "wf_conn (pf_conn f) \<longrightarrow> wire_opcode (conn_rsp (pf_conn f')) = opcode_val RPMEM_OPEN_RSP \<and>
         rf_size (pf_rfile f') = wire_word (conn_rsp (pf_conn f')) \<and>
         sends t' = pack_open_req (host E) (conn_req (pf_conn f)) # sends t"
      "wf_conn (pf_conn f) \<longrightarrow> wf_conn (pf_conn f')"
      "\<exists>wr. posted t' = (wr, pack_open_req (host E) (conn_req (pf_conn f))) # posted t \<and> swr_opcode wr = IBV_WR_SEND"
proof -
  obtain r1 f1 t1 where x: "exchange E p (pack_open_req (host E)) f t = Some (r1, f1, t1)"
    using h by (cases "exchange E p (pack_open_req (host E)) f t") (auto simp: open_handshake_def)
  note e = exchange_ok [OF x]
  let ?up = "unpack_open_rsp (host E) (conn_rsp (pf_conn f1)) (rf_size (pf_rfile f1))"
  let ?f2 = "f1\<lparr>pf_rfile := (pf_rfile f1)\<lparr>rf_size := snd ?up\<rparr>\<rparr>"
  consider "r1 \<noteq> 0" "open_destroy_thread p f1 t1 s = Some (r, s')"
    | "r1 = 0" "fst ?up \<noteq> 0" "open_destroy_thread p ?f2 t1 s = Some (r, s')"
    | "r1 = 0" "fst ?up = 0" "r = p" "s' = (put_file p ?f2 t1 s)\<lparr>cl_file_list := p # cl_file_list s\<rparr>"
    using h x by (auto simp: open_handshake_def Let_def split_beta split: if_splits)
  then show thesis
  proof cases
    case 1
    with e(1,2) show thesis by (intro failed [of f1 t1]) (auto simp: same_file_def)
  next
    case 2
    with e(1,2) show thesis by (intro failed [of ?f2 t1]) (auto simp: same_file_def)
  next
    case 3
    have "wire_opcode (conn_rsp (pf_conn f1)) = opcode_val RPMEM_OPEN_RSP \<and>
        snd ?up = wire_word (conn_rsp (pf_conn f1)) \<and>
        sends t1 = pack_open_req (host E) (conn_req (pf_conn f)) # sends t" if "wf_conn (pf_conn f)"
    proof -
      have "wf_cmd (conn_rsp (pf_conn f1))" using e(3) [OF that] by auto
      with 3(2) e(4) [OF 3(1)] show ?thesis
        by (auto simp: unpack_wire EINVAL_def sends_posted split: if_splits)
    qed
    moreover have "wf_conn (pf_conn f) \<longrightarrow> wf_conn (pf_conn ?f2)" using e(3) by simp
    ultimately show thesis using 3 e(1,2,5) e(4) [OF 3(1)] by (intro opened [of ?f2 t1]) (auto simp: same_file_def)
  qed
qed

text \<open>The calls of \<^verbatim>\<open>rpmem_open\<close> up to the wait, and the file at that point.\<close>

definition open_start :: "env \<Rightarrow> client_state \<Rightarrow> ptr \<times> ptr \<times> ptr \<times> trace" where
  "open_start E s =
     (let t0 = Calloc_struct Priv_rpmem_file # cl_trace s; p = env_ptr E t0;
          t1 = Rdma_create_event_channel # t0; ch = env_ptr E t1;
          t2 = Rdma_create_id ch # t1
      in (p, ch, env_ptr E t2, Pthread_create CM_THREAD p # t2))"

definition open_file :: "ptr \<Rightarrow> ptr \<Rightarrow> priv_rpmem_file" where
  "open_file ch cid = upd_pconn (\<lambda>c. c\<lparr>conn_cma_id := cid\<rparr>) (file_zero\<lparr>pf_cma_channel := ch\<rparr>)"

lemma open_file_simps [simp]:
  "pf_cma_channel (open_file ch cid) = ch" "conn_cma_id (pf_conn (open_file ch cid)) = cid"
  "wf_conn (pf_conn (open_file ch cid))" "pf_sem_connect (open_file ch cid) = 0"
  "pf_state (open_file ch cid) = RPMEM_INIT"
  by (simp_all add: open_file_def upd_pconn_def file_zero_def wf_conn_def conn_zero_def wf_cmd_def)

lemma open_go:
  assumes "open_start E s = (p, ch, cid, t3)" and "p \<noteq> NULL" and "ch \<noteq> NULL"
    and "env_int E (tl t3) = 0" and "env_int E t3 = 0" and "env_int E (Rdma_resolve_addr cid dst 2000 # t3) = 0"
  shows "rpmem_open E dst s =
    (case wait_connect E p (open_file ch cid) (Rdma_resolve_addr cid dst 2000 # t3) of None \<Rightarrow> None
     | Some (f, t) \<Rightarrow> if pf_state f \<noteq> RPMEM_ESTABLISHED then open_destroy_thread p f t s
         else open_handshake E p f t s)"
  using assms
  by (auto simp: open_start_def rpmem_open_def call_defs Let_def open_file_def upd_pconn_def
      split: option.split)

text \<open>Opening that stops before the wait has created less than it gives back with its label.\<close>

lemma open_stops:
  assumes h: "rpmem_open E dst s = Some (r, s')" and st: "open_start E s = (p, ch, cid, t3)"
    and no: "p = NULL \<or> ch = NULL \<or> env_int E (tl t3) \<noteq> 0 \<or> env_int E t3 \<noteq> 0 \<or>
      env_int E (Rdma_resolve_addr cid dst 2000 # t3) \<noteq> 0"
  shows "r = NULL" and "cl_file_list s' = cl_file_list s"
    and "cl_files s' = cl_files s \<or> cl_files s' = (cl_files s)(p := None)"
    and "open_live E (cl_trace s') = open_live E (cl_trace s)"
proof -
  let ?t0 = "Calloc_struct Priv_rpmem_file # cl_trace s"
  let ?t1 = "Rdma_create_event_channel # ?t0"
  let ?t2 = "Rdma_create_id ch # ?t1"
  from st have e: "env_ptr E ?t0 = p" "env_ptr E ?t1 = ch" "env_ptr E ?t2 = cid" "t3 = Pthread_create CM_THREAD p # ?t2"
    by (auto simp: open_start_def Let_def)
  note o = rpmem_open_def call_defs Let_def e open_label_defs upd_pconn_def
  show "r = NULL" "cl_file_list s' = cl_file_list s" "cl_files s' = cl_files s \<or> cl_files s' = (cl_files s)(p := None)"
    "open_live E (cl_trace s') = open_live E (cl_trace s)"
    using h no by (auto simp: o split: if_splits)
qed

text \<open>What the wait for the connection finds created, and what the connection manager thread left alone.\<close>

lemma open_waited:
  assumes st: "open_start E s = (p, ch, cid, t3)"
    and ok: "\<not> (p = NULL \<or> ch = NULL \<or> env_int E (tl t3) \<noteq> 0 \<or> env_int E t3 \<noteq> 0)"
    and w: "wait_connect E p (open_file ch cid) (Rdma_resolve_addr cid dst 2000 # t3) = Some (f1, t1)"
  shows "open_live E t1 = open_live E (cl_trace s) + {#H_mem p, H_event_channel ch, H_cm_id cid, H_thread CM_THREAD p#}"
    and "pf_cma_channel f1 = ch" and "conn_cma_id (pf_conn f1) = cid" and "wf_conn (pf_conn f1)"
    and "posted t1 = posted (cl_trace s)"
  using wait_connect_ok [OF w] st ok by (auto simp: thread_ok_def open_start_def Let_def)

text \<open>
  Opening either fails with a null pointer, with the memory, the event channel, the identifier and
  the connection manager thread given back, or it gets to the wait and goes on from there.
\<close>

lemma open_result:
  assumes h: "rpmem_open E dst s = Some (r, s')" and st: "open_start E s = (p, ch, cid, t3)"
  obtains (failed) "r = NULL" "cl_file_list s' = cl_file_list s"
      "cl_files s' = cl_files s \<or> cl_files s' = (cl_files s)(p := None)"
      "open_live E (cl_trace s') = open_live E (cl_trace s)"
  | (opened) f1 t1 f' t' where "p \<noteq> NULL" "r = p"
      "wait_connect E p (open_file ch cid) (Rdma_resolve_addr cid dst 2000 # t3) = Some (f1, t1)"
      "s' = (put_file p f' t' s)\<lparr>cl_file_list := p # cl_file_list s\<rparr>"
      "pf_state f' = RPMEM_ESTABLISHED" "live E t' = live E t1" "conn_rsp_mr (pf_conn f') \<noteq> None"
      "wire_opcode (conn_rsp (pf_conn f')) = opcode_val RPMEM_OPEN_RSP"
      "rf_size (pf_rfile f') = wire_word (conn_rsp (pf_conn f'))"
      "sends t' = pack_open_req (host E) (conn_req (pf_conn f1)) # sends (cl_trace s)"
      "wf_conn (pf_conn f1)" "wf_conn (pf_conn f')"
      "\<exists>wr. posted t' = (wr, pack_open_req (host E) (conn_req (pf_conn f1))) # posted (cl_trace s) \<and>
         swr_opcode wr = IBV_WR_SEND"
proof (cases "p = NULL \<or> ch = NULL \<or> env_int E (tl t3) \<noteq> 0 \<or> env_int E t3 \<noteq> 0 \<or>
    env_int E (Rdma_resolve_addr cid dst 2000 # t3) \<noteq> 0")
  case True
  then show thesis using open_stops [OF h st True] by (intro failed)
next
  case False
  let ?f = "open_file ch cid" and ?t = "Rdma_resolve_addr cid dst 2000 # t3"
  have go: "rpmem_open E dst s = (case wait_connect E p ?f ?t of None \<Rightarrow> None
      | Some (f, t) \<Rightarrow> if pf_state f \<noteq> RPMEM_ESTABLISHED then open_destroy_thread p f t s else open_handshake E p f t s)"
    using open_go [OF st, of dst] False by simp
  obtain f1 t1 where w: "wait_connect E p ?f ?t = Some (f1, t1)"
    using h go by (cases "wait_connect E p ?f ?t") auto
  have "\<not> (p = NULL \<or> ch = NULL \<or> env_int E (tl t3) \<noteq> 0 \<or> env_int E t3 \<noteq> 0)" using False by simp
  note o = open_waited [OF st this w]
  have fail: thesis if d: "open_destroy_thread p f t s = Some (r, s')" "open_live E t = open_live E t1"
    "pf_cma_channel f = ch" "conn_cma_id (pf_conn f) = cid" for f t
  proof -
    obtain t' where "open_destroy_thread p f t s = Some (NULL, drop_file p t' s)"
      "open_live E (Free p # t') = open_live E (cl_trace s)"
      by (rule open_destroy_thread_eq [of p E t "open_live E (cl_trace s)" f s]) (use d False o(1) in auto)
    with d(1) show thesis by (intro failed) auto
  qed
  show thesis
  proof (cases "pf_state f1 = RPMEM_ESTABLISHED")
    case False
    then show thesis using h go w o(2,3) fail by auto
  next
    case est: True
    then have "open_handshake E p f1 t1 s = Some (r, s')" using h go w by simp
    then show thesis
    proof (cases rule: open_handshake_result)
      case (failed f' t')
      then show thesis using o(2,3) by (intro fail [of f' t']) (auto simp: open_live_def)
    next
      case (opened f' t')
      then show thesis
        using False w est o(4,5) by (intro that(2) [of f1 t1 f' t']) (auto simp: sends_posted)
    qed
  qed
qed

section \<open>A concrete client\<close>

text \<open>
  A platform on which every wait for the server ends: the completion thread makes one round, in
  which the poll finds one receive completion with the message \<open>m\<close>.
\<close>

definition is_poll :: "call \<Rightarrow> bool" where
  "is_poll c = (case c of Ibv_poll_cq _ _ \<Rightarrow> True | _ \<Rightarrow> False)"

definition is_cm :: "call \<Rightarrow> bool" where
  "is_cm c = (case c of Rdma_get_cm_event _ \<Rightarrow> True | _ \<Rightarrow> False)"

text \<open>The connection manager reports the events \<open>evs\<close>, one after the other.\<close>

definition open_env :: "rdma_cm_event_type list \<Rightarrow> bytes \<Rightarrow> env" where
  "open_env evs m = ok_env\<lparr>
     env_int := (\<lambda>t. case t of c # c' # _ \<Rightarrow> if is_poll c \<and> \<not> is_poll c' then 1 else 0 | _ \<Rightarrow> 0),
     env_inbox := (\<lambda>_. Some m),
     env_rounds := (\<lambda>t. case t of Sem_wait_connect _ # _ \<Rightarrow> length evs | _ \<Rightarrow> 1),
     env_event := (\<lambda>t. \<lparr>ev_id = 65536, ev_event = evs ! (length (filter is_cm t) - 1)\<rparr>)\<rparr>"

abbreviation cl_env :: "bytes \<Rightarrow> env" where
  "cl_env m \<equiv> open_env [] m"

lemma is_poll_simps [simp]:
  "\<not> is_poll (Rdma_ack_cm_event ev)" "\<not> is_poll (Sem_wait_connect p)" "\<not> is_poll (Rdma_get_cm_event p)"
  "\<not> is_poll (Rdma_resolve_addr p adr k)" "\<not> is_poll (Pthread_create th p)" "\<not> is_poll (Rdma_create_id p)"
  "\<not> is_poll (Rdma_resolve_route p k)" "\<not> is_poll (Rdma_create_qp p q r cap)" "\<not> is_poll (Rdma_connect p cp)"
  "is_poll (Ibv_poll_cq p k)" "\<not> is_poll (Ibv_req_notify_cq p)" "\<not> is_poll (Ibv_get_cq_event p)"
  "\<not> is_poll (Ibv_ack_cq_events p)" "\<not> is_poll (send_call c cmd mr)" "\<not> is_poll (recv_call c cmd mr)"
  "\<not> is_poll (rdma_call c rk lk ra la n opc)"
  by (simp_all add: is_poll_def send_call_def recv_call_def rdma_call_def)

lemma is_cm_simps [simp]:
  "is_cm (Rdma_get_cm_event p)" "\<not> is_cm (Rdma_ack_cm_event ev)" "\<not> is_cm (Sem_wait_connect p)"
  "\<not> is_cm (Rdma_resolve_addr p adr k)" "\<not> is_cm (Pthread_create th p)" "\<not> is_cm (Rdma_create_id p)"
  "\<not> is_cm Rdma_create_event_channel" "\<not> is_cm (Calloc_struct sk)" "\<not> is_cm (Rdma_resolve_route p k)"
  "\<not> is_cm (Ibv_alloc_pd p)" "\<not> is_cm (Ibv_reg_mr p v n fs)" "\<not> is_cm (Ibv_create_comp_channel p)"
  "\<not> is_cm (Ibv_create_cq p k q)" "\<not> is_cm (Ibv_req_notify_cq p)" "\<not> is_cm (Rdma_create_qp p q r cap)"
  "\<not> is_cm (Rdma_connect p cp)"
  by (simp_all add: is_cm_def)

lemma open_env_int [simp]: "\<not> is_poll c \<Longrightarrow> env_int (open_env evs m) (c # t) = 0"
  by (simp add: open_env_def split: list.split)

lemma open_env_sel [simp]:
  "env_int (open_env evs m) (Ibv_poll_cq p k # c # t) = (if is_poll c then 0 else 1)"
  "env_ptr (open_env evs m) t = 65536" "env_mr (open_env evs m) t = Some ok_mr"
  "env_rounds (open_env evs m) (Sem_wait_command p # t) = 1"
  "env_rounds (open_env evs m) (Sem_wait_connect p # t) = length evs"
  "env_wc (open_env evs m) t i = \<lparr>wc_status = IBV_WC_SUCCESS, wc_opcode = IBV_WC_RECV\<rparr>"
  "env_event (open_env evs m) t = \<lparr>ev_id = 65536, ev_event = evs ! (length (filter is_cm t) - 1)\<rparr>"
  "env_inbox (open_env evs m) t = Some m" "host (open_env evs m) = LE" "env_junk32 (open_env evs m) t = 0"
  by (simp_all add: open_env_def ok_env_def)

definition wait_calls :: "ptr \<Rightarrow> rpmem_conn \<Rightarrow> trace" where
  "wait_calls p c = [Ibv_ack_cq_events (conn_cq c), Ibv_poll_cq (conn_cq c) 16, Ibv_poll_cq (conn_cq c) 16,
     Ibv_req_notify_cq (conn_cq c), Ibv_get_cq_event (conn_comp_channel c), Sem_wait_command p]"

lemma cl_wait:
  assumes "pf_cq_running f" and "conn_cq (pf_conn f) = 65536"
  shows "wait_command (open_env evs m) p f t =
    Some (f\<lparr>pf_conn := (pf_conn f)\<lparr>conn_rsp := recv_into m (conn_rsp (pf_conn f))\<rparr>\<rparr>,
      wait_calls p (pf_conn f) @ t)"
  using assms
  by (simp add: wait_command_def run_cq_thread_def client_cq_thread_round_def client_cq_event_handler_def
      client_cq_event_loop_eq wcs_done_def client_handle_wc_def client_deliver_def upd_file_defs
      call_defs wait_calls_def Let_def)

definition demo_file :: priv_rpmem_file where
  "demo_file = file_zero\<lparr>pf_conn := conn_zero\<lparr>conn_cma_id := 65536, conn_pd := 65536, conn_cq := 65536,
       conn_qp := 65536, conn_comp_channel := 65536, conn_cqthread := True,
       conn_req_mr := Some ok_mr, conn_rsp_mr := Some ok_mr\<rparr>,
     pf_cma_channel := 65536, pf_state := RPMEM_ESTABLISHED, pf_cq_running := True\<rparr>"

definition demo_client :: client_state where
  "demo_client = \<lparr>cl_files = (\<lambda>_. None)(4096 \<mapsto> demo_file), cl_file_list = [4096], cl_trace = []\<rparr>"

lemma demo_file_simps [simp]:
  "pf_cq_running demo_file" "conn_cq (pf_conn demo_file) = 65536"
  "conn_req_mr (pf_conn demo_file) = Some ok_mr" "conn_rsp_mr (pf_conn demo_file) = Some ok_mr"
  "wf_conn (pf_conn demo_file)" "cl_files demo_client 4096 = Some demo_file" "cl_trace demo_client = []"
  by (simp_all add: demo_file_def demo_client_def wf_conn_def conn_zero_def wf_cmd_def)

lemma cl_exchange:
  assumes "pf_cq_running f" and "conn_cq (pf_conn f) = 65536" and "wf_cmd m"
    and "conn_req_mr (pf_conn f) = Some mq" and "conn_rsp_mr (pf_conn f) = Some ms"
  shows "exchange (open_env evs m) p g f t =
    Some (0, f\<lparr>pf_conn := (pf_conn f)\<lparr>conn_req := g (conn_req (pf_conn f)), conn_rsp := m\<rparr>\<rparr>,
      wait_calls p (pf_conn f) @
        send_call ((pf_conn f)\<lparr>conn_rsp := zero_cmd, conn_req := g (conn_req (pf_conn f))\<rparr>) Conn_req mq #
        recv_call (pf_conn f) Conn_rsp ms # t)"
  using assms
  by (simp add: exchange_def post_rsp_recv_def send_req_def post_simps cl_wait wait_calls_def Let_def)

section \<open>Properties\<close>

text \<open>
  C24: mapping a region on the client is all or nothing. When \<open>rpmem_map\<close> returns null, everything
  it obtained is given back and the length of the region is 0; when it returns the region, the file
  holds exactly one more buffer and one more registration, and the last two work requests it posted
  are the map request with the length (cut to 32 bits) and, after the response, an RDMA read of that
  region with the key and the address of the response. No other file changes.
\<close>
theorem client_map_all_or_nothing:
  assumes "cl_files s p = Some f" and "p \<noteq> NULL" and "rpmem_map E p len s = Some (r, s')"
  shows "\<exists>f'. cl_files s' = (cl_files s)(p \<mapsto> f') \<and>
    (if r = NULL then live E (cl_trace s') = live E (cl_trace s) \<and> rmr_len (pmr_rmr (pf_priv_mr f')) = 0
     else r = p \<and> rmr_len (pmr_rmr (pf_priv_mr f')) = len \<and>
       (\<exists>mr wr. pmr_mr (pf_priv_mr f') = Some mr \<and> swr_opcode wr = IBV_WR_SEND \<and>
          live E (cl_trace s') = live E (cl_trace s) + {#H_mem (rmr_addr (pmr_rmr (pf_priv_mr f'))), H_mr mr#} \<and>
          posted (cl_trace s') = (region_wr IBV_WR_RDMA_READ (pf_priv_mr f') mr, []) #
            (wr, pack_map_req (host E) (conn_req (pf_conn f)) (ucast len)) # posted (cl_trace s)))"
  using client_map_result [OF assms] unfolding map_outcome_def by (auto split: if_splits)

lemma demo_map_answer:
  "wf_cmd m \<Longrightarrow> wire_opcode m = opcode_val RPMEM_MAP_RSP \<Longrightarrow>
     \<exists>s'. rpmem_map (cl_env m) 4096 512 demo_client = Some (4096, s')"
  by (simp add: rpmem_map_def map_read_def map_label_defs call_defs post_simps unpack_wire Let_def
      cl_wait cl_exchange)

lemma demo_map:
  "\<exists>s'. rpmem_map (cl_env (pack_map_rsp BE zero_cmd 7 9)) 4096 512 demo_client = Some (4096, s')"
  "\<exists>s'. rpmem_map (cl_env (pack_open_rsp BE 7 zero_cmd)) 4096 512 demo_client = Some (NULL, s')"
  by (simp_all add: rpmem_map_def map_read_def map_label_defs call_defs post_simps unpack_wire Let_def
      cl_wait cl_exchange EINVAL_def)

theorem client_map_all_or_nothing_witness:
  "(\<exists>s'. rpmem_map (cl_env (pack_map_rsp BE zero_cmd 7 9)) 4096 512 demo_client = Some (4096, s') \<and>
      length (posted (cl_trace s')) = 2) \<and>
   (\<exists>s'. rpmem_map (cl_env (pack_open_rsp BE 7 zero_cmd)) 4096 512 demo_client = Some (NULL, s') \<and>
      live (cl_env (pack_open_rsp BE 7 zero_cmd)) (cl_trace s') = {#})"
proof -
  obtain s1 where s1: "rpmem_map (cl_env (pack_map_rsp BE zero_cmd 7 9)) 4096 512 demo_client = Some (4096, s1)"
    using demo_map(1) by blast
  obtain s2 where s2: "rpmem_map (cl_env (pack_open_rsp BE 7 zero_cmd)) 4096 512 demo_client = Some (NULL, s2)"
    using demo_map(2) by blast
  from client_map_all_or_nothing [OF _ _ s1] client_map_all_or_nothing [OF _ _ s2] s1 s2
  show ?thesis by auto
qed

text \<open>
  Unmapping on the client releases the buffer. Whatever the server answers, and even when the
  request cannot be sent, \<open>rpmem_unmap\<close> deregisters the region, frees the buffer and clears the key,
  the remote address and the length; it returns 0 only when the request was sent and the response
  is an unmap response that carries 0.
\<close>
theorem client_unmap_releases:
  assumes "cl_files s p = Some f" and "rpmem_unmap E p s = Some (ret, s')" and "wf_conn (pf_conn f)"
  shows "\<exists>f' mr. cl_files s' = (cl_files s)(p \<mapsto> f') \<and> pmr_mr (pf_priv_mr f) = Some mr \<and>
    pmr_rkey (pf_priv_mr f') = 0 \<and> pmr_remote_addr (pf_priv_mr f') = 0 \<and> rmr_len (pmr_rmr (pf_priv_mr f')) = 0 \<and>
    live E (cl_trace s') = live E (cl_trace s) - {#H_mr mr#} - some_ptr H_mem (rmr_addr (pmr_rmr (pf_priv_mr f))) \<and>
    (ret = 0 \<longrightarrow> wire_opcode (conn_rsp (pf_conn f')) = opcode_val RPMEM_UNMAP_RSP \<and>
       wire_word (conn_rsp (pf_conn f')) = 0 \<and>
       sends (cl_trace s') = pack_unmap_req (host E) (conn_req (pf_conn f))
         (ucast (rmr_len (pmr_rmr (pf_priv_mr f)))) (pmr_remote_addr (pf_priv_mr f)) # sends (cl_trace s))"
  by (rule unmap_result [OF assms(1,2)]) (use assms(3) in \<open>auto simp: unmapped_def\<close>)

lemma demo_unmap:
  assumes "wf_cmd m" and "pmr_mr (pf_priv_mr f) = Some mr" and "pf_cq_running f" and "conn_cq (pf_conn f) = 65536"
    and "conn_req_mr (pf_conn f) = Some mq" and "conn_rsp_mr (pf_conn f) = Some ms" and "cl_files s p = Some f"
  shows "\<exists>ret s'. rpmem_unmap (cl_env m) p s = Some (ret, s')"
  using assms
  by (simp add: rpmem_unmap_def unmap_destroy_mr_def dereg_def split_beta Let_def cl_exchange upd_pmr_def)

lemma demo_unmap_answer:
  assumes "wf_cmd m" and "wire_opcode m = opcode_val RPMEM_UNMAP_RSP" and "pmr_mr (pf_priv_mr f) = Some mr"
    and "pf_cq_running f" and "conn_cq (pf_conn f) = 65536"
    and "conn_req_mr (pf_conn f) = Some mq" and "conn_rsp_mr (pf_conn f) = Some ms" and "cl_files s p = Some f"
  shows "\<exists>s'. rpmem_unmap (cl_env m) p s = Some (wire_word m, s')"
  using assms
  by (simp add: rpmem_unmap_def unmap_destroy_mr_def dereg_def split_beta Let_def cl_exchange upd_pmr_def
      unpack_wire)

definition mapped_file :: priv_rpmem_file where
  "mapped_file = demo_file\<lparr>pf_priv_mr := \<lparr>pmr_rmr = \<lparr>rmr_addr = 131072, rmr_len = 512\<rparr>, pmr_mr = Some ok_mr,
     pmr_rkey = 7, pmr_remote_addr = 9\<rparr>\<rparr>"

definition mapped_client :: client_state where
  "mapped_client = demo_client\<lparr>cl_files := (\<lambda>_. None)(4096 \<mapsto> mapped_file)\<rparr>"

lemma mapped_simps [simp]:
  "cl_files mapped_client 4096 = Some mapped_file" "cl_trace mapped_client = []"
  "wf_conn (pf_conn mapped_file)" "pf_cq_running mapped_file" "conn_cq (pf_conn mapped_file) = 65536"
  "conn_req_mr (pf_conn mapped_file) = Some ok_mr" "conn_rsp_mr (pf_conn mapped_file) = Some ok_mr"
  "pmr_mr (pf_priv_mr mapped_file) = Some ok_mr" "rmr_addr (pmr_rmr (pf_priv_mr mapped_file)) = 131072"
  "pmr_rkey (pf_priv_mr mapped_file) = 7" "pmr_remote_addr (pf_priv_mr mapped_file) = 9"
  by (simp_all add: mapped_client_def mapped_file_def)

theorem client_unmap_releases_witness:
  "\<exists>ret s' f'. rpmem_unmap (cl_env (pack_unmap_rsp BE zero_cmd 0)) 4096 mapped_client = Some (ret, s') \<and>
     cl_files s' 4096 = Some f' \<and> pmr_rkey (pf_priv_mr f') = 0"
proof -
  let ?m = "pack_unmap_rsp BE zero_cmd 0"
  obtain ret s' where h: "rpmem_unmap (cl_env ?m) 4096 mapped_client = Some (ret, s')"
    using demo_unmap [of ?m mapped_file ok_mr ok_mr ok_mr mapped_client 4096] by auto
  from client_unmap_releases [OF _ h] h show ?thesis by auto
qed

text \<open>
  Mapping and unmapping on the client is balanced. After a successful map and any unmap of the
  same file, whatever it returns, the client holds the resources it held before the map.
\<close>
theorem client_map_unmap_balanced:
  assumes "cl_files s p = Some f" and "p \<noteq> NULL" and "rpmem_map E p len s = Some (p, s1)"
    and "rpmem_unmap E p s1 = Some (ret, s2)"
  shows "live E (cl_trace s2) = live E (cl_trace s)"
proof -
  from client_map_result [OF assms(1-3)] assms(2) obtain f1 mr where
    f1: "cl_files s1 p = Some f1" "pmr_mr (pf_priv_mr f1) = Some mr" "rmr_addr (pmr_rmr (pf_priv_mr f1)) \<noteq> NULL"
    "live E (cl_trace s1) = live E (cl_trace s) + {#H_mem (rmr_addr (pmr_rmr (pf_priv_mr f1))), H_mr mr#}"
    unfolding map_outcome_def by auto
  show ?thesis
    by (rule unmap_result [OF f1(1) assms(4)]) (use f1 in auto)
qed

lemma mapped_again:
  assumes "wf_cmd m" "rpmem_map (cl_env m) 4096 512 demo_client = Some (4096, s1)"
  shows "\<exists>ret s2. rpmem_unmap (cl_env m) 4096 s1 = Some (ret, s2)"
  using assms
  by (auto simp: rpmem_map_def map_read_def map_label_defs call_defs post_simps unpack_wire Let_def
      cl_wait cl_exchange EINVAL_def split: if_splits intro!: demo_unmap [OF assms(1)])

theorem client_map_unmap_balanced_witness:
  "\<exists>s1 ret s2. rpmem_map (cl_env (pack_map_rsp BE zero_cmd 7 9)) 4096 512 demo_client = Some (4096, s1) \<and>
     rpmem_unmap (cl_env (pack_map_rsp BE zero_cmd 7 9)) 4096 s1 = Some (ret, s2) \<and>
     live (cl_env (pack_map_rsp BE zero_cmd 7 9)) (cl_trace s2) = {#}"
proof -
  let ?E = "cl_env (pack_map_rsp BE zero_cmd 7 9)"
  obtain s1 where s1: "rpmem_map ?E 4096 512 demo_client = Some (4096, s1)" using demo_map(1) by blast
  obtain ret s2 where s2: "rpmem_unmap ?E 4096 s1 = Some (ret, s2)" using mapped_again [OF _ s1] by auto
  from client_map_unmap_balanced [OF _ _ s1 s2] s1 s2 show ?thesis by auto
qed

text \<open>
  Unmapping twice frees the buffer twice. \<open>rpmem_unmap\<close> leaves the address of the buffer and
  the registration in the file, so a second call on the same file passes the same pointers to
  \<open>ibv_dereg_mr\<close> and \<open>free\<close> again.
\<close>
theorem double_unmap_double_free:
  assumes "cl_files s p = Some f" and "rpmem_unmap E p s = Some (ret1, s1)"
    and "rpmem_unmap E p s1 = Some (ret2, s2)"
  shows "\<exists>mr t1 t2. pmr_mr (pf_priv_mr f) = Some mr \<and>
    cl_trace s1 = Free (rmr_addr (pmr_rmr (pf_priv_mr f))) # Ibv_dereg_mr mr # t1 \<and>
    cl_trace s2 = Free (rmr_addr (pmr_rmr (pf_priv_mr f))) # Ibv_dereg_mr mr # t2"
proof -
  obtain f1 mr t1 where o: "pmr_mr (pf_priv_mr f) = Some mr" "unmapped f f1"
    "s1 = put_file p f1 (Free (rmr_addr (pmr_rmr (pf_priv_mr f))) # Ibv_dereg_mr mr # t1) s"
    by (rule unmap_result [OF assms(1,2)])
  then have f1: "cl_files s1 p = Some f1" by simp
  obtain f2 mr2 t2 where "pmr_mr (pf_priv_mr f1) = Some mr2" "unmapped f1 f2"
    "s2 = put_file p f2 (Free (rmr_addr (pmr_rmr (pf_priv_mr f1))) # Ibv_dereg_mr mr2 # t2) s1"
    by (rule unmap_result [OF f1 assms(3)])
  with o show ?thesis by (auto simp: unmapped_def)
qed

theorem double_unmap_double_free_witness:
  "\<exists>r1 s1 r2 s2. rpmem_unmap (cl_env (pack_unmap_rsp BE zero_cmd 0)) 4096 mapped_client = Some (r1, s1) \<and>
     rpmem_unmap (cl_env (pack_unmap_rsp BE zero_cmd 0)) 4096 s1 = Some (r2, s2) \<and>
     hd (cl_trace s1) = Free 131072 \<and> hd (cl_trace s2) = Free 131072"
proof -
  let ?m = "pack_unmap_rsp BE zero_cmd 0"
  let ?E = "cl_env ?m"
  obtain r1 s1 where h1: "rpmem_unmap ?E 4096 mapped_client = Some (r1, s1)"
    using demo_unmap [of ?m mapped_file ok_mr ok_mr ok_mr mapped_client 4096] by auto
  have "\<exists>r2 s2. rpmem_unmap ?E 4096 s1 = Some (r2, s2)"
    using h1
    by (auto simp: rpmem_unmap_def unmap_destroy_mr_def dereg_def split_beta Let_def cl_exchange upd_pmr_def
        upd_rmr_def split: if_splits)
  then obtain r2 s2 where h2: "rpmem_unmap ?E 4096 s1 = Some (r2, s2)" by blast
  from double_unmap_double_free [OF _ h1 h2] h1 h2 show ?thesis by auto
qed

text \<open>
  C25: a commit that reports success was written first. When \<open>rpmem_commit\<close> returns 0, it posted
  exactly two work requests, in this order: an RDMA write of the whole local buffer to the mapped
  remote region, and the commit request for the same address and length; and the response the
  server sent is a commit response that carries 0. The region and the resources held are unchanged.
\<close>
theorem commit_writes_then_requests:
  assumes "cl_files s p = Some f" and "rpmem_commit E p s = Some (0, s')" and "wf_conn (pf_conn f)"
  shows "\<exists>f' mr wr. cl_files s' = (cl_files s)(p \<mapsto> f') \<and> pf_priv_mr f' = pf_priv_mr f \<and>
    live E (cl_trace s') = live E (cl_trace s) \<and>
    pmr_mr (pf_priv_mr f) = Some mr \<and> swr_opcode wr = IBV_WR_SEND \<and>
    posted (cl_trace s') =
      (wr, pack_commit_req (host E) (conn_req (pf_conn f)) (ucast (rmr_len (pmr_rmr (pf_priv_mr f))))
         (pmr_remote_addr (pf_priv_mr f))) #
      (region_wr IBV_WR_RDMA_WRITE (pf_priv_mr f) mr, []) # posted (cl_trace s) \<and>
    wire_opcode (conn_rsp (pf_conn f')) = opcode_val RPMEM_COMMIT_RSP \<and> wire_word (conn_rsp (pf_conn f')) = 0"
  by (rule commit_result [OF assms(1,2)])
    (use assms(3) in \<open>auto simp: commit_msg_def same_file_def\<close>)

lemma mapped_commit:
  "wf_cmd m \<Longrightarrow> wire_opcode m = opcode_val RPMEM_COMMIT_RSP \<Longrightarrow> wire_word m = 0 \<Longrightarrow>
     \<exists>s'. rpmem_commit (cl_env m) 4096 mapped_client = Some (0, s')"
  by (simp add: rpmem_commit_def commit_request_def post_rsp_recv_def send_req_def post_simps cl_wait
      unpack_wire Let_def)

theorem commit_writes_then_requests_witness:
  "\<exists>s'. rpmem_commit (cl_env (pack_commit_rsp BE zero_cmd 0)) 4096 mapped_client = Some (0, s') \<and>
     map (\<lambda>(wr, _). swr_opcode wr) (posted (cl_trace s')) = [IBV_WR_SEND, IBV_WR_RDMA_WRITE]"
proof -
  let ?E = "cl_env (pack_commit_rsp BE zero_cmd 0)"
  have "\<exists>s'. rpmem_commit ?E 4096 mapped_client = Some (0, s')"
    by (rule mapped_commit) simp_all
  then obtain s' where h: "rpmem_commit ?E 4096 mapped_client = Some (0, s')" by blast
  from commit_writes_then_requests [OF _ h] h show ?thesis by (auto simp: region_wr_def)
qed

text \<open>
  C26: an opened file is connected and knows its size. When \<open>rpmem_open\<close> returns a file, the
  connection was reported established, one open request was sent, the response was an open
  response whose size the file now carries, and the file is at the head of the file list.
\<close>
theorem open_only_established:
  assumes "rpmem_open E dst s = Some (r, s')" and "r \<noteq> NULL"
  shows "\<exists>f m. cl_files s' = (cl_files s)(r \<mapsto> f) \<and> cl_file_list s' = r # cl_file_list s \<and>
    pf_state f = RPMEM_ESTABLISHED \<and> sends (cl_trace s') = pack_open_req (host E) m # sends (cl_trace s) \<and>
    wire_opcode (conn_rsp (pf_conn f)) = opcode_val RPMEM_OPEN_RSP \<and>
    rf_size (pf_rfile f) = wire_word (conn_rsp (pf_conn f))"
proof -
  obtain p ch cid t3 where st: "open_start E s = (p, ch, cid, t3)" by (cases "open_start E s") auto
  show ?thesis
  proof (cases rule: open_result [OF assms(1) st])
    case 1
    with assms(2) show ?thesis by simp
  next
    case (2 f1 t1 f' t')
    then show ?thesis by auto
  qed
qed

definition client_start :: client_state where
  "client_start = \<lparr>cl_files = (\<lambda>_. None), cl_file_list = [], cl_trace = []\<rparr>"

abbreviation up_events :: "rdma_cm_event_type list" where
  "up_events \<equiv> [RDMA_CM_EVENT_ADDR_RESOLVED, RDMA_CM_EVENT_ROUTE_RESOLVED, RDMA_CM_EVENT_ESTABLISHED]"

abbreviation rejected_events :: "rdma_cm_event_type list" where
  "rejected_events \<equiv> [RDMA_CM_EVENT_ADDR_RESOLVED, RDMA_CM_EVENT_ROUTE_RESOLVED, RDMA_CM_EVENT_REJECTED]"

lemmas open_eval = rpmem_open_def call_defs Let_def wait_connect_def client_cm_thread_round_def rpmem_cma_handler_def
  rpmem_addr_handler_def rpmem_route_handler_def upd_file_defs file_zero_def numeral_3_eq_3 client_start_def

lemma demo_open:
  "\<exists>s'. rpmem_open (open_env up_events (pack_open_rsp BE 8192 zero_cmd)) [] client_start = Some (65536, s')"
  by (simp add: open_eval open_handshake_def cl_exchange unpack_wire)

theorem open_only_established_witness:
  "\<exists>s' f. rpmem_open (open_env up_events (pack_open_rsp BE 8192 zero_cmd)) [] client_start = Some (65536, s') \<and>
     cl_files s' 65536 = Some f \<and> pf_state f = RPMEM_ESTABLISHED"
proof -
  obtain s' where h: "rpmem_open (open_env up_events (pack_open_rsp BE 8192 zero_cmd)) [] client_start =
    Some (65536, s')" using demo_open by blast
  from open_only_established [OF h] h show ?thesis by auto
qed

text \<open>
  C32: a failed open gives back what it created itself. When \<open>rpmem_open\<close> returns null, no file is
  added, and the memory, event channels, identifiers and connection manager threads held are what
  they were before the call.
\<close>
theorem open_failure_gives_back:
  assumes "rpmem_open E dst s = Some (NULL, s')"
  shows "cl_file_list s' = cl_file_list s \<and>
    (\<forall>q. q \<noteq> env_ptr E (Calloc_struct Priv_rpmem_file # cl_trace s) \<longrightarrow> cl_files s' q = cl_files s q) \<and>
    filter_mset open_kind (live E (cl_trace s')) = filter_mset open_kind (live E (cl_trace s))"
proof -
  obtain p ch cid t3 where st: "open_start E s = (p, ch, cid, t3)" by (cases "open_start E s") auto
  then have p: "p = env_ptr E (Calloc_struct Priv_rpmem_file # cl_trace s)"
    by (simp add: open_start_def Let_def)
  show ?thesis
  proof (cases rule: open_result [OF assms(1) st])
    case 1
    then show ?thesis using p by (auto simp: open_live_def)
  next
    case (2 f1 t1 f' t')
    then show ?thesis by simp
  qed
qed

theorem open_failure_gives_back_witness:
  "\<exists>s'. rpmem_open (open_env rejected_events zero_cmd) [] client_start = Some (NULL, s') \<and>
     filter_mset open_kind (live (open_env rejected_events zero_cmd) (cl_trace s')) = {#} \<and>
     H_pd 65536 \<in># live (open_env rejected_events zero_cmd) (cl_trace s')"
proof -
  have "\<exists>s'. rpmem_open (open_env rejected_events zero_cmd) [] client_start = Some (NULL, s') \<and>
      H_pd 65536 \<in># live (open_env rejected_events zero_cmd) (cl_trace s')"
    by (simp add: open_eval open_label_defs drop_file_def)
  then obtain s' where h: "rpmem_open (open_env rejected_events zero_cmd) [] client_start = Some (NULL, s')"
    "H_pd 65536 \<in># live (open_env rejected_events zero_cmd) (cl_trace s')" by blast
  from open_failure_gives_back [OF h(1)] h show ?thesis by (auto simp: client_start_def)
qed

text \<open>
  Resolving the address obtains everything or nothing, and tells. \<open>rpmem_addr_handler\<close> always
  returns; when it fails it holds nothing it obtained and has posted the semaphore \<open>rpmem_open\<close>
  waits for, when it succeeds exactly the resources of the connection are held in addition.
\<close>
theorem addr_handler_all_or_nothing:
  "\<exists>ret f' t'. rpmem_addr_handler E p f t = Some (ret, f', t') \<and>
     live E t' = live E t + (if ret = 0 then conn_footprint p (pf_conn f') else {#}) \<and>
     pf_sem_connect f' = pf_sem_connect f + (if ret = 0 then 0 else 1)"
proof -
  obtain ret f' t' where h: "rpmem_addr_handler E p f t = Some (ret, f', t')"
    using addr_handler.returns by blast
  from addr_handler.balance [OF h] addr_handler_ok(2) [OF h] h show ?thesis
    by (auto simp: file_conn_footprint_def)
qed

text \<open>
  A failure after the route is resolved blocks the caller for ever. When, after some rounds in
  which nothing woke the caller, the route is resolved but the queue pair cannot be created or the
  connection cannot be started, the connection manager thread exits without posting the semaphore,
  and \<open>rpmem_open\<close> does not return, however long it waits.
\<close>
theorem route_failure_blocks_open:
  assumes "open_start E s = (p, ch, cid, t3)" and "p \<noteq> NULL" and "ch \<noteq> NULL"
    and "env_int E (tl t3) = 0" and "env_int E t3 = 0" and "env_int E (Rdma_resolve_addr cid dst 2000 # t3) = 0"
    and "client_cm_thread E p k (open_file ch cid) (Sem_wait_connect p # Rdma_resolve_addr cid dst 2000 # t3) =
      Some (True, f, t)"
    and "pf_sem_connect f = 0" and "env_int E (Rdma_get_cm_event ch # t) = 0"
    and "ev_event (env_event E (Rdma_get_cm_event ch # t)) = RDMA_CM_EVENT_ROUTE_RESOLVED"
    and "fst (rpmem_route_handler E f (Rdma_get_cm_event ch # t)) \<noteq> 0"
  shows "rpmem_open E dst s = None"
proof -
  let ?f = "open_file ch cid" and ?t = "Rdma_resolve_addr cid dst 2000 # t3"
  let ?w = "Sem_wait_connect p # ?t"
  obtain ret f1 t1 where rt: "rpmem_route_handler E f (Rdma_get_cm_event ch # t) = (ret, f1, t1)"
    by (cases "rpmem_route_handler E f (Rdma_get_cm_event ch # t)") auto
  have ch: "pf_cma_channel f = ch"
    using cm_thr.runs_ok [OF assms(7)] by (simp add: thread_ok_def)
  have out: "client_cm_thread E p (Suc n) f t = Some (False, f1, t1)" for n
    using assms(9-11) rt by (simp add: client_cm_thread_round_def call_defs rpmem_cma_handler_def ch Let_def)
  have f1: "pf_sem_connect f1 = 0" using route_handler_ok(2) [OF rt] assms(8) by simp
  have never: "client_cm_thread E p n ?f ?w = Some (b, f2, t2) \<Longrightarrow> pf_sem_connect f2 = 0" for n b f2 t2
  proof (cases "n \<le> k")
    case True
    assume h: "client_cm_thread E p n ?f ?w = Some (b, f2, t2)"
    from cm_sem.thread_prefix [OF assms(7) True] h have "pf_sem_connect f2 \<le> pf_sem_connect f"
      by (simp add: connect_mono_def)
    with assms(8) show ?thesis by simp
  next
    case False
    assume h: "client_cm_thread E p n ?f ?w = Some (b, f2, t2)"
    from False obtain m where n: "n = k + Suc m" using less_iff_Suc_add [of k n] by auto
    have "client_cm_thread E p n ?f ?w = Some (False, f1, t1)"
      unfolding n cm_thr.thread_add [OF assms(7)] by (rule out)
    with f1 h show ?thesis by simp
  qed
  have "wait_connect E p ?f ?t = None"
    using never [of "env_rounds E ?w"]
    by (cases "client_cm_thread E p (env_rounds E ?w) ?f ?w") (auto simp: wait_connect_def Let_def)
  with open_go [OF assms(1-6)] show ?thesis by simp
qed

text \<open>
  A failed work request blocks the caller for ever. When every completion carries an error, the
  completion thread never posts the command semaphore: a caller that waits for a response with the
  semaphore at 0 does not return.
\<close>
theorem error_completions_block_caller:
  assumes "\<And>t i. wc_status (env_wc E t i) \<noteq> IBV_WC_SUCCESS" and "pf_sem_command f = 0"
  shows "wait_command E p f t = None"
proof (rule ccontr)
  assume "wait_command E p f t \<noteq> None"
  then obtain b f1 t1 where r: "run_cq_thread E f (Sem_wait_command p # t) = Some (b, f1, t1)"
    and nz: "pf_sem_command f1 \<noteq> 0"
    by (cases "run_cq_thread E f (Sem_wait_command p # t)") (auto simp: wait_command_def Let_def split: if_splits)
  have "silent E f f1"
    using r err_wc.runs_ok [of E _ f] by (auto simp: run_cq_thread_def silent_def split: if_splits)
  with assms nz show False by (simp add: silent_def)
qed

theorem error_completions_block_caller_witness:
  "let E = (cl_env zero_cmd)\<lparr>env_wc := (\<lambda>_ _. \<lparr>wc_status = IBV_WC_WR_FLUSH_ERR, wc_opcode = IBV_WC_RECV\<rparr>)\<rparr>
   in rpmem_commit E 4096 mapped_client = None"
proof -
  let ?E = "(cl_env zero_cmd)\<lparr>env_wc := (\<lambda>_ _. \<lparr>wc_status = IBV_WC_WR_FLUSH_ERR, wc_opcode = IBV_WC_RECV\<rparr>)\<rparr>"
  have "wait_command ?E 4096 f t = None" if "pf_sem_command f = 0" for f t
    by (rule error_completions_block_caller) (simp_all add: that)
  moreover have "pf_sem_command mapped_file = 0" by (simp add: mapped_file_def demo_file_def file_zero_def)
  ultimately show ?thesis
    by (simp add: rpmem_commit_def commit_request_def post_rsp_recv_def send_req_def post_simps Let_def)
qed

text \<open>
  Closing a file forgets its two message registrations. \<open>rpmem_close\<close> returns 0 and removes the
  file from the heap and the list whatever the exchange with the server did; of everything the file
  held, exactly the registrations of its request and response buffers are left behind.
\<close>
theorem close_leaks_registrations:
  assumes "cl_files s p = Some f" and "rpmem_close E p s = Some (ret, s')" and "p \<noteq> NULL"
    and "conn_cqthread (pf_conn f)" and "file_footprint p f \<subseteq># live E (cl_trace s)"
  shows "ret = 0 \<and> cl_files s' = (cl_files s)(p := None) \<and> cl_file_list s' = remove1 p (cl_file_list s) \<and>
    live E (cl_trace s') + file_footprint p f =
      live E (cl_trace s) + some_mr (conn_req_mr (pf_conn f)) + some_mr (conn_rsp_mr (pf_conn f))"
proof -
  obtain f1 t1 where o: "same_file f f1" "live E t1 = live E (cl_trace s)"
    "close_out p f1 t1 (s\<lparr>cl_file_list := remove1 p (cl_file_list s)\<rparr>) = Some (ret, s')"
    by (rule close_result [OF assms(1,2)])
  have "ret = 0 \<and> cl_files s' = (cl_files s)(p := None) \<and> cl_file_list s' = remove1 p (cl_file_list s)"
    using o(3) by (auto simp: close_out_def Let_def)
  moreover have fp: "file_footprint p f1 = file_footprint p f" by (rule file_footprint_cong [OF o(1)])
  have c: "conn_cqthread (pf_conn f1)" "conn_req_mr (pf_conn f1) = conn_req_mr (pf_conn f)"
    "conn_rsp_mr (pf_conn f1) = conn_rsp_mr (pf_conn f)"
    using o(1) assms(4) by (simp_all add: same_file_def)
  have "file_footprint p f1 \<subseteq># live E t1" unfolding fp o(2) by (rule assms(5))
  then have "live E (cl_trace s') + file_footprint p f1 =
      live E t1 + some_mr (conn_req_mr (pf_conn f1)) + some_mr (conn_rsp_mr (pf_conn f1))"
    by (rule close_out_live [OF o(3) assms(3) c(1)])
  ultimately show ?thesis unfolding fp o(2) c by blast
qed

theorem close_leaks_registrations_witness:
  "\<exists>s s' f. rpmem_open (open_env up_events (pack_open_rsp BE 8192 zero_cmd)) [] client_start = Some (65536, s) \<and>
     rpmem_close (open_env up_events (pack_open_rsp BE 8192 zero_cmd)) 65536 s = Some (0, s') \<and>
     cl_files s' 65536 = None \<and>
     live (open_env up_events (pack_open_rsp BE 8192 zero_cmd)) (cl_trace s') = {#H_mr ok_mr, H_mr ok_mr#}"
proof -
  let ?E = "open_env up_events (pack_open_rsp BE 8192 zero_cmd)"
  have "\<exists>s. rpmem_open ?E [] client_start = Some (65536, s) \<and> (\<exists>f s'. cl_files s 65536 = Some f \<and>
      conn_cqthread (pf_conn f) \<and> live ?E (cl_trace s) = file_footprint 65536 f \<and>
      conn_req_mr (pf_conn f) = Some ok_mr \<and> conn_rsp_mr (pf_conn f) = Some ok_mr \<and>
      rpmem_close ?E 65536 s = Some (0, s'))"
    by (simp add: open_eval open_handshake_def cl_exchange unpack_wire rpmem_close_def close_out_def
        file_footprint_def conn_footprint_def wait_calls_def)
  then obtain s f s' where o: "rpmem_open ?E [] client_start = Some (65536, s)" "cl_files s 65536 = Some f"
    "conn_cqthread (pf_conn f)" "live ?E (cl_trace s) = file_footprint 65536 f"
    "conn_req_mr (pf_conn f) = Some ok_mr" "conn_rsp_mr (pf_conn f) = Some ok_mr"
    "rpmem_close ?E 65536 s = Some (0, s')" by blast
  have "live ?E (cl_trace s') + file_footprint 65536 f = file_footprint 65536 f + {#H_mr ok_mr#} + {#H_mr ok_mr#}"
    using close_leaks_registrations [OF o(2,7) _ o(3)] o(4-6) by simp
  then have "live ?E (cl_trace s') = {#H_mr ok_mr, H_mr ok_mr#}" by (simp add: add.assoc [symmetric] add.commute)
  with close_leaks_registrations [OF o(2,7) _ o(3)] o show ?thesis by auto
qed

theorem route_failure_blocks_open_witness:
  "let E = (open_env up_events zero_cmd)\<lparr>env_int := (\<lambda>t. case t of Rdma_create_qp _ _ _ _ # _ \<Rightarrow> -1 | _ \<Rightarrow> 0)\<rparr>
   in rpmem_open E [] client_start = None"
proof -
  let ?E = "(open_env up_events zero_cmd)\<lparr>env_int := (\<lambda>t. case t of Rdma_create_qp _ _ _ _ # _ \<Rightarrow> -1 | _ \<Rightarrow> 0)\<rparr>"
  obtain t3 where st: "open_start ?E client_start = (65536, 65536, 65536, t3)"
    and t3: "t3 = [Pthread_create CM_THREAD 65536, Rdma_create_id 65536, Rdma_create_event_channel,
      Calloc_struct Priv_rpmem_file]"
    by (simp add: open_start_def Let_def client_start_def)
  let ?w = "Sem_wait_connect 65536 # Rdma_resolve_addr 65536 [] 2000 # t3"
  have "\<exists>f t. client_cm_thread ?E 65536 (Suc 0) (open_file 65536 65536) ?w = Some (True, f, t) \<and>
      pf_sem_connect f = 0 \<and> ev_event (env_event ?E (Rdma_get_cm_event 65536 # t)) = RDMA_CM_EVENT_ROUTE_RESOLVED"
    by (simp add: client_cm_thread_round_def rpmem_cma_handler_def rpmem_addr_handler_def call_defs upd_file_defs
        Let_def open_file_def file_zero_def t3)
  then obtain f t where c: "client_cm_thread ?E 65536 (Suc 0) (open_file 65536 65536) ?w = Some (True, f, t)"
    "pf_sem_connect f = 0" "ev_event (env_event ?E (Rdma_get_cm_event 65536 # t)) = RDMA_CM_EVENT_ROUTE_RESOLVED"
    by blast
  have "rpmem_open ?E [] client_start = None"
    by (rule route_failure_blocks_open [OF st _ _ _ _ _ c(1,2) _ c(3)])
      (simp_all add: t3 rpmem_route_handler_def call_defs Let_def)
  then show ?thesis by simp
qed

end
