(* ===== verification/Server_Pool.thy ===== *)
theory Server_Pool
  imports Verbs_Common
begin

text \<open>
  The data of the server (\<^verbatim>\<open>rpmem_server.c\<close>) and its pool of resources: the search of
  the free list that a map request makes and the return of a resource by an unmap request, each the
  critical section the code runs under \<^verbatim>\<open>res_lock\<close>. The interface \<open>res_pool\<close> states
  what the handlers rely on: a resource has at most one user, and the size counters match the list.
\<close>

section \<open>Data\<close>

text \<open>
  Resources and units are shared through pointers, so both live in a store: a resource is named by
  \<open>rid\<close>, a unit by the address \<open>uid\<close> of its allocation. Resources are never deallocated while the
  server runs. \<open>res_st_size\<close> is \<^verbatim>\<open>stbuf.st_size\<close>.
\<close>

type_synonym rid = nat
type_synonym uid = ptr

record rpmem_resource =
  res_fd :: cint
  res_st_size :: u64
  res_name :: "string option"
  res_mr :: "ibv_mr option"
  res_addr :: u64
  res_map_len :: cint

text \<open>
  A connection of the server. Its pointer to the server structure always is the one of the program's
  only server, which is a member of the state here.
\<close>

record rpmem_server_unit =
  unit_conn :: rpmem_conn
  unit_res :: "rid option"

record rpmem_server =
  srv_ssin :: bytes
  srv_cma_id :: ptr
  srv_cma_channel :: ptr
  srv_conns_list :: "uid list"
  srv_res_list :: "rid list"
  srv_total_size :: cint
  srv_in_use_size :: cint
  srv_free_size :: cint

record server_state =
  sv_server :: rpmem_server
  sv_resources :: "rid \<Rightarrow> rpmem_resource"
  sv_units :: "uid \<rightharpoonup> rpmem_server_unit"
  sv_trace :: trace

text \<open>Storing through the connection, resource and server pointers of a unit.\<close>

definition upd_unit :: "uid \<Rightarrow> (rpmem_server_unit \<Rightarrow> rpmem_server_unit) \<Rightarrow> server_state \<Rightarrow> server_state" where
  "upd_unit u f s = s\<lparr>sv_units := (sv_units s)(u := map_option f (sv_units s u))\<rparr>"

definition upd_res :: "rid \<Rightarrow> (rpmem_resource \<Rightarrow> rpmem_resource) \<Rightarrow> server_state \<Rightarrow> server_state" where
  "upd_res r f s = s\<lparr>sv_resources := (sv_resources s)(r := f (sv_resources s r))\<rparr>"

definition upd_server :: "(rpmem_server \<Rightarrow> rpmem_server) \<Rightarrow> server_state \<Rightarrow> server_state" where
  "upd_server f s = s\<lparr>sv_server := f (sv_server s)\<rparr>"

section \<open>Taking and returning a resource\<close>

text \<open>\<^verbatim>\<open>(int)res->stbuf.st_size\<close>: the low 32 bits, read as a signed number.\<close>

definition int_size :: "rpmem_resource \<Rightarrow> cint" where
  "int_size r = ucast (res_st_size r)"

text \<open>The first resource of the list that is larger than \<open>len\<close>, in signed comparison.\<close>

fun find_res :: "(rid \<Rightarrow> rpmem_resource) \<Rightarrow> cint \<Rightarrow> rid list \<Rightarrow> rid option" where
  "find_res R len [] = None"
| "find_res R len (res # rest) =
     (if len <s int_size (R res) then Some res else find_res R len rest)"

text \<open>
  The search of \<^verbatim>\<open>rpmem_handle_map\<close>: the result is the loop variable
  \<^verbatim>\<open>res\<close> after the loop, null when the loop ran to the end of the list.
\<close>

definition pool_take :: "uid \<Rightarrow> cint \<Rightarrow> server_state \<Rightarrow> (rid option \<times> server_state) option" where
  "pool_take u len s =
     (case find_res (sv_resources s) len (srv_res_list (sv_server s)) of
        None \<Rightarrow> Some (None, s)
      | Some res \<Rightarrow> do {
          let sz = int_size (sv_resources s res);
          let s = upd_unit u (\<lambda>un. un\<lparr>unit_res := Some res\<rparr>) s;
          let s = upd_server (\<lambda>sv. sv\<lparr>srv_free_size := srv_free_size sv - sz\<rparr>) s;
          let s = upd_server (\<lambda>sv. sv\<lparr>srv_in_use_size := srv_in_use_size sv + sz\<rparr>) s;
          rest \<leftarrow> slist_remove res (srv_res_list (sv_server s));
          Some (Some res, upd_server (\<lambda>sv. sv\<lparr>srv_res_list := rest\<rparr>) s)
        })"

definition pool_give :: "uid \<Rightarrow> rid \<Rightarrow> server_state \<Rightarrow> server_state" where
  "pool_give u res s =
     (let sz = int_size (sv_resources s res);
          s = upd_server (\<lambda>sv. sv\<lparr>srv_res_list := res # srv_res_list sv\<rparr>) s;
          s = upd_unit u (\<lambda>un. un\<lparr>unit_res := None\<rparr>) s;
          s = upd_server (\<lambda>sv. sv\<lparr>srv_free_size := srv_free_size sv + sz\<rparr>) s
      in upd_server (\<lambda>sv. sv\<lparr>srv_in_use_size := srv_in_use_size sv - sz\<rparr>) s)"

section \<open>The pool invariant\<close>

definition avail :: "server_state \<Rightarrow> rid list" where
  "avail s = srv_res_list (sv_server s)"

definition owner :: "server_state \<Rightarrow> uid \<Rightarrow> rid option" where
  "owner s u = Option.bind (sv_units s u) unit_res"

definition sizes :: "server_state \<Rightarrow> rid list \<Rightarrow> cint" where
  "sizes s rs = sum_list (map (\<lambda>r. int_size (sv_resources s r)) rs)"

definition pool_exclusive :: "server_state \<Rightarrow> bool" where
  "pool_exclusive s \<longleftrightarrow>
     distinct (avail s) \<and>
     (\<forall>u r. owner s u = Some r \<longrightarrow> r \<notin> set (avail s)) \<and>
     (\<forall>u v r. owner s u = Some r \<longrightarrow> owner s v = Some r \<longrightarrow> u = v)"

definition pool_accounts :: "server_state \<Rightarrow> bool" where
  "pool_accounts s \<longleftrightarrow>
     srv_free_size (sv_server s) = sizes s (avail s) \<and>
     srv_free_size (sv_server s) + srv_in_use_size (sv_server s) = srv_total_size (sv_server s)"

definition pool_inv :: "server_state \<Rightarrow> bool" where
  "pool_inv s \<longleftrightarrow> pool_exclusive s \<and> pool_accounts s"

lemmas upd_defs = upd_unit_def upd_res_def upd_server_def

lemmas pool_defs = pool_inv_def pool_exclusive_def pool_accounts_def

lemma upd_server_simps [simp]:
  "sv_server (upd_server f s) = f (sv_server s)" "sv_units (upd_server f s) = sv_units s"
  "sv_resources (upd_server f s) = sv_resources s" "sv_trace (upd_server f s) = sv_trace s"
  by (simp_all add: upd_server_def)

lemma upd_unit_simps [simp]:
  "sv_server (upd_unit u f s) = sv_server s" "sv_resources (upd_unit u f s) = sv_resources s"
  "sv_trace (upd_unit u f s) = sv_trace s"
  "sv_units (upd_unit u f s) = (sv_units s)(u := map_option f (sv_units s u))"
  by (simp_all add: upd_unit_def)

lemma upd_res_simps [simp]:
  "sv_server (upd_res r f s) = sv_server s" "sv_units (upd_res r f s) = sv_units s"
  "sv_trace (upd_res r f s) = sv_trace s"
  "sv_resources (upd_res r f s) = (sv_resources s)(r := f (sv_resources s r))"
  by (simp_all add: upd_res_def)

lemma find_res_Some:
  "find_res R len rs = Some r \<Longrightarrow>
     \<exists>as bs. rs = as @ r # bs \<and> len <s int_size (R r) \<and> (\<forall>q\<in>set as. \<not> len <s int_size (R q))"
proof (induction rs)
  case Nil
  then show ?case by simp
next
  case (Cons q rs)
  show ?case
  proof (cases "len <s int_size (R q)")
    case True
    with Cons.prems show ?thesis by (intro exI [of _ "[]"] exI [of _ rs]) auto
  next
    case False
    with Cons obtain as bs where "rs = as @ r # bs" "len <s int_size (R r)"
        "\<forall>x\<in>set as. \<not> len <s int_size (R x)"
      by auto
    with False show ?thesis by (intro exI [of _ "q # as"] exI [of _ bs]) auto
  qed
qed

lemma find_res_in: "find_res R len rs = Some r \<Longrightarrow> r \<in> set rs \<and> len <s int_size (R r)"
  by (drule find_res_Some) auto

lemma find_res_None_iff: "find_res R len rs = None \<longleftrightarrow> (\<forall>r\<in>set rs. \<not> len <s int_size (R r))"
  by (induction rs) auto

lemma sizes_remove1:
  "r \<in> set rs \<Longrightarrow> sizes s (remove1 r rs) = sizes s rs - int_size (sv_resources s r)"
  by (simp add: sizes_def sum_list_map_remove1 [of r rs])

lemma sizes_Cons [simp]: "sizes s (r # rs) = int_size (sv_resources s r) + sizes s rs"
  by (simp add: sizes_def)

text \<open>What the search does, in one equation per outcome.\<close>

definition taken :: "uid \<Rightarrow> rid \<Rightarrow> server_state \<Rightarrow> server_state" where
  "taken u r s =
     upd_server (\<lambda>sv. sv\<lparr>srv_free_size := srv_free_size sv - int_size (sv_resources s r),
         srv_in_use_size := srv_in_use_size sv + int_size (sv_resources s r),
         srv_res_list := remove1 r (srv_res_list sv)\<rparr>)
       (upd_unit u (\<lambda>un. un\<lparr>unit_res := Some r\<rparr>) s)"

lemma pool_take_eq:
  "pool_take u len s =
     (case find_res (sv_resources s) len (avail s) of
        None \<Rightarrow> Some (None, s) | Some r \<Rightarrow> Some (Some r, taken u r s))"
  by (auto simp: pool_take_def taken_def avail_def upd_defs slist_remove_in find_res_in Let_def
      split: option.splits)

lemma taken_simps [simp]:
  "sv_resources (taken u r s) = sv_resources s"
  "sv_trace (taken u r s) = sv_trace s"
  "avail (taken u r s) = remove1 r (avail s)"
  "srv_conns_list (sv_server (taken u r s)) = srv_conns_list (sv_server s)"
  "srv_total_size (sv_server (taken u r s)) = srv_total_size (sv_server s)"
  "srv_free_size (sv_server (taken u r s)) =
     srv_free_size (sv_server s) - int_size (sv_resources s r)"
  "srv_in_use_size (sv_server (taken u r s)) =
     srv_in_use_size (sv_server s) + int_size (sv_resources s r)"
  "sv_units (taken u r s) =
     (sv_units s)(u := map_option (\<lambda>un. un\<lparr>unit_res := Some r\<rparr>) (sv_units s u))"
  by (simp_all add: taken_def avail_def)

lemma owner_taken:
  "sv_units s u \<noteq> None \<Longrightarrow> owner (taken u r s) v = (if v = u then Some r else owner s v)"
  by (auto simp: owner_def)

lemma sizes_taken [simp]: "sizes (taken u r s) = sizes s"
  by (simp add: sizes_def fun_eq_iff)

lemma pool_give_simps [simp]:
  "sv_resources (pool_give u r s) = sv_resources s"
  "sv_trace (pool_give u r s) = sv_trace s"
  "avail (pool_give u r s) = r # avail s"
  "srv_conns_list (sv_server (pool_give u r s)) = srv_conns_list (sv_server s)"
  "srv_total_size (sv_server (pool_give u r s)) = srv_total_size (sv_server s)"
  "srv_free_size (sv_server (pool_give u r s)) =
     srv_free_size (sv_server s) + int_size (sv_resources s r)"
  "srv_in_use_size (sv_server (pool_give u r s)) =
     srv_in_use_size (sv_server s) - int_size (sv_resources s r)"
  "sv_units (pool_give u r s) =
     (sv_units s)(u := map_option (\<lambda>un. un\<lparr>unit_res := None\<rparr>) (sv_units s u))"
  by (simp_all add: pool_give_def avail_def Let_def)

lemma owner_give: "owner (pool_give u r s) v = (if v = u then None else owner s v)"
  by (cases "sv_units s u") (auto simp: owner_def)

lemma sizes_give [simp]: "sizes (pool_give u r s) = sizes s"
  by (simp add: sizes_def fun_eq_iff)

lemma taken_inv:
  assumes inv: "pool_inv s" and u: "sv_units s u \<noteq> None" and r: "r \<in> set (avail s)"
  shows "pool_inv (taken u r s)"
proof -
  from inv have ex: "pool_exclusive s" and ac: "pool_accounts s" by (simp_all add: pool_inv_def)
  from ex r have "pool_exclusive (taken u r s)"
    by (auto simp: pool_exclusive_def owner_taken [OF u] split: if_splits)
  moreover from ac r have "pool_accounts (taken u r s)"
    by (auto simp: pool_accounts_def sizes_remove1)
  ultimately show ?thesis by (simp add: pool_inv_def)
qed

lemma give_inv:
  assumes inv: "pool_inv s" and r: "owner s u = Some r"
  shows "pool_inv (pool_give u r s)"
proof -
  from inv have ex: "pool_exclusive s" and ac: "pool_accounts s" by (simp_all add: pool_inv_def)
  from ex r have "pool_exclusive (pool_give u r s)"
    by (auto simp: pool_exclusive_def owner_give split: if_splits)
  moreover from ac have "pool_accounts (pool_give u r s)"
    by (auto simp: pool_accounts_def)
  ultimately show ?thesis by (simp add: pool_inv_def)
qed

section \<open>The pool interface\<close>

text \<open>
  What the request handlers rely on. \<open>fits\<close> says that a resource is large enough for a length,
  \<open>valid\<close> that a unit exists.
\<close>

locale res_pool =
  fixes take :: "'k \<Rightarrow> 'n \<Rightarrow> 's \<Rightarrow> ('r option \<times> 's) option"
    and give :: "'k \<Rightarrow> 'r \<Rightarrow> 's \<Rightarrow> 's"
    and free :: "'s \<Rightarrow> 'r list"
    and user :: "'s \<Rightarrow> 'k \<Rightarrow> 'r option"
    and fits :: "'s \<Rightarrow> 'n \<Rightarrow> 'r \<Rightarrow> bool"
    and valid :: "'s \<Rightarrow> 'k \<Rightarrow> bool"
    and inv :: "'s \<Rightarrow> bool"
  assumes take_total: "\<exists>r s'. take u n s = Some (r, s')"
    and take_found: "take u n s = Some (Some r, s') \<Longrightarrow>
      r \<in> set (free s) \<and> fits s n r \<and> free s' = remove1 r (free s)"
    and take_user: "take u n s = Some (Some r, s') \<Longrightarrow> valid s u \<Longrightarrow> user s' = (user s)(u := Some r)"
    and take_none: "take u n s = Some (None, s') \<Longrightarrow> s' = s \<and> (\<forall>r\<in>set (free s). \<not> fits s n r)"
    and take_inv: "take u n s = Some (ro, s') \<Longrightarrow> valid s u \<Longrightarrow> inv s \<Longrightarrow> inv s'"
    and give_free: "free (give u r s) = r # free s"
    and give_user: "user (give u r s) = (user s)(u := None)"
    and give_inv: "user s u = Some r \<Longrightarrow> inv s \<Longrightarrow> inv (give u r s)"
    and inv_free: "inv s \<Longrightarrow> distinct (free s)"
    and inv_user: "inv s \<Longrightarrow> user s u = Some r \<Longrightarrow> r \<notin> set (free s)"
    and inv_unique: "inv s \<Longrightarrow> user s u = Some r \<Longrightarrow> user s v = Some r \<Longrightarrow> u = v"
begin

lemma take_succeeds_iff:
  assumes "take u n s = Some (ro, s')"
  shows "ro \<noteq> None \<longleftrightarrow> (\<exists>r\<in>set (free s). fits s n r)"
  using assms take_found take_none by (cases ro) blast+

lemma take_exclusive:
  assumes "take u n s = Some (Some r, s')" and "valid s u" and "inv s" and "user s' v = Some r"
  shows "v = u"
proof (rule ccontr)
  assume "v \<noteq> u"
  with assms take_user have "user s v = Some r" by fastforce
  with assms(3) have "r \<notin> set (free s)" by (rule inv_user)
  with take_found [OF assms(1)] show False by simp
qed

text \<open>Taking a resource and giving it back restores the free resources and every other user.\<close>

lemma take_give:
  assumes t: "take u n s = Some (Some r, s')" and "valid s u" and "user s u = None"
  shows "mset (free (give u r s')) = mset (free s)" and "user (give u r s') = user s"
proof -
  from take_found [OF t] show "mset (free (give u r s')) = mset (free s)"
    by (simp add: give_free)
  from take_user [OF t] assms show "user (give u r s') = user s"
    by (auto simp: give_user fun_eq_iff)
qed

lemma give_take_available:
  assumes "inv s" and "user s u = Some r" and "fits (give u r s) n r"
  shows "\<exists>q s'. take v n (give u r s) = Some (Some q, s')"
proof -
  obtain ro s' where t: "take v n (give u r s) = Some (ro, s')" using take_total by blast
  from assms(3) have "\<exists>q\<in>set (free (give u r s)). fits (give u r s) n q"
    by (auto simp: give_free)
  with take_succeeds_iff [OF t] t show ?thesis by blast
qed

end

definition res_fits :: "server_state \<Rightarrow> cint \<Rightarrow> rid \<Rightarrow> bool" where
  "res_fits s len r \<longleftrightarrow> len <s int_size (sv_resources s r)"

interpretation pool: res_pool pool_take pool_give avail owner res_fits
  "\<lambda>s u. sv_units s u \<noteq> None" pool_inv
proof (unfold_locales, goal_cases)
  case (1 u n s)
  show ?case by (simp add: pool_take_eq split: option.split)
next
  case (2 u n s r s')
  then show ?case by (auto simp: pool_take_eq res_fits_def dest: find_res_in split: option.splits)
next
  case (3 u n s r s')
  then show ?case by (auto simp: pool_take_eq owner_taken fun_eq_iff split: option.splits)
next
  case (4 u n s s')
  then show ?case by (auto simp: pool_take_eq find_res_None_iff res_fits_def split: option.splits)
next
  case (5 u n s ro s')
  then show ?case
    by (cases "find_res (sv_resources s) n (avail s)")
      (auto simp: pool_take_eq intro!: taken_inv dest: find_res_in [OF sym])
next
  case (6 u r s)
  show ?case by simp
next
  case (7 u r s)
  show ?case by (auto simp: owner_give)
next
  case (8 s u r)
  then show ?case by (simp add: give_inv)
qed (auto simp: pool_inv_def pool_exclusive_def)

end
