(* ===== verification/Server_Handlers.thy ===== *)
theory Server_Handlers
  imports Server_Pool
begin

text \<open>
  The request handlers of the server, the dispatch on the opcode, the handling of work completions
  and the completion thread of a connection (\<^verbatim>\<open>rpmem_server.c\<close>, from
  \<^verbatim>\<open>rpmem_handle_open\<close> to \<^verbatim>\<open>cq_thread\<close>). A handler has no result (\<open>None\<close>)
  where the code dereferences a null pointer. Printing is left out.
\<close>

section \<open>Acting on a unit\<close>

definition upd_conn :: "uid \<Rightarrow> (rpmem_conn \<Rightarrow> rpmem_conn) \<Rightarrow> server_state \<Rightarrow> server_state" where
  "upd_conn u f = upd_unit u (\<lambda>un. un\<lparr>unit_conn := f (unit_conn un)\<rparr>)"

definition set_trace :: "trace \<Rightarrow> server_state \<Rightarrow> server_state" where
  "set_trace t s = s\<lparr>sv_trace := t\<rparr>"

definition srv_int :: "env \<Rightarrow> call \<Rightarrow> server_state \<Rightarrow> cint \<times> server_state" where
  "srv_int E c s = (let (r, t) = call_int E c (sv_trace s) in (r, set_trace t s))"

definition srv_ptr :: "env \<Rightarrow> call \<Rightarrow> server_state \<Rightarrow> ptr \<times> server_state" where
  "srv_ptr E c s = (let (r, t) = call_ptr E c (sv_trace s) in (r, set_trace t s))"

definition srv_mr :: "env \<Rightarrow> call \<Rightarrow> server_state \<Rightarrow> ibv_mr option \<times> server_state" where
  "srv_mr E c s = (let (r, t) = call_mr E c (sv_trace s) in (r, set_trace t s))"

text \<open>
  The two ways the handlers use the work request wrappers: a receive into \<open>conn->req\<close> and a send
  of \<open>conn->rsp\<close>.
\<close>

definition post_req_recv :: "env \<Rightarrow> uid \<Rightarrow> server_state \<Rightarrow> (cint \<times> server_state) option" where
  "post_req_recv E u s = do {
     un \<leftarrow> sv_units s u;
     let c = unit_conn un;
     (err, c, t) \<leftarrow> rpmem_post_recv E c Conn_req (conn_req_mr c) (sv_trace s);
     Some (err, upd_conn u (\<lambda>_. c) (set_trace t s))
   }"

definition post_rsp_send :: "env \<Rightarrow> uid \<Rightarrow> server_state \<Rightarrow> (cint \<times> server_state) option" where
  "post_rsp_send E u s = do {
     un \<leftarrow> sv_units s u;
     let c = unit_conn un;
     (err, t) \<leftarrow> rpmem_post_send E c Conn_rsp (conn_rsp_mr c) (sv_trace s);
     Some (err, set_trace t s)
   }"

section \<open>Request handlers\<close>

definition rpmem_handle_open :: "env \<Rightarrow> uid \<Rightarrow> server_state \<Rightarrow> (cint \<times> server_state) option" where
  "rpmem_handle_open E u s = do {
     let sz = srv_free_size (sv_server s);
     (err, s) \<leftarrow> post_req_recv E u s;
     let ret = (if err \<noteq> 0 then -1 else 0);
     let s = upd_conn u (\<lambda>c. c\<lparr>conn_rsp := pack_open_rsp (host E) sz (conn_rsp c)\<rparr>) s;
     (err, s) \<leftarrow> post_rsp_send E u s;
     Some (if err \<noteq> 0 then -1 else ret, s)
   }"

definition rpmem_handle_close :: "env \<Rightarrow> uid \<Rightarrow> server_state \<Rightarrow> (cint \<times> server_state) option" where
  "rpmem_handle_close E u s = do {
     let s = upd_conn u (\<lambda>c. c\<lparr>conn_rsp := pack_close_rsp (host E) 0 (conn_rsp c)\<rparr>) s;
     (ret, s) \<leftarrow> post_rsp_send E u s;
     Some (if ret \<noteq> 0 then -1 else ret, s)
   }"

text \<open>The code after the label \<open>out\<close> of the map handler.\<close>

definition handle_map_out ::
  "env \<Rightarrow> uid \<Rightarrow> u32 \<Rightarrow> u64 \<Rightarrow> cint \<Rightarrow> server_state \<Rightarrow> (cint \<times> server_state) option" where
  "handle_map_out E u rkey addr ret s = do {
     let s = upd_conn u (\<lambda>c. c\<lparr>conn_rsp := pack_map_rsp (host E) (conn_rsp c) rkey addr\<rparr>) s;
     (err, s) \<leftarrow> post_rsp_send E u s;
     Some (if err \<noteq> 0 then -1 else ret, s)
   }"

text \<open>Mapping the resource found and registering the mapping, up to the label.\<close>

definition handle_map_res ::
  "env \<Rightarrow> uid \<Rightarrow> cint \<Rightarrow> rid \<Rightarrow> server_state \<Rightarrow> (cint \<times> server_state) option" where
  "handle_map_res E u len res s = do {
     let fd = res_fd (sv_resources s res);
     let (rc, s) = srv_int E (Posix_fallocate fd (scast len)) s;
     let ret = (if rc \<noteq> 0 then -1 else 0);
     let (addr, s) = srv_ptr E (Mmap fd (scast len) MAP_PRIVATE) s;
     let (addr, ret) = (if addr = MAP_FAILED then (NULL, -1) else (addr, ret));
     let s = upd_res res (\<lambda>r. r\<lparr>res_addr := addr, res_map_len := len\<rparr>) s;
     un \<leftarrow> sv_units s u;
     let (mr, s) = srv_mr E (Ibv_reg_mr (conn_pd (unit_conn un)) (Vaddr addr) (scast len)
           [IBV_ACCESS_LOCAL_WRITE, IBV_ACCESS_REMOTE_WRITE, IBV_ACCESS_REMOTE_READ]) s;
     let s = upd_res res (\<lambda>r. r\<lparr>res_mr := mr\<rparr>) s;
     case mr of
       None \<Rightarrow>
         let (_, s) = srv_int E (Munmap addr (scast len)) s
         in handle_map_out E u (env_junk32 E (sv_trace s)) NULL (-1) s
     | Some mr \<Rightarrow> handle_map_out E u (mr_rkey mr) addr ret s
   }"

definition rpmem_handle_map :: "env \<Rightarrow> uid \<Rightarrow> server_state \<Rightarrow> (cint \<times> server_state) option" where
  "rpmem_handle_map E u s = do {
     un \<leftarrow> sv_units s u;
     let len = req_len (host E) (conn_req (unit_conn un));
     (err, s) \<leftarrow> post_req_recv E u s;
     if err \<noteq> 0
     then handle_map_out E u (env_junk32 E (sv_trace s)) (env_junk64 E (sv_trace s)) (-1) s
     else do {
       (res, s) \<leftarrow> pool_take u len s;
       un \<leftarrow> sv_units s u;
       if unit_res un = None
       then handle_map_out E u (env_junk32 E (sv_trace s)) (env_junk64 E (sv_trace s)) (-1) s
       else do {
         res \<leftarrow> res;
         handle_map_res E u len res s
       }
     }
   }"

definition handle_unmap_out ::
  "env \<Rightarrow> uid \<Rightarrow> cint \<Rightarrow> server_state \<Rightarrow> (cint \<times> server_state) option" where
  "handle_unmap_out E u ret s = do {
     let s = upd_conn u (\<lambda>c. c\<lparr>conn_rsp := pack_unmap_rsp (host E) (conn_rsp c) ret\<rparr>) s;
     (err, s) \<leftarrow> post_rsp_send E u s;
     Some (if err \<noteq> 0 then -1 else ret, s)
   }"

definition rpmem_handle_unmap :: "env \<Rightarrow> uid \<Rightarrow> server_state \<Rightarrow> (cint \<times> server_state) option" where
  "rpmem_handle_unmap E u s = do {
     un \<leftarrow> sv_units s u;
     let res = unit_res un;
     let len = req_len (host E) (conn_req (unit_conn un));
     let addr = req_addr (host E) (conn_req (unit_conn un));
     (err, s) \<leftarrow> post_req_recv E u s;
     if err \<noteq> 0 then handle_unmap_out E u (-1) s
     else do {
       res \<leftarrow> res;
       mr \<leftarrow> res_mr (sv_resources s res);
       let (_, s) = srv_int E (Ibv_dereg_mr mr) s;
       let s = upd_res res (\<lambda>r. r\<lparr>res_map_len := 0, res_addr := 0\<rparr>) s;
       let (ret, s) = srv_int E (Munmap addr (scast len)) s;
       if ret \<noteq> 0 then handle_unmap_out E u ret s
       else handle_unmap_out E u ret (pool_give u res s)
     }
   }"

definition handle_commit_out ::
  "env \<Rightarrow> uid \<Rightarrow> cint \<Rightarrow> server_state \<Rightarrow> (cint \<times> server_state) option" where
  "handle_commit_out E u ret s = do {
     let s = upd_conn u (\<lambda>c. c\<lparr>conn_rsp := pack_commit_rsp (host E) (conn_rsp c) ret\<rparr>) s;
     (err, s) \<leftarrow> post_rsp_send E u s;
     Some (if err \<noteq> 0 then -1 else ret, s)
   }"

definition rpmem_handle_commit :: "env \<Rightarrow> uid \<Rightarrow> server_state \<Rightarrow> (cint \<times> server_state) option" where
  "rpmem_handle_commit E u s = do {
     un \<leftarrow> sv_units s u;
     let len = req_len (host E) (conn_req (unit_conn un));
     let addr = req_addr (host E) (conn_req (unit_conn un));
     (err, s) \<leftarrow> post_req_recv E u s;
     if err \<noteq> 0 then handle_commit_out E u (-1) s
     else
       let (ret, s) = srv_int E (Msync addr (scast len)) s
       in handle_commit_out E u ret s
   }"

section \<open>Completions\<close>

text \<open>
  The dispatcher ignores what the handlers return; an unknown opcode is only reported.
\<close>

definition rpmem_rcv_completion :: "env \<Rightarrow> uid \<Rightarrow> server_state \<Rightarrow> (cint \<times> server_state) option" where
  "rpmem_rcv_completion E u s = do {
     un \<leftarrow> sv_units s u;
     let opcode = req_opcode (host E) (conn_req (unit_conn un));
     (_, s) \<leftarrow>
       (if opcode = opcode_val RPMEM_OPEN_REQ then rpmem_handle_open E u s
        else if opcode = opcode_val RPMEM_CLOSE_REQ then rpmem_handle_close E u s
        else if opcode = opcode_val RPMEM_MAP_REQ then rpmem_handle_map E u s
        else if opcode = opcode_val RPMEM_UNMAP_REQ then rpmem_handle_unmap E u s
        else if opcode = opcode_val RPMEM_COMMIT_REQ then rpmem_handle_commit E u s
        else Some (0, s));
     Some (0, s)
   }"

definition rpmem_snd_completion :: "env \<Rightarrow> uid \<Rightarrow> server_state \<Rightarrow> (cint \<times> server_state) option" where
  "rpmem_snd_completion E u s = Some (0, s)"

definition server_handle_wc :: "env \<Rightarrow> ibv_wc \<Rightarrow> uid \<Rightarrow> server_state \<Rightarrow> server_state option" where
  "server_handle_wc E wc u s =
     (if wc_status wc = IBV_WC_SUCCESS then
        (case wc_opcode wc of
           IBV_WC_RECV \<Rightarrow> map_option snd (rpmem_rcv_completion E u s)
         | IBV_WC_SEND \<Rightarrow> map_option snd (rpmem_snd_completion E u s)
         | _ \<Rightarrow> Some s)
      else Some s)"

text \<open>
  By the time a receive completion is handled the device has written the message into the request
  buffer of the connection.
\<close>

definition deliver :: "env \<Rightarrow> ibv_wc \<Rightarrow> uid \<Rightarrow> server_state \<Rightarrow> server_state" where
  "deliver E wc u s =
     (case env_inbox E (sv_trace s) of
        None \<Rightarrow> s
      | Some m \<Rightarrow>
          if wc_status wc = IBV_WC_SUCCESS \<and> wc_opcode wc = IBV_WC_RECV
          then upd_conn u (\<lambda>c. c\<lparr>conn_req := recv_into m (conn_req c)\<rparr>) s else s)"

text \<open>
  The inner loop: \<open>k\<close> completions from index \<open>i\<close> on are taken out of the array \<open>wc\<close> and handled. An
  index outside the array has no result.
\<close>

primrec handle_wcs ::
  "env \<Rightarrow> ibv_wc list \<Rightarrow> nat \<Rightarrow> nat \<Rightarrow> uid \<Rightarrow> server_state \<Rightarrow> server_state option" where
  "handle_wcs E wc i 0 u s = Some s"
| "handle_wcs E wc i (Suc k) u s =
     (if i < length wc then do {
        s \<leftarrow> server_handle_wc E (wc ! i) u (deliver E (wc ! i) u s);
        handle_wcs E wc (Suc i) k u s
      }
      else None)"

text \<open>
  The polling loop. The count of completions is an \<^verbatim>\<open>unsigned int\<close>, so an error return
  of \<^verbatim>\<open>ibv_poll_cq\<close> is a large positive count; with more than 16 completions the inner
  loop runs past the end of the array \<^verbatim>\<open>wc[16]\<close>. As it only goes on with at most 16, the
  running total stays below 80 and does not wrap.
\<close>

function server_cq_event_loop :: "env \<Rightarrow> uid \<Rightarrow> nat \<Rightarrow> server_state \<Rightarrow> (cint \<times> server_state) option" where
  "server_cq_event_loop E u completed s =
     (case sv_units s u of None \<Rightarrow> None | Some un \<Rightarrow>
      let (n, s) = srv_int E (Ibv_poll_cq (conn_cq (unit_conn un)) 16) s in
      if n = 0 then Some (0, s)
      else
        (case handle_wcs E (map (env_wc E (sv_trace s)) [0..<16]) 0 (unat n) u s of
           None \<Rightarrow> None
         | Some s \<Rightarrow>
             if 64 \<le> completed + unat n then Some (-1, s)
             else server_cq_event_loop E u (completed + unat n) s))"
  by pat_completeness auto
termination
  by (relation "measure (\<lambda>(E, u, completed, s). 64 - completed)") (auto dest!: neq0_unat)

declare server_cq_event_loop.simps [simp del]

definition server_cq_event_handler :: "env \<Rightarrow> uid \<Rightarrow> server_state \<Rightarrow> (cint \<times> server_state) option" where
  "server_cq_event_handler E u s = server_cq_event_loop E u 0 s"

text \<open>
  One round of the completion thread of a connection: \<open>False\<close> when the thread exits. The thread
  is the repetition of its rounds.
\<close>

definition server_cq_thread_round :: "env \<Rightarrow> uid \<Rightarrow> server_state \<Rightarrow> (bool \<times> server_state) option" where
  "server_cq_thread_round E u s = do {
     un \<leftarrow> sv_units s u;
     let c = unit_conn un;
     let (ret, s) = srv_int E (Ibv_get_cq_event (conn_comp_channel c)) s;
     if ret \<noteq> 0 then Some (False, s)
     else if env_ptr E (sv_trace s) \<noteq> conn_cq c then Some (False, s)
     else
       let (ret, s) = srv_int E (Ibv_req_notify_cq (conn_cq c)) s in
       if ret \<noteq> 0 then Some (False, s)
       else do {
         (ret, s) \<leftarrow> server_cq_event_handler E u s;
         let (_, s) = srv_int E (Ibv_ack_cq_events (conn_cq c)) s;
         Some (ret = 0, s)
       }
   }"

primrec server_cq_thread :: "env \<Rightarrow> nat \<Rightarrow> uid \<Rightarrow> server_state \<Rightarrow> (bool \<times> server_state) option" where
  "server_cq_thread E 0 u s = Some (True, s)"
| "server_cq_thread E (Suc n) u s = do {
     (running, s) \<leftarrow> server_cq_thread_round E u s;
     if running then server_cq_thread E n u s else Some (False, s)
   }"

section \<open>What leaves the pool alone\<close>

definition same_counts :: "server_state \<Rightarrow> server_state \<Rightarrow> bool" where
  "same_counts s s' \<longleftrightarrow>
     avail s' = avail s \<and>
     srv_free_size (sv_server s') = srv_free_size (sv_server s) \<and>
     srv_in_use_size (sv_server s') = srv_in_use_size (sv_server s) \<and>
     srv_total_size (sv_server s') = srv_total_size (sv_server s) \<and>
     (\<forall>r. res_st_size (sv_resources s' r) = res_st_size (sv_resources s r))"

lemma same_countsI [intro]:
  "sv_server s' = sv_server s \<Longrightarrow> (\<And>r. res_st_size (sv_resources s' r) = res_st_size (sv_resources s r)) \<Longrightarrow>
     same_counts s s'"
  by (simp add: same_counts_def avail_def)

text \<open>The counters and the list stay, and units may at most give up a resource.\<close>

lemma pool_inv_mono:
  assumes c: "same_counts s s'" and own: "\<And>v. owner s' v = None \<or> owner s' v = owner s v"
    and inv: "pool_inv s"
  shows "pool_inv s'"
proof -
  have o: "owner s v = Some r" if "owner s' v = Some r" for v r
    using own [of v] that by auto
  have "pool_exclusive s'"
    using inv c o unfolding pool_inv_def pool_exclusive_def same_counts_def by metis
  moreover have "sizes s' (avail s') = sizes s (avail s)"
    using c by (simp add: sizes_def same_counts_def int_size_def)
  then have "pool_accounts s'"
    using inv c by (auto simp: pool_inv_def pool_accounts_def same_counts_def)
  ultimately show ?thesis by (simp add: pool_inv_def)
qed

lemma pool_inv_cong:
  assumes "sv_server s' = sv_server s" and "owner s' = owner s"
    and "\<And>r. res_st_size (sv_resources s' r) = res_st_size (sv_resources s r)"
  shows "pool_inv s' = pool_inv s"
proof
  have "same_counts s s'" "same_counts s' s" using assms by auto
  then show "pool_inv s' \<Longrightarrow> pool_inv s" "pool_inv s \<Longrightarrow> pool_inv s'"
    using assms(2) by (auto elim!: pool_inv_mono)
qed

lemma upd_conn_simps [simp]:
  "sv_server (upd_conn u f s) = sv_server s" "sv_resources (upd_conn u f s) = sv_resources s"
  "sv_trace (upd_conn u f s) = sv_trace s" "avail (upd_conn u f s) = avail s"
  "owner (upd_conn u f s) = owner s"
  "sv_units (upd_conn u f s) =
     (sv_units s)(u := map_option (\<lambda>un. un\<lparr>unit_conn := f (unit_conn un)\<rparr>) (sv_units s u))"
  by (cases "sv_units s u"; auto simp: upd_conn_def avail_def owner_def fun_eq_iff)+

lemma set_trace_simps [simp]:
  "sv_server (set_trace t s) = sv_server s" "sv_resources (set_trace t s) = sv_resources s"
  "sv_trace (set_trace t s) = t" "sv_units (set_trace t s) = sv_units s"
  "avail (set_trace t s) = avail s" "owner (set_trace t s) = owner s"
  by (simp_all add: set_trace_def avail_def owner_def fun_eq_iff)

lemma upd_res_frame [simp]: "avail (upd_res r f s) = avail s" "owner (upd_res r f s) = owner s"
  by (simp_all add: avail_def owner_def fun_eq_iff)

lemma pool_inv_frame [simp]:
  "pool_inv (upd_conn u f s) = pool_inv s" "pool_inv (set_trace t s) = pool_inv s"
  "(\<And>x. res_st_size (f' x) = res_st_size x) \<Longrightarrow> pool_inv (upd_res r f' s) = pool_inv s"
  by (rule pool_inv_cong; simp)+

lemma srv_call_eq:
  "srv_int E c s = (env_int E (c # sv_trace s), set_trace (c # sv_trace s) s)"
  "srv_ptr E c s = (env_ptr E (c # sv_trace s), set_trace (c # sv_trace s) s)"
  "srv_mr E c s = (env_mr E (c # sv_trace s), set_trace (c # sv_trace s) s)"
  by (simp_all add: srv_int_def srv_ptr_def srv_mr_def call_defs)

section \<open>A unit that can serve requests\<close>

definition unit_ready :: "server_state \<Rightarrow> uid \<Rightarrow> bool" where
  "unit_ready s u \<longleftrightarrow>
     (case sv_units s u of None \<Rightarrow> False
      | Some un \<Rightarrow> wf_conn (unit_conn un) \<and> conn_req_mr (unit_conn un) \<noteq> None \<and>
          conn_rsp_mr (unit_conn un) \<noteq> None)"

definition req_of :: "server_state \<Rightarrow> uid \<Rightarrow> bytes" where
  "req_of s u = (case sv_units s u of None \<Rightarrow> [] | Some un \<Rightarrow> conn_req (unit_conn un))"

definition rsp_of :: "server_state \<Rightarrow> uid \<Rightarrow> bytes" where
  "rsp_of s u = (case sv_units s u of None \<Rightarrow> [] | Some un \<Rightarrow> conn_rsp (unit_conn un))"

lemma unit_readyE:
  assumes "unit_ready s u"
  obtains un mq ms where "sv_units s u = Some un" "wf_conn (unit_conn un)"
    "conn_req_mr (unit_conn un) = Some mq" "conn_rsp_mr (unit_conn un) = Some ms"
  using assms by (auto simp: unit_ready_def split: option.splits)

lemma unit_ready_valid: "unit_ready s u \<Longrightarrow> sv_units s u \<noteq> None"
  by (auto elim: unit_readyE)

lemma wf_of_ready [simp]: "unit_ready s u \<Longrightarrow> wf_cmd (rsp_of s u)" "unit_ready s u \<Longrightarrow> wf_cmd (req_of s u)"
  by (auto elim!: unit_readyE simp: rsp_of_def req_of_def wf_conn_def)

lemma unit_ready_frame [simp]:
  "unit_ready (set_trace t s) v = unit_ready s v"
  "unit_ready (upd_res r f s) v = unit_ready s v"
  "unit_ready (upd_server g s) v = unit_ready s v"
  "unit_ready (pool_give u r s) v = unit_ready s v"
  "unit_ready (taken u r s) v = unit_ready s v"
  by (simp_all add: unit_ready_def split: option.split)

lemma rsp_of_frame [simp]:
  "rsp_of (set_trace t s) v = rsp_of s v" "rsp_of (upd_res r f s) v = rsp_of s v"
  "rsp_of (pool_give u r s) v = rsp_of s v" "rsp_of (taken u r s) v = rsp_of s v"
  by (simp_all add: rsp_of_def split: option.split)

lemma unit_ready_upd_rsp:
  "unit_ready s v \<Longrightarrow> (\<And>m. wf_cmd m \<Longrightarrow> wf_cmd (g m)) \<Longrightarrow>
     unit_ready (upd_conn u (\<lambda>c. c\<lparr>conn_rsp := g (conn_rsp c)\<rparr>) s) v"
  by (auto simp: unit_ready_def wf_conn_def split: option.splits if_splits)

lemma unit_ready_upd_req:
  "unit_ready s v \<Longrightarrow> (\<And>m. wf_cmd m \<Longrightarrow> wf_cmd (g m)) \<Longrightarrow>
     unit_ready (upd_conn u (\<lambda>c. c\<lparr>conn_req := g (conn_req c)\<rparr>) s) v"
  by (auto simp: unit_ready_def wf_conn_def split: option.splits if_splits)

end
