(* ===== verification/Server_Requests.thy ===== *)
theory Server_Requests
  imports Server_Handlers
begin

text \<open>
  What serving a request does. The interface \<open>request_handler\<close> states the contract the dispatcher
  and the rest of the server rely on, for all five handlers: when a handler fails to return, that
  the pool invariant holds again afterwards, that exactly one reply of the right type was sent and
  that no other connection was touched. It is interpreted on each handler.
\<close>

section \<open>Receiving and replying\<close>

text \<open>The tail all handlers share: write the response, send it.\<close>

definition send_rsp ::
  "env \<Rightarrow> uid \<Rightarrow> (bytes \<Rightarrow> bytes) \<Rightarrow> cint \<Rightarrow> server_state \<Rightarrow> (cint \<times> server_state) option" where
  "send_rsp E u f ret s = do {
     let s = upd_conn u (\<lambda>c. c\<lparr>conn_rsp := f (conn_rsp c)\<rparr>) s;
     (err, s) \<leftarrow> post_rsp_send E u s;
     Some (if err \<noteq> 0 then -1 else ret, s)
   }"

lemma handle_out_eq:
  "handle_map_out E u k a ret s = send_rsp E u (\<lambda>m. pack_map_rsp (host E) m k a) ret s"
  "handle_unmap_out E u ret s = send_rsp E u (\<lambda>m. pack_unmap_rsp (host E) m ret) ret s"
  "handle_commit_out E u ret s = send_rsp E u (\<lambda>m. pack_commit_rsp (host E) m ret) ret s"
  by (simp_all add: handle_map_out_def handle_unmap_out_def handle_commit_out_def send_rsp_def)

definition replied :: "uid \<Rightarrow> (bytes \<Rightarrow> bytes) \<Rightarrow> call \<Rightarrow> server_state \<Rightarrow> server_state" where
  "replied u f c s =
     set_trace (c # sv_trace s) (upd_conn u (\<lambda>c. c\<lparr>conn_rsp := f (conn_rsp c)\<rparr>) s)"

definition rearmed :: "uid \<Rightarrow> call \<Rightarrow> server_state \<Rightarrow> server_state" where
  "rearmed u c s = set_trace (c # sv_trace s) (upd_conn u (\<lambda>c. c\<lparr>conn_req := zero_cmd\<rparr>) s)"

lemma send_rsp_eq:
  assumes "sv_units s u = Some un" and "conn_rsp_mr (unit_conn un) = Some ms"
  shows "send_rsp E u f ret s =
    (let c = send_call ((unit_conn un)\<lparr>conn_rsp := f (conn_rsp (unit_conn un))\<rparr>) Conn_rsp ms
     in Some (if env_int E (c # sv_trace s) \<noteq> 0 then -1 else ret, replied u f c s))"
  using assms by (simp add: send_rsp_def post_rsp_send_def post_simps replied_def Let_def)

lemma post_req_recv_eq:
  assumes "sv_units s u = Some un" and "conn_req_mr (unit_conn un) = Some mq"
  shows "post_req_recv E u s =
    (let c = recv_call (unit_conn un) Conn_req mq
     in Some (if env_int E (c # sv_trace s) \<noteq> 0 then -1 else 0, rearmed u c s))"
  using assms
  by (simp add: post_req_recv_def post_simps rearmed_def Let_def upd_conn_def upd_unit_def
      set_trace_def fun_eq_iff)

lemma send_rspE:
  assumes "unit_ready s u"
  obtains c where
    "send_rsp E u f ret s = Some (if env_int E (c # sv_trace s) \<noteq> 0 then -1 else ret, replied u f c s)"
    "payload c = Some (f (rsp_of s u))"
proof -
  from assms obtain un mq ms where un: "sv_units s u = Some un" "conn_rsp_mr (unit_conn un) = Some ms"
    by (rule unit_readyE)
  then show thesis
    by (intro that [of "send_call ((unit_conn un)\<lparr>conn_rsp := f (conn_rsp (unit_conn un))\<rparr>) Conn_rsp ms"])
      (simp_all add: send_rsp_eq Let_def rsp_of_def)
qed

lemma post_req_recvE:
  assumes "unit_ready s u"
  obtains c where
    "post_req_recv E u s = Some (if env_int E (c # sv_trace s) \<noteq> 0 then -1 else 0, rearmed u c s)"
    "payload c = None"
proof -
  from assms obtain un mq ms where un: "sv_units s u = Some un" "conn_req_mr (unit_conn un) = Some mq"
    by (rule unit_readyE)
  then show thesis
    by (intro that [of "recv_call (unit_conn un) Conn_req mq"]) (simp_all add: post_req_recv_eq Let_def)
qed

lemma replied_simps [simp]:
  "sv_server (replied u f c s) = sv_server s" "sv_resources (replied u f c s) = sv_resources s"
  "sv_trace (replied u f c s) = c # sv_trace s" "avail (replied u f c s) = avail s"
  "owner (replied u f c s) = owner s" "pool_inv (replied u f c s) = pool_inv s"
  "v \<noteq> u \<Longrightarrow> sv_units (replied u f c s) v = sv_units s v"
  "unit_ready s u \<Longrightarrow> rsp_of (replied u f c s) u = f (rsp_of s u)"
  by (auto simp: replied_def rsp_of_def elim: unit_readyE)

lemma rearmed_simps [simp]:
  "sv_server (rearmed u c s) = sv_server s" "sv_resources (rearmed u c s) = sv_resources s"
  "sv_trace (rearmed u c s) = c # sv_trace s" "avail (rearmed u c s) = avail s"
  "owner (rearmed u c s) = owner s" "pool_inv (rearmed u c s) = pool_inv s"
  "v \<noteq> u \<Longrightarrow> sv_units (rearmed u c s) v = sv_units s v"
  "rsp_of (rearmed u c s) v = rsp_of s v"
  by (auto simp: rearmed_def rsp_of_def split: option.split)

lemma same_units [simp]:
  "sv_units (replied u f c s) v = None \<longleftrightarrow> sv_units s v = None"
  "sv_units (rearmed u c s) v = None \<longleftrightarrow> sv_units s v = None"
  by (auto simp: replied_def rearmed_def)

lemma units_rearmed [simp]:
  "sv_units s u = Some un \<Longrightarrow>
     sv_units (rearmed u c s) u = Some (un\<lparr>unit_conn := (unit_conn un)\<lparr>conn_req := zero_cmd\<rparr>\<rparr>)"
  by (simp add: rearmed_def)

lemma replied_ready [simp]:
  "unit_ready s v \<Longrightarrow> (\<And>m. wf_cmd m \<Longrightarrow> wf_cmd (f m)) \<Longrightarrow> unit_ready (replied u f c s) v"
  by (simp add: replied_def unit_ready_upd_rsp)

lemma rearmed_ready [simp]: "unit_ready s v \<Longrightarrow> unit_ready (rearmed u c s) v"
  unfolding rearmed_def using unit_ready_upd_req [of s v "\<lambda>_. zero_cmd" u] by simp

section \<open>The contract of a handler\<close>

text \<open>\<open>served\<close>: exactly one message was sent, the reply of type \<open>rop\<close> left in the response buffer.\<close>

definition served :: "rpmem_opcode \<Rightarrow> uid \<Rightarrow> server_state \<Rightarrow> server_state \<Rightarrow> bool" where
  "served rop u s s' \<longleftrightarrow>
     sends (sv_trace s') = rsp_of s' u # sends (sv_trace s) \<and>
     wire_opcode (rsp_of s' u) = opcode_val rop"

definition isolated :: "uid \<Rightarrow> server_state \<Rightarrow> server_state \<Rightarrow> bool" where
  "isolated u s s' \<longleftrightarrow>
     (\<forall>v. v \<noteq> u \<longrightarrow> sv_units s' v = sv_units s v) \<and> (\<forall>v. unit_ready s v \<longrightarrow> unit_ready s' v) \<and>
     (\<forall>v. sv_units s' v = None \<longleftrightarrow> sv_units s v = None) \<and>
     (\<forall>r. res_st_size (sv_resources s' r) = res_st_size (sv_resources s r)) \<and>
     srv_conns_list (sv_server s') = srv_conns_list (sv_server s) \<and>
     srv_total_size (sv_server s') = srv_total_size (sv_server s)"

locale request_handler =
  fixes handler :: "env \<Rightarrow> uid \<Rightarrow> server_state \<Rightarrow> (cint \<times> server_state) option"
    and rop :: rpmem_opcode
    and crash :: "env \<Rightarrow> uid \<Rightarrow> server_state \<Rightarrow> bool"
  assumes crashes: "unit_ready s u \<Longrightarrow> crash E u s \<Longrightarrow> handler E u s = None"
    and serves: "unit_ready s u \<Longrightarrow> \<not> crash E u s \<Longrightarrow>
      \<exists>ret s'. handler E u s = Some (ret, s') \<and> served rop u s s' \<and> isolated u s s' \<and>
        (pool_inv s \<longrightarrow> pool_inv s')"
begin

lemma none_iff: "unit_ready s u \<Longrightarrow> handler E u s = None \<longleftrightarrow> crash E u s"
  using crashes serves by fastforce

lemma result:
  assumes "unit_ready s u" and "handler E u s = Some (ret, s')"
  shows "served rop u s s'" and "isolated u s s'" and "pool_inv s \<Longrightarrow> pool_inv s'"
proof -
  from assms crashes have "\<not> crash E u s" by fastforce
  with serves [OF assms(1) this] assms(2)
  show "served rop u s s'" and "isolated u s s'" and "pool_inv s \<Longrightarrow> pool_inv s'"
    by auto
qed

lemma one_reply:
  assumes "unit_ready s u" and "handler E u s = Some (ret, s')"
  shows "length (sends (sv_trace s')) = Suc (length (sends (sv_trace s)))"
  using result(1) [OF assms] by (simp add: served_def)

lemma other_owner:
  assumes "unit_ready s u" and "handler E u s = Some (ret, s')" and "v \<noteq> u"
  shows "owner s' v = owner s v"
  using result(2) [OF assms(1,2)] assms(3) by (simp add: isolated_def owner_def)

end

section \<open>The five handlers\<close>

lemma isolated_trans [trans]: "isolated u s s' \<Longrightarrow> isolated u s' s'' \<Longrightarrow> isolated u s s''"
  by (simp add: isolated_def)

lemma isolated_frame [simp, intro]:
  "isolated u s s" "isolated u s (set_trace t s)"
  "(\<And>x. res_st_size (f x) = res_st_size x) \<Longrightarrow> isolated u s (upd_res r f s)"
  "isolated u s (rearmed u c s)" "isolated u s (taken u r s)" "isolated u s (pool_give u r s)"
  "(\<And>m. wf_cmd m \<Longrightarrow> wf_cmd (f' m)) \<Longrightarrow> isolated u s (replied u f' c s)"
  by (auto simp: isolated_def)

text \<open>Replying from any state reached meanwhile: the common end of the five proofs.\<close>

lemma send_rsp_serves:
  assumes r: "unit_ready s1 u" and i: "isolated u s s1" and t: "sends (sv_trace s1) = sends (sv_trace s)"
    and f: "\<And>m. wf_cmd m \<Longrightarrow> wf_cmd (f m) \<and> wire_opcode (f m) = opcode_val rop"
    and p: "pool_inv s \<Longrightarrow> pool_inv s1"
  shows "\<exists>ret' s'. send_rsp E u f ret s1 = Some (ret', s') \<and> served rop u s s' \<and> isolated u s s' \<and>
    (pool_inv s \<longrightarrow> pool_inv s')"
proof -
  from r obtain c where c: "send_rsp E u f ret s1 =
      Some (if env_int E (c # sv_trace s1) \<noteq> 0 then -1 else ret, replied u f c s1)"
    "payload c = Some (f (rsp_of s1 u))" by (rule send_rspE)
  have "served rop u s (replied u f c s1)" using r t f c(2) by (simp add: served_def)
  moreover have "isolated u s (replied u f c s1)"
    using i f by (blast intro: isolated_trans isolated_frame)
  ultimately show ?thesis using c(1) p by simp
qed

lemma handle_open_serves:
  assumes "unit_ready s u"
  shows "\<exists>ret s'. rpmem_handle_open E u s = Some (ret, s') \<and> served RPMEM_OPEN_RSP u s s' \<and>
    isolated u s s' \<and> (pool_inv s \<longrightarrow> pool_inv s')"
proof -
  from assms obtain c where c: "post_req_recv E u s =
      Some (if env_int E (c # sv_trace s) \<noteq> 0 then -1 else 0, rearmed u c s)" "payload c = None"
    by (rule post_req_recvE)
  have eq: "rpmem_handle_open E u s =
      send_rsp E u (\<lambda>m. pack_open_rsp (host E) (srv_free_size (sv_server s)) m)
        (if env_int E (c # sv_trace s) \<noteq> 0 then -1 else 0) (rearmed u c s)"
    by (simp add: rpmem_handle_open_def send_rsp_def c(1) Let_def)
  show ?thesis unfolding eq by (rule send_rsp_serves) (simp_all add: assms c(2))
qed

lemma handle_close_serves:
  assumes "unit_ready s u"
  shows "\<exists>ret s'. rpmem_handle_close E u s = Some (ret, s') \<and> served RPMEM_CLOSE_RSP u s s' \<and>
    isolated u s s' \<and> (pool_inv s \<longrightarrow> pool_inv s')"
proof -
  have eq: "rpmem_handle_close E u s = send_rsp E u (\<lambda>m. pack_close_rsp (host E) 0 m) 0 s"
    using assms
    by (auto simp: rpmem_handle_close_def send_rsp_def post_rsp_send_def post_simps Let_def
        elim!: unit_readyE)
  show ?thesis unfolding eq by (rule send_rsp_serves) (simp_all add: assms)
qed

lemma handle_commit_serves:
  assumes "unit_ready s u"
  shows "\<exists>ret s'. rpmem_handle_commit E u s = Some (ret, s') \<and> served RPMEM_COMMIT_RSP u s s' \<and>
    isolated u s s' \<and> (pool_inv s \<longrightarrow> pool_inv s')"
proof -
  from assms obtain c where c: "post_req_recv E u s =
      Some (if env_int E (c # sv_trace s) \<noteq> 0 then -1 else 0, rearmed u c s)" "payload c = None"
    by (rule post_req_recvE)
  from assms obtain un where un: "sv_units s u = Some un" by (auto elim: unit_readyE)
  have iso: "isolated u s (set_trace t (rearmed u c s))" for t
    by (blast intro: isolated_trans isolated_frame)
  show ?thesis
    unfolding rpmem_handle_commit_def
    by (auto simp: un c handle_out_eq srv_call_eq Let_def assms intro!: send_rsp_serves iso)
qed

text \<open>
  The two requests that can make the server dereference a null pointer: mapping on a connection
  that holds a resource already when no further one is large enough, and unmapping on a connection
  that holds none or whose registration failed.
\<close>

definition recv_ok :: "env \<Rightarrow> uid \<Rightarrow> server_state \<Rightarrow> bool" where
  "recv_ok E u s \<longleftrightarrow> (\<exists>s'. post_req_recv E u s = Some (0, s'))"

definition map_crash :: "env \<Rightarrow> uid \<Rightarrow> server_state \<Rightarrow> bool" where
  "map_crash E u s \<longleftrightarrow>
     recv_ok E u s \<and> owner s u \<noteq> None \<and>
     (\<forall>r\<in>set (avail s). \<not> res_fits s (req_len (host E) (req_of s u)) r)"

definition unmap_crash :: "env \<Rightarrow> uid \<Rightarrow> server_state \<Rightarrow> bool" where
  "unmap_crash E u s \<longleftrightarrow>
     recv_ok E u s \<and>
     (case owner s u of None \<Rightarrow> True | Some r \<Rightarrow> res_mr (sv_resources s r) = None)"

lemma handle_map_res_serves:
  assumes r: "unit_ready s1 u" and i: "isolated u s s1" and t: "sends (sv_trace s1) = sends (sv_trace s)"
    and p: "pool_inv s \<Longrightarrow> pool_inv s1"
  shows "\<exists>ret' s'. handle_map_res E u len res s1 = Some (ret', s') \<and> served RPMEM_MAP_RSP u s s' \<and>
    isolated u s s' \<and> (pool_inv s \<longrightarrow> pool_inv s')"
proof -
  from r obtain un where un: "sv_units s1 u = Some un" by (auto elim: unit_readyE)
  have iso: "isolated u s s1 \<Longrightarrow> isolated u s (set_trace t' s1)"
      "isolated u s s1 \<Longrightarrow> (\<And>x. res_st_size (f x) = res_st_size x) \<Longrightarrow>
         isolated u s (upd_res q f s1)" for t' q f s1
    by (blast intro: isolated_trans isolated_frame)+
  show ?thesis
    unfolding handle_map_res_def
    by (auto simp: un handle_out_eq srv_call_eq Let_def t p split: option.split
        intro!: send_rsp_serves r i iso)
qed

lemma handle_map_serves:
  assumes r: "unit_ready s u" and nc: "\<not> map_crash E u s"
  shows "\<exists>ret s'. rpmem_handle_map E u s = Some (ret, s') \<and> served RPMEM_MAP_RSP u s s' \<and>
    isolated u s s' \<and> (pool_inv s \<longrightarrow> pool_inv s')"
proof -
  from r obtain c where c: "post_req_recv E u s =
      Some (if env_int E (c # sv_trace s) \<noteq> 0 then -1 else 0, rearmed u c s)" "payload c = None"
    by (rule post_req_recvE)
  from r obtain un where un: "sv_units s u = Some un" by (auto elim: unit_readyE)
  let ?len = "req_len (host E) (conn_req (unit_conn un))"
  show ?thesis
  proof (cases "env_int E (c # sv_trace s) \<noteq> 0")
    case True
    then show ?thesis
      by (simp add: rpmem_handle_map_def un c Let_def handle_out_eq send_rsp_serves r)
  next
    case False
    then have ok: "recv_ok E u s" using c by (simp add: recv_ok_def)
    show ?thesis
    proof (cases "find_res (sv_resources s) ?len (avail s)")
      case None
      with nc ok un have "unit_res un = None"
        by (auto simp: map_crash_def owner_def req_of_def find_res_None_iff res_fits_def)
      with False None show ?thesis
        by (simp add: rpmem_handle_map_def un c pool_take_eq Let_def handle_out_eq rearmed_def)
          (simp add: rearmed_def [symmetric] send_rsp_serves r c)
    next
      case (Some q)
      have "isolated u s (taken u q (rearmed u c s))" by (blast intro: isolated_trans isolated_frame)
      moreover have "pool_inv s \<Longrightarrow> pool_inv (taken u q (rearmed u c s))"
        using find_res_in [OF Some] r by (intro taken_inv) (auto simp: unit_ready_valid)
      ultimately have "\<exists>ret' s'. handle_map_res E u ?len q (taken u q (rearmed u c s)) = Some (ret', s') \<and>
          served RPMEM_MAP_RSP u s s' \<and> isolated u s s' \<and> (pool_inv s \<longrightarrow> pool_inv s')"
        by (intro handle_map_res_serves) (simp_all add: r c)
      with False Some show ?thesis
        by (simp add: rpmem_handle_map_def un c pool_take_eq Let_def rearmed_def)
    qed
  qed
qed

lemma handle_map_crashes:
  assumes r: "unit_ready s u" and cr: "map_crash E u s"
  shows "rpmem_handle_map E u s = None"
proof -
  from r obtain c where c: "post_req_recv E u s =
      Some (if env_int E (c # sv_trace s) \<noteq> 0 then -1 else 0, rearmed u c s)" "payload c = None"
    by (rule post_req_recvE)
  from r obtain un where un: "sv_units s u = Some un" by (auto elim: unit_readyE)
  from cr c have ok: "env_int E (c # sv_trace s) = 0"
    by (auto simp: map_crash_def recv_ok_def split: if_splits)
  from cr un have "find_res (sv_resources s) (req_len (host E) (conn_req (unit_conn un))) (avail s) = None"
    by (auto simp: map_crash_def find_res_None_iff res_fits_def req_of_def)
  moreover from cr un have "unit_res un \<noteq> None" by (simp add: map_crash_def owner_def)
  ultimately show ?thesis
    using ok by (auto simp: rpmem_handle_map_def un c pool_take_eq Let_def)
qed

lemma handle_unmap_crashes:
  assumes r: "unit_ready s u" and cr: "unmap_crash E u s"
  shows "rpmem_handle_unmap E u s = None"
proof -
  from r obtain c where c: "post_req_recv E u s =
      Some (if env_int E (c # sv_trace s) \<noteq> 0 then -1 else 0, rearmed u c s)" "payload c = None"
    by (rule post_req_recvE)
  from r obtain un where un: "sv_units s u = Some un" by (auto elim: unit_readyE)
  from cr c have "env_int E (c # sv_trace s) = 0"
    by (auto simp: unmap_crash_def recv_ok_def split: if_splits)
  with cr show ?thesis
    by (auto simp: rpmem_handle_unmap_def unmap_crash_def un c owner_def Let_def split: option.splits)
qed

lemma handle_unmap_serves:
  assumes r: "unit_ready s u" and nc: "\<not> unmap_crash E u s"
  shows "\<exists>ret s'. rpmem_handle_unmap E u s = Some (ret, s') \<and> served RPMEM_UNMAP_RSP u s s' \<and>
    isolated u s s' \<and> (pool_inv s \<longrightarrow> pool_inv s')"
proof -
  from r obtain c where c: "post_req_recv E u s =
      Some (if env_int E (c # sv_trace s) \<noteq> 0 then -1 else 0, rearmed u c s)" "payload c = None"
    by (rule post_req_recvE)
  from r obtain un where un: "sv_units s u = Some un" by (auto elim: unit_readyE)
  show ?thesis
  proof (cases "env_int E (c # sv_trace s) \<noteq> 0")
    case True
    then show ?thesis
      by (simp add: rpmem_handle_unmap_def un c Let_def handle_out_eq send_rsp_serves r)
  next
    case False
    with c nc obtain q m where q: "unit_res un = Some q" "res_mr (sv_resources s q) = Some m"
      by (auto simp: unmap_crash_def recv_ok_def owner_def un split: option.splits)
    have iso: "isolated u s s1 \<Longrightarrow> isolated u s (set_trace t' s1)"
      "isolated u s s1 \<Longrightarrow> (\<And>x. res_st_size (f x) = res_st_size x) \<Longrightarrow>
         isolated u s (upd_res q f s1)"
      "isolated u s s1 \<Longrightarrow> isolated u s (pool_give u q s1)" for t' f s1
      by (blast intro: isolated_trans isolated_frame)+
    have own: "owner s u = Some q" using un q by (simp add: owner_def)
    show ?thesis
      using False q
      by (auto simp: rpmem_handle_unmap_def un c r own handle_out_eq srv_call_eq Let_def
          intro!: send_rsp_serves iso give_inv)
  qed
qed

interpretation h_open: request_handler rpmem_handle_open RPMEM_OPEN_RSP "\<lambda>_ _ _. False"
  by unfold_locales (simp_all add: handle_open_serves)

interpretation h_close: request_handler rpmem_handle_close RPMEM_CLOSE_RSP "\<lambda>_ _ _. False"
  by unfold_locales (simp_all add: handle_close_serves)

interpretation h_map: request_handler rpmem_handle_map RPMEM_MAP_RSP map_crash
  by unfold_locales (simp_all add: handle_map_serves handle_map_crashes)

interpretation h_unmap: request_handler rpmem_handle_unmap RPMEM_UNMAP_RSP unmap_crash
  by unfold_locales (simp_all add: handle_unmap_serves handle_unmap_crashes)

interpretation h_commit: request_handler rpmem_handle_commit RPMEM_COMMIT_RSP "\<lambda>_ _ _. False"
  by unfold_locales (simp_all add: handle_commit_serves)

section \<open>The dispatcher\<close>

text \<open>The reply due for an opcode, and the requests that crash the server.\<close>

definition reply_of :: "u32 \<Rightarrow> rpmem_opcode option" where
  "reply_of opc =
     (if opc = opcode_val RPMEM_OPEN_REQ then Some RPMEM_OPEN_RSP
      else if opc = opcode_val RPMEM_CLOSE_REQ then Some RPMEM_CLOSE_RSP
      else if opc = opcode_val RPMEM_MAP_REQ then Some RPMEM_MAP_RSP
      else if opc = opcode_val RPMEM_UNMAP_REQ then Some RPMEM_UNMAP_RSP
      else if opc = opcode_val RPMEM_COMMIT_REQ then Some RPMEM_COMMIT_RSP
      else None)"

definition request_crash :: "env \<Rightarrow> uid \<Rightarrow> server_state \<Rightarrow> bool" where
  "request_crash E u s \<longleftrightarrow>
     (wire_opcode (req_of s u) = opcode_val RPMEM_MAP_REQ \<and> map_crash E u s) \<or>
     (wire_opcode (req_of s u) = opcode_val RPMEM_UNMAP_REQ \<and> unmap_crash E u s)"

lemma rcv_completion_eq:
  assumes "unit_ready s u"
  shows "rpmem_rcv_completion E u s =
     map_option (\<lambda>(_, s'). (0, s'))
       (case reply_of (wire_opcode (req_of s u)) of
          Some RPMEM_OPEN_RSP \<Rightarrow> rpmem_handle_open E u s
        | Some RPMEM_CLOSE_RSP \<Rightarrow> rpmem_handle_close E u s
        | Some RPMEM_MAP_RSP \<Rightarrow> rpmem_handle_map E u s
        | Some RPMEM_UNMAP_RSP \<Rightarrow> rpmem_handle_unmap E u s
        | Some RPMEM_COMMIT_RSP \<Rightarrow> rpmem_handle_commit E u s
        | _ \<Rightarrow> Some (0, s))"
  using assms
  by (auto simp: rpmem_rcv_completion_def reply_of_def req_of_def wf_conn_def map_option_case
      elim!: unit_readyE split: option.split)

lemma rcv_completion_None:
  assumes r: "unit_ready s u"
  shows "rpmem_rcv_completion E u s = None \<longleftrightarrow> request_crash E u s"
proof -
  have "rpmem_handle_open E u s \<noteq> None" "rpmem_handle_close E u s \<noteq> None"
    "rpmem_handle_commit E u s \<noteq> None"
    using h_open.serves [OF r, of E] h_close.serves [OF r, of E] h_commit.serves [OF r, of E] by auto
  moreover have "rpmem_handle_map E u s = None \<longleftrightarrow> map_crash E u s"
      "rpmem_handle_unmap E u s = None \<longleftrightarrow> unmap_crash E u s"
    by (rule h_map.none_iff [OF r], rule h_unmap.none_iff [OF r])
  ultimately show ?thesis
    unfolding rcv_completion_eq [OF r] by (auto simp: request_crash_def reply_of_def)
qed

lemma rcv_completion_result:
  assumes r: "unit_ready s u" and s': "rpmem_rcv_completion E u s = Some (ret, s')"
  shows "ret = 0" and "isolated u s s'" and "pool_inv s \<Longrightarrow> pool_inv s'"
    and "case reply_of (wire_opcode (req_of s u)) of None \<Rightarrow> s' = s | Some rop \<Rightarrow> served rop u s s'"
  using s' h_open.result [OF r] h_close.result [OF r] h_map.result [OF r] h_unmap.result [OF r]
    h_commit.result [OF r]
  unfolding rcv_completion_eq [OF r] by (auto simp: reply_of_def split: if_splits)

text \<open>
  The resources a request may write: the one its connection holds, or one on the free list.
\<close>

definition writes_own :: "uid \<Rightarrow> server_state \<Rightarrow> server_state \<Rightarrow> bool" where
  "writes_own u s s' \<longleftrightarrow>
     (\<forall>r. sv_resources s' r \<noteq> sv_resources s r \<longrightarrow> owner s u = Some r \<or> r \<in> set (avail s))"

lemma send_rsp_resources:
  assumes "unit_ready s u" and "send_rsp E u f ret s = Some (ret', s')"
  shows "sv_resources s' = sv_resources s"
  by (rule send_rspE [OF assms(1), of E f ret]) (use assms(2) in auto)

lemma handle_map_res_writes:
  assumes r: "unit_ready s u" and h: "handle_map_res E u len q s = Some (ret, s')" and "x \<noteq> q"
  shows "sv_resources s' x = sv_resources s x"
proof -
  from r obtain un where un: "sv_units s u = Some un" by (auto elim: unit_readyE)
  show ?thesis
    using h un r \<open>x \<noteq> q\<close>
    by (auto simp: handle_map_res_def srv_call_eq handle_out_eq Let_def split: option.splits if_splits
        dest!: send_rsp_resources [rotated])
qed

lemma handle_map_writes:
  assumes r: "unit_ready s u" and h: "rpmem_handle_map E u s = Some (ret, s')"
  shows "writes_own u s s'"
proof -
  from r obtain c where c: "post_req_recv E u s =
      Some (if env_int E (c # sv_trace s) \<noteq> 0 then -1 else 0, rearmed u c s)"
    by (rule post_req_recvE)
  from r obtain un where un: "sv_units s u = Some un" by (auto elim: unit_readyE)
  let ?len = "req_len (host E) (conn_req (unit_conn un))"
  have rr: "unit_ready (rearmed u c s) u" using r by simp
  show ?thesis
  proof (cases "env_int E (c # sv_trace s) = 0 \<and> find_res (sv_resources s) ?len (avail s) \<noteq> None")
    case True
    then obtain q where q: "find_res (sv_resources s) ?len (avail s) = Some q" by auto
    with h True have m: "handle_map_res E u ?len q (taken u q (rearmed u c s)) = Some (ret, s')"
      by (simp add: rpmem_handle_map_def un c pool_take_eq Let_def)
    have rt: "unit_ready (taken u q (rearmed u c s)) u" using r by simp
    have "x = q" if "sv_resources s' x \<noteq> sv_resources s x" for x
      using that handle_map_res_writes [OF rt m, of x] by auto
    then show ?thesis using find_res_in [OF q] by (auto simp: writes_own_def)
  next
    case False
    with h have "sv_resources s' = sv_resources (rearmed u c s)"
      by (auto simp: rpmem_handle_map_def un c pool_take_eq Let_def handle_out_eq
          dest!: send_rsp_resources [OF rr] split: if_splits)
    then show ?thesis by (simp add: writes_own_def)
  qed
qed

lemma handle_unmap_writes:
  assumes r: "unit_ready s u" and h: "rpmem_handle_unmap E u s = Some (ret, s')"
  shows "writes_own u s s'"
proof -
  from r obtain c where c: "post_req_recv E u s =
      Some (if env_int E (c # sv_trace s) \<noteq> 0 then -1 else 0, rearmed u c s)"
    by (rule post_req_recvE)
  from r obtain un where un: "sv_units s u = Some un" by (auto elim: unit_readyE)
  show ?thesis
    using h r
    by (auto simp: rpmem_handle_unmap_def un c Let_def handle_out_eq srv_call_eq writes_own_def owner_def
        bind_eq_Some_conv split: if_splits dest!: send_rsp_resources [rotated])
qed

lemma handle_commit_writes:
  assumes r: "unit_ready s u" and h: "rpmem_handle_commit E u s = Some (ret, s')"
  shows "sv_resources s' = sv_resources s"
proof -
  from r obtain c where c: "post_req_recv E u s =
      Some (if env_int E (c # sv_trace s) \<noteq> 0 then -1 else 0, rearmed u c s)"
    by (rule post_req_recvE)
  from r obtain un where un: "sv_units s u = Some un" by (auto elim: unit_readyE)
  show ?thesis
    using h r
    by (auto simp: rpmem_handle_commit_def un c Let_def handle_out_eq srv_call_eq split: if_splits
        dest!: send_rsp_resources [rotated])
qed

lemma open_close_writes:
  assumes r: "unit_ready s u"
  shows "rpmem_handle_open E u s = Some (ret, s') \<Longrightarrow> sv_resources s' = sv_resources s"
    and "rpmem_handle_close E u s = Some (ret, s') \<Longrightarrow> sv_resources s' = sv_resources s"
  using r
  by (auto simp: rpmem_handle_open_def rpmem_handle_close_def post_req_recv_eq post_rsp_send_def post_simps
      bind_eq_Some_conv Let_def elim!: unit_readyE)

lemma rcv_completion_writes:
  assumes r: "unit_ready s u" and h: "rpmem_rcv_completion E u s = Some (ret, s')"
  shows "writes_own u s s'"
proof -
  have refl: "writes_own u s s'" if "sv_resources s' = sv_resources s" for s' using that by (simp add: writes_own_def)
  show ?thesis
    using h refl handle_map_writes [OF r] handle_unmap_writes [OF r] handle_commit_writes [OF r]
      open_close_writes [OF r]
    unfolding rcv_completion_eq [OF r] by (auto simp: reply_of_def split: if_splits)
qed

text \<open>In a pool without sharing, a resource another connection holds is therefore left alone.\<close>

lemma held_resource_kept:
  assumes "unit_ready s u" and "rpmem_rcv_completion E u s = Some (ret, s')" and "pool_inv s"
    and "owner s v = Some q" and "v \<noteq> u"
  shows "sv_resources s' q = sv_resources s q"
  using rcv_completion_writes [OF assms(1,2)] assms(3-5)
  unfolding writes_own_def pool_inv_def pool_exclusive_def by metis

section \<open>A concrete server\<close>

text \<open>
  A server with one free resource of 8192 bytes and one connection, on a platform where every call
  succeeds: the instance the witnesses evaluate.
\<close>

definition demo_conn :: "bytes \<Rightarrow> rpmem_conn" where
  "demo_conn m = conn_zero\<lparr>conn_req_mr := Some ok_mr, conn_rsp_mr := Some ok_mr, conn_req := m\<rparr>"

definition demo_server :: rpmem_server where
  "demo_server = \<lparr>srv_ssin = [], srv_cma_id = 1, srv_cma_channel = 2, srv_conns_list = [1],
     srv_res_list = [0], srv_total_size = 8192, srv_in_use_size = 0, srv_free_size = 8192\<rparr>"

definition demo_state :: "bytes \<Rightarrow> server_state" where
  "demo_state m = \<lparr>sv_server = demo_server,
     sv_resources = (\<lambda>_. \<lparr>res_fd = 3, res_st_size = 8192, res_name = Some ''pmem'', res_mr = None,
       res_addr = 0, res_map_len = 0\<rparr>),
     sv_units = (\<lambda>_. None)(1 \<mapsto> \<lparr>unit_conn = demo_conn m, unit_res = None\<rparr>),
     sv_trace = []\<rparr>"

lemma demo_ready: "wf_cmd m \<Longrightarrow> unit_ready (demo_state m) 1"
  by (simp add: unit_ready_def demo_state_def demo_conn_def conn_zero_def wf_conn_def wf_cmd_def)

lemma demo_req [simp]: "req_of (demo_state m) 1 = m"
  by (simp add: req_of_def demo_state_def demo_conn_def)

lemma demo_owner [simp]: "owner (demo_state m) v = None"
  by (simp add: owner_def demo_state_def)

lemma demo_avail [simp]: "avail (demo_state m) = [0]"
  by (simp add: avail_def demo_state_def demo_server_def)

lemma demo_trace [simp]: "sv_trace (demo_state m) = []"
  by (simp add: demo_state_def)

lemma demo_pool_inv: "pool_inv (demo_state m)"
  by (simp add: pool_inv_def pool_exclusive_def pool_accounts_def)
    (simp add: sizes_def int_size_def demo_state_def demo_server_def)

lemma demo_serves:
  assumes "wf_cmd m" and "wire_opcode m \<noteq> opcode_val RPMEM_UNMAP_REQ"
  obtains s' where "rpmem_rcv_completion ok_env 1 (demo_state m) = Some (0, s')"
proof -
  have "\<not> request_crash ok_env 1 (demo_state m)"
    using assms by (simp add: request_crash_def map_crash_def)
  then obtain r s' where "rpmem_rcv_completion ok_env 1 (demo_state m) = Some (r, s')"
    using rcv_completion_None [OF demo_ready [OF assms(1)]] by fastforce
  with rcv_completion_result(1) [OF demo_ready [OF assms(1)] this] show thesis by (auto intro: that)
qed

section \<open>Properties of a request\<close>

text \<open>
  C9: one reply per request, of the matching type. On a connection that is set up, a request whose
  dispatch returns has made the server send exactly one message, and that message is the response
  whose opcode answers the request; a request with any other opcode changes nothing at all.
\<close>
theorem one_matching_reply:
  assumes "unit_ready s u" and "rpmem_rcv_completion E u s = Some (ret, s')"
  shows "ret = 0 \<and>
    (case reply_of (wire_opcode (req_of s u)) of
       Some rop \<Rightarrow> sends (sv_trace s') = rsp_of s' u # sends (sv_trace s) \<and>
         wire_opcode (rsp_of s' u) = opcode_val rop
     | None \<Rightarrow> s' = s)"
  using rcv_completion_result [OF assms] by (simp add: served_def split: option.splits)

theorem one_matching_reply_witness:
  "\<exists>s'. rpmem_rcv_completion ok_env 1 (demo_state (pack_map_req BE zero_cmd 1024)) = Some (0, s') \<and>
     sends (sv_trace s') = [rsp_of s' 1] \<and> wire_opcode (rsp_of s' 1) = 5"
proof -
  let ?m = "pack_map_req BE zero_cmd 1024"
  obtain s' where s': "rpmem_rcv_completion ok_env 1 (demo_state ?m) = Some (0, s')"
    by (rule demo_serves [of ?m]) simp_all
  show ?thesis
    using one_matching_reply [OF demo_ready s'] s' by (auto simp: reply_of_def)
qed

text \<open>
  A request keeps the pool invariant. After any request whose dispatch returns (whatever the
  device, the file system and the memory mapping answered) every resource still has at most one
  user, none in use is in the free list, the free size is the sum of the sizes of the free
  resources and free plus used size is the total.
\<close>
theorem request_keeps_pool_inv:
  assumes "unit_ready s u" and "rpmem_rcv_completion E u s = Some (ret, s')" and "pool_inv s"
  shows "pool_inv s'"
  using rcv_completion_result(3) [OF assms(1,2)] assms(3) by simp

theorem request_keeps_pool_inv_witness:
  "\<exists>s'. rpmem_rcv_completion ok_env 1 (demo_state (pack_map_req BE zero_cmd 1024)) = Some (0, s') \<and>
     pool_inv s'"
proof -
  let ?m = "pack_map_req BE zero_cmd 1024"
  obtain s' where s': "rpmem_rcv_completion ok_env 1 (demo_state ?m) = Some (0, s')"
    by (rule demo_serves [of ?m]) simp_all
  show ?thesis
    using request_keeps_pool_inv [OF demo_ready s' demo_pool_inv] s' by auto
qed

text \<open>
  Connections do not disturb each other. A request on one connection leaves the resource, the
  buffers and every other field of all other connections as they were; the resource another
  connection holds keeps its mapping, its registration and its file, provided the pool was
  consistent; and no request changes the size of a resource or the total.
\<close>
theorem request_isolation:
  assumes "unit_ready s u" and "rpmem_rcv_completion E u s = Some (ret, s')" and "v \<noteq> u" and "pool_inv s"
  shows "sv_units s' v = sv_units s v \<and> unit_ready s' u \<and>
    (\<forall>q. owner s v = Some q \<longrightarrow> sv_resources s' q = sv_resources s q) \<and>
    (\<forall>r. res_st_size (sv_resources s' r) = res_st_size (sv_resources s r)) \<and>
    srv_total_size (sv_server s') = srv_total_size (sv_server s)"
  using rcv_completion_result(2) [OF assms(1,2)] held_resource_kept [OF assms(1,2,4)] assms(1,3)
  by (auto simp: isolated_def)

theorem request_isolation_witness:
  "\<exists>s'. rpmem_rcv_completion ok_env 1 (demo_state (pack_map_req LE zero_cmd 1024)) = Some (0, s') \<and>
     sv_units s' 2 = None"
proof -
  let ?m = "pack_map_req LE zero_cmd 1024"
  obtain s' where s': "rpmem_rcv_completion ok_env 1 (demo_state ?m) = Some (0, s')"
    by (rule demo_serves [of ?m]) simp_all
  show ?thesis
    using request_isolation [OF demo_ready s', of 2] s' demo_pool_inv by (auto simp: demo_state_def)
qed

text \<open>
  C10: exactly which requests crash the server. On a connection that is set up, serving a request
  dereferences a null pointer if and only if the receive buffer could be posted again and the
  request is either a map request on a connection that holds a resource while no free resource is
  large enough, or an unmap request on a connection that holds no registered resource.
\<close>
theorem crash_characterisation:
  assumes "unit_ready s u"
  shows "rpmem_rcv_completion E u s = None \<longleftrightarrow>
    (\<exists>s1. post_req_recv E u s = Some (0, s1)) \<and>
    (wire_opcode (req_of s u) = opcode_val RPMEM_MAP_REQ \<and> owner s u \<noteq> None \<and>
       (\<forall>r\<in>set (avail s). \<not> wire_word (req_of s u) <s int_size (sv_resources s r)) \<or>
     wire_opcode (req_of s u) = opcode_val RPMEM_UNMAP_REQ \<and>
       (case owner s u of None \<Rightarrow> True | Some r \<Rightarrow> res_mr (sv_resources s r) = None))"
  unfolding rcv_completion_None [OF assms]
  using assms
  by (auto simp: request_crash_def map_crash_def unmap_crash_def recv_ok_def res_fits_def)

theorem crash_characterisation_witness:
  "rpmem_rcv_completion ok_env 1 (demo_state (pack_unmap_req LE zero_cmd 1024 65536)) = None"
proof -
  let ?m = "pack_unmap_req LE zero_cmd 1024 65536"
  have r: "unit_ready (demo_state ?m) 1" by (simp add: demo_ready)
  from r obtain c where "post_req_recv ok_env 1 (demo_state ?m) =
      Some (if env_int ok_env (c # sv_trace (demo_state ?m)) \<noteq> 0 then -1 else 0,
        rearmed 1 c (demo_state ?m))"
    by (rule post_req_recvE)
  then have "\<exists>s1. post_req_recv ok_env 1 (demo_state ?m) = Some (0, s1)"
    by (simp add: ok_env_def)
  with crash_characterisation [OF r, of ok_env] show ?thesis by simp
qed

end
