(* ===== verification/Server_Setup.thy ===== *)
theory Server_Setup
  imports Server_Requests
begin

text \<open>
  Setting up a connection on the server: \<^verbatim>\<open>rpmem_conn_init\<close>,
  \<^verbatim>\<open>rpmem_create_qp\<close>, \<^verbatim>\<open>rpmem_connect_request_handler\<close>, the
  connection manager events and the thread that takes them. \<^verbatim>\<open>rpmem_conn_init\<close> is
  an instance of the interface \<open>acquire\<close>.
\<close>

section \<open>Connection resources\<close>

text \<open>The labels of \<^verbatim>\<open>rpmem_conn_init\<close>, each falling through to the next.\<close>

definition ci_pd_error :: "rpmem_conn \<Rightarrow> trace \<Rightarrow> (cint \<times> rpmem_conn \<times> trace) option" where
  "ci_pd_error c t = Some (1, c, Ibv_dealloc_pd (conn_pd c) # t)"

definition ci_recv_mr_error :: "rpmem_conn \<Rightarrow> trace \<Rightarrow> (cint \<times> rpmem_conn \<times> trace) option" where
  "ci_recv_mr_error c t = do { t \<leftarrow> dereg (conn_req_mr c) t; ci_pd_error c t }"

definition ci_send_mr_error :: "rpmem_conn \<Rightarrow> trace \<Rightarrow> (cint \<times> rpmem_conn \<times> trace) option" where
  "ci_send_mr_error c t = do { t \<leftarrow> dereg (conn_rsp_mr c) t; ci_recv_mr_error c t }"

definition ci_comp_error :: "rpmem_conn \<Rightarrow> trace \<Rightarrow> (cint \<times> rpmem_conn \<times> trace) option" where
  "ci_comp_error c t = ci_send_mr_error c (Ibv_destroy_comp_channel (conn_comp_channel c) # t)"

definition ci_cq_error :: "rpmem_conn \<Rightarrow> trace \<Rightarrow> (cint \<times> rpmem_conn \<times> trace) option" where
  "ci_cq_error c t = ci_comp_error c (Ibv_destroy_cq (conn_cq c) # t)"

text \<open>
  \<open>self\<close> is the address of the connection, the argument of the completion thread. The result of
  \<^verbatim>\<open>pthread_create\<close> is not looked at; \<open>conn_cqthread\<close> records whether a thread exists.
\<close>

definition rpmem_conn_init ::
  "env \<Rightarrow> ptr \<Rightarrow> rpmem_conn \<Rightarrow> trace \<Rightarrow> (cint \<times> rpmem_conn \<times> trace) option" where
  "rpmem_conn_init E self c t = do {
     let max_cqe = 128;
     let (pd, t) = call_ptr E (Ibv_alloc_pd (conn_cma_id c)) t;
     let c = c\<lparr>conn_pd := pd\<rparr>;
     if pd = NULL then Some (1, c, t) else do {
     let (mr, t) = call_mr E (Ibv_reg_mr pd Conn_req (of_nat RPMEM_CMD_SIZE) [IBV_ACCESS_LOCAL_WRITE]) t;
     let c = c\<lparr>conn_req_mr := mr\<rparr>;
     if mr = None then ci_pd_error c t else do {
     let (mr, t) = call_mr E (Ibv_reg_mr pd Conn_rsp (of_nat RPMEM_CMD_SIZE) [IBV_ACCESS_LOCAL_WRITE]) t;
     let c = c\<lparr>conn_rsp_mr := mr\<rparr>;
     if mr = None then ci_recv_mr_error c t else do {
     let (ch, t) = call_ptr E (Ibv_create_comp_channel (conn_cma_id c)) t;
     let c = c\<lparr>conn_comp_channel := ch\<rparr>;
     if ch = NULL then ci_send_mr_error c t else do {
     let (cq, t) = call_ptr E (Ibv_create_cq (conn_cma_id c) max_cqe ch) t;
     let c = c\<lparr>conn_cq := cq\<rparr>;
     if cq = NULL then ci_comp_error c t else do {
     let (rc, t) = call_int E (Ibv_req_notify_cq cq) t;
     if rc \<noteq> 0 then ci_cq_error c t else do {
     let (rc, t) = call_int E (Pthread_create CQ_THREAD self) t;
     Some (0, c\<lparr>conn_cqthread := (rc = 0)\<rparr>, t)
     }}}}}}}"

definition rpmem_create_qp :: "env \<Rightarrow> rpmem_conn \<Rightarrow> trace \<Rightarrow> cint \<times> rpmem_conn \<times> trace" where
  "rpmem_create_qp E c t =
     (let caps = \<lparr>cap_max_send_wr = 128, cap_max_recv_wr = 128, cap_max_send_sge = 1,
                   cap_max_recv_sge = 1\<rparr>;
          (ret, t) = call_int E (Rdma_create_qp (conn_cma_id c) (conn_pd c) (conn_cq c) caps) t
      in if ret \<noteq> 0 then (-1, c, t) else (ret, c\<lparr>conn_qp := env_ptr E t\<rparr>, t))"

lemmas ci_defs = dereg_def ci_pd_error_def ci_recv_mr_error_def ci_send_mr_error_def
  ci_comp_error_def ci_cq_error_def

interpretation conn_init: acquire rpmem_conn_init conn_footprint
proof (unfold_locales, goal_cases)
  case (1 E p a t)
  show ?case by (auto simp: rpmem_conn_init_def call_defs ci_defs Let_def)
next
  case (2 E p a t ret a' t')
  then show ?case
    by (auto simp: rpmem_conn_init_def call_defs ci_defs Let_def split: if_splits)
next
  case (3 E p a t a' t')
  then show ?case
    by (auto simp: rpmem_conn_init_def call_defs ci_defs conn_footprint_def Let_def split: if_splits)
qed

section \<open>Connection requests\<close>

definition srv_reject :: "env \<Rightarrow> ptr \<Rightarrow> server_state \<Rightarrow> server_state option" where
  "srv_reject E cma_id s = (let (err, s) = srv_int E (Rdma_reject cma_id) s in Some s)"

definition free_unit :: "env \<Rightarrow> uid \<Rightarrow> server_state \<Rightarrow> server_state" where
  "free_unit E u s =
     (let (_, s) = srv_int E (Free u) s in s\<lparr>sv_units := (sv_units s)(u := None)\<rparr>)"

definition srv_conn_param :: rdma_conn_param where
  "srv_conn_param = \<lparr>cp_responder_resources = 1, cp_initiator_depth = 1, cp_retry_count = 7,
     cp_rnr_retry_count = 7\<rparr>"

text \<open>
  The unit is the structure \<^verbatim>\<open>calloc\<close> returned. The context pointer of the
  identifier, which no later event of the server reads, is left out. After
  \<^verbatim>\<open>rpmem_create_qp\<close> fails the code frees the unit but none of the resources of
  \<^verbatim>\<open>rpmem_conn_init\<close>; the label \<^verbatim>\<open>free_conn\<close> frees nothing.
\<close>

definition rpmem_connect_request_handler ::
  "env \<Rightarrow> rdma_cm_event \<Rightarrow> server_state \<Rightarrow> server_state option" where
  "rpmem_connect_request_handler E ev s = do {
     let cma_id = ev_id ev;
     let (u, s) = srv_ptr E (Calloc_struct Rpmem_server_unit) s;
     if u = NULL then srv_reject E cma_id s else do {
     let c = conn_zero\<lparr>conn_cma_id := cma_id\<rparr>;
     (err, c, t) \<leftarrow> rpmem_conn_init E u c (sv_trace s);
     let s = (set_trace t s)\<lparr>sv_units := (sv_units s)(u \<mapsto> \<lparr>unit_conn = c, unit_res = None\<rparr>)\<rparr>;
     if err \<noteq> 0 then srv_reject E cma_id (free_unit E u s) else do {
     let (err, c, t) = rpmem_create_qp E c (sv_trace s);
     let s = upd_conn u (\<lambda>_. c) (set_trace t s);
     if err \<noteq> 0 then srv_reject E cma_id (free_unit E u s) else do {
     (err, s) \<leftarrow> post_req_recv E u s;
     if err \<noteq> 0 then srv_reject E cma_id s else do {
     let (err, s) = srv_int E (Rdma_accept (conn_cma_id c) srv_conn_param) s;
     if err \<noteq> 0 then srv_reject E cma_id s
     else Some (upd_server (\<lambda>sv. sv\<lparr>srv_conns_list := u # srv_conns_list sv\<rparr>) s)
     }}}}}"

text \<open>All other events are ignored, a disconnection included.\<close>

definition rpmem_server_cma_handler ::
  "env \<Rightarrow> rdma_cm_event \<Rightarrow> server_state \<Rightarrow> (cint \<times> server_state) option" where
  "rpmem_server_cma_handler E ev s =
     (case ev_event ev of
        RDMA_CM_EVENT_CONNECT_REQUEST \<Rightarrow> do {
          s \<leftarrow> rpmem_connect_request_handler E ev s;
          Some (0, s)
        }
      | _ \<Rightarrow> Some (0, s))"

definition server_cm_thread_round :: "env \<Rightarrow> server_state \<Rightarrow> (bool \<times> server_state) option" where
  "server_cm_thread_round E s = do {
     let (ret, s) = srv_int E (Rdma_get_cm_event (srv_cma_channel (sv_server s))) s;
     if ret \<noteq> 0 then Some (False, s) else do {
     let ev = env_event E (sv_trace s);
     (ret, s) \<leftarrow> rpmem_server_cma_handler E ev s;
     if ret \<noteq> 0 then Some (False, s)
     else let (_, s) = srv_int E (Rdma_ack_cm_event ev) s in Some (True, s)
     }}"

primrec server_cm_thread :: "env \<Rightarrow> nat \<Rightarrow> server_state \<Rightarrow> (bool \<times> server_state) option" where
  "server_cm_thread E 0 s = Some (True, s)"
| "server_cm_thread E (Suc n) s = do {
     (running, s) \<leftarrow> server_cm_thread_round E s;
     if running then server_cm_thread E n s else Some (False, s)
   }"

section \<open>The server invariant\<close>

text \<open>
  Every unit in memory can serve requests, every connection in the list is in memory, and the pool
  invariant holds.
\<close>

definition server_inv :: "server_state \<Rightarrow> bool" where
  "server_inv s \<longleftrightarrow>
     pool_inv s \<and> (\<forall>u. sv_units s u \<noteq> None \<longrightarrow> unit_ready s u) \<and>
     set (srv_conns_list (sv_server s)) \<subseteq> dom (sv_units s)"

definition conn_up :: "rpmem_conn \<Rightarrow> bool" where
  "conn_up c \<longleftrightarrow> wf_conn c \<and> conn_req_mr c \<noteq> None \<and> conn_rsp_mr c \<noteq> None"

lemma unit_ready_iff: "unit_ready s u \<longleftrightarrow> (\<exists>un. sv_units s u = Some un \<and> conn_up (unit_conn un))"
  by (auto simp: unit_ready_def conn_up_def split: option.split)

lemma conn_init_up:
  assumes "rpmem_conn_init E p c t = Some (0, c', t')" and "wf_conn c"
  shows "conn_up c'" and "conn_cma_id c' = conn_cma_id c"
  using assms
  by (auto simp: rpmem_conn_init_def conn_up_def wf_conn_def call_defs ci_defs Let_def split: if_splits)

lemma create_qp_up:
  assumes "rpmem_create_qp E c t = (ret, c', t')"
  shows "conn_up c' = conn_up c"
  using assms
  by (auto simp: rpmem_create_qp_def conn_up_def wf_conn_def call_defs Let_def split: if_splits)

lemma post_req_recv_up:
  assumes "sv_units s u = Some un" and "conn_up (unit_conn un)"
  obtains c where
    "post_req_recv E u s = Some (if env_int E (c # sv_trace s) \<noteq> 0 then -1 else 0, rearmed u c s)"
    "live E (c # sv_trace s) = live E (sv_trace s)"
proof -
  from assms obtain mq where mq: "conn_req_mr (unit_conn un) = Some mq" by (auto simp: conn_up_def)
  with assms(1) show thesis
    by (intro that [of "recv_call (unit_conn un) Conn_req mq"]) (simp_all add: post_req_recv_eq Let_def)
qed

text \<open>
  The effect of a connection request on everything but the trace: nothing but the new unit \<open>u\<close>
  changes, it holds no resource, and it enters the list only when it can serve requests.
\<close>

definition connect_effect :: "uid \<Rightarrow> server_state \<Rightarrow> server_state \<Rightarrow> bool" where
  "connect_effect u s s' \<longleftrightarrow>
     sv_resources s' = sv_resources s \<and> (\<forall>v. v \<noteq> u \<longrightarrow> sv_units s' v = sv_units s v) \<and>
     (sv_units s' u = sv_units s u \<and> sv_server s' = sv_server s \<or>
      sv_units s' u = None \<and> sv_server s' = sv_server s \<or>
      (\<exists>c. sv_units s' u = Some \<lparr>unit_conn = c, unit_res = None\<rparr> \<and> conn_up c) \<and>
        (sv_server s' = sv_server s \<or>
         sv_server s' = (sv_server s)\<lparr>srv_conns_list := u # srv_conns_list (sv_server s)\<rparr>))"

lemma wf_conn_cma [simp]: "wf_conn (c\<lparr>conn_cma_id := i\<rparr>) = wf_conn c"
  by (simp add: wf_conn_def)

lemma conn_up_req [simp]: "conn_up c \<Longrightarrow> conn_up (c\<lparr>conn_req := zero_cmd\<rparr>)"
  by (simp add: conn_up_def)

lemma connect_request_effect:
  assumes u: "u = env_ptr E (Calloc_struct Rpmem_server_unit # sv_trace s)"
  shows "\<exists>s'. rpmem_connect_request_handler E ev s = Some s' \<and> connect_effect u s s'"
proof (cases "u = NULL")
  case True
  with u show ?thesis
    by (simp add: rpmem_connect_request_handler_def srv_reject_def srv_call_eq connect_effect_def Let_def)
next
  case False
  let ?s0 = "set_trace (Calloc_struct Rpmem_server_unit # sv_trace s) s"
  obtain err c t where i: "rpmem_conn_init E u (conn_zero\<lparr>conn_cma_id := ev_id ev\<rparr>) (sv_trace ?s0) =
      Some (err, c, t)" using conn_init.returns by blast
  note base = rpmem_connect_request_handler_def srv_reject_def free_unit_def srv_call_eq
    connect_effect_def Let_def False u [symmetric] i [simplified]
  show ?thesis
  proof (cases "err = 0")
    case nz: False
    then show ?thesis by (simp add: base)
  next
    case True
    with i have up: "conn_up c" by (auto intro: conn_init_up)
    obtain err2 c2 t2 where q: "rpmem_create_qp E c t = (err2, c2, t2)"
      by (cases "rpmem_create_qp E c t") auto
    from create_qp_up [OF q] up have up2: "conn_up c2" by simp
    let ?s2 = "upd_conn u (\<lambda>_. c2) (set_trace t2
      ((set_trace t ?s0)\<lparr>sv_units := (sv_units s)(u \<mapsto> \<lparr>unit_conn = c, unit_res = None\<rparr>)\<rparr>))"
    have "\<exists>d. post_req_recv E u ?s2 =
        Some (if env_int E (d # sv_trace ?s2) \<noteq> 0 then -1 else 0, rearmed u d ?s2)"
      by (rule post_req_recv_up [of ?s2 u "\<lparr>unit_conn = c2, unit_res = None\<rparr>"])
        (simp, simp add: up2, rule exI)
    then obtain d where d: "post_req_recv E u ?s2 =
        Some (if env_int E (d # sv_trace ?s2) \<noteq> 0 then -1 else 0, rearmed u d ?s2)" ..
    show ?thesis using True q up2 d [simplified] by (simp add: base)
  qed
qed

lemma connect_handler_effect:
  "rpmem_connect_request_handler E ev s = Some s' \<Longrightarrow>
     connect_effect (env_ptr E (Calloc_struct Rpmem_server_unit # sv_trace s)) s s'"
  using connect_request_effect [OF refl, of E ev s] by auto

text \<open>The part of the invariant that is not about the pool: the connections in memory.\<close>

definition units_inv :: "server_state \<Rightarrow> bool" where
  "units_inv s \<longleftrightarrow>
     (\<forall>u. sv_units s u \<noteq> None \<longrightarrow> unit_ready s u) \<and> set (srv_conns_list (sv_server s)) \<subseteq> dom (sv_units s)"

lemma server_inv_iff: "server_inv s \<longleftrightarrow> pool_inv s \<and> units_inv s"
  by (simp add: server_inv_def units_inv_def)

lemma connect_effect_units:
  assumes "connect_effect u s s'" and "units_inv s" and "sv_units s u = None"
  shows "units_inv s'"
proof -
  have "unit_ready s' v" if "sv_units s' v \<noteq> None" for v
    using assms that by (cases "v = u") (auto simp: connect_effect_def units_inv_def unit_ready_iff)
  moreover have "set (srv_conns_list (sv_server s')) \<subseteq> dom (sv_units s')"
  proof
    fix v assume v: "v \<in> set (srv_conns_list (sv_server s'))"
    have old: "w \<noteq> u \<and> w \<in> dom (sv_units s)" if "w \<in> set (srv_conns_list (sv_server s))" for w
      using assms(2,3) that by (auto simp: units_inv_def)
    from v show "v \<in> dom (sv_units s')"
      using assms(1) old by (fastforce simp: connect_effect_def)
  qed
  ultimately show ?thesis by (simp add: units_inv_def)
qed

lemma connect_effect_inv:
  assumes "connect_effect u s s'" and "server_inv s" and "sv_units s u = None"
  shows "server_inv s'"
proof -
  have own: "owner s' v = None \<or> owner s' v = owner s v" for v
    using assms(1) by (cases "v = u") (auto simp: connect_effect_def owner_def)
  have "same_counts s s'"
    using assms(1) by (auto simp: connect_effect_def same_counts_def avail_def)
  then have "pool_inv s'"
    using assms(2) own pool_inv_mono by (auto simp: server_inv_iff)
  with connect_effect_units [OF assms(1)] assms(2,3) show ?thesis by (simp add: server_inv_iff)
qed

section \<open>Properties of connection set-up\<close>


text \<open>
  C31: a connection request that cannot be initialised leaves no trace in the server. When no unit
  can be allocated, or its resources cannot be obtained, the request is rejected with every
  resource returned and with the units, the pool and the connection list as before.
\<close>
theorem connect_failure_clean:
  assumes "u = env_ptr E (Calloc_struct Rpmem_server_unit # sv_trace s)" and "sv_units s u = None"
    and "rpmem_connect_request_handler E ev s = Some s'"
    and "u = NULL \<or>
      (\<exists>err c t. rpmem_conn_init E u (conn_zero\<lparr>conn_cma_id := ev_id ev\<rparr>)
         (Calloc_struct Rpmem_server_unit # sv_trace s) = Some (err, c, t) \<and> err \<noteq> 0)"
  shows "live E (sv_trace s') = live E (sv_trace s) \<and> sv_units s' = sv_units s \<and>
    sv_server s' = sv_server s \<and> hd (sv_trace s') = Rdma_reject (ev_id ev)"
proof (cases "u = NULL")
  case True
  with assms show ?thesis
    by (auto simp: rpmem_connect_request_handler_def srv_reject_def srv_call_eq Let_def)
next
  case False
  with assms(4) obtain err c t where
    i: "rpmem_conn_init E u (conn_zero\<lparr>conn_cma_id := ev_id ev\<rparr>)
         (Calloc_struct Rpmem_server_unit # sv_trace s) = Some (err, c, t)" "err \<noteq> 0" by auto
  have "live E t = live E (sv_trace s) + {#H_mem u#}"
    using conn_init.rollback [OF i] False assms(1) by simp
  moreover have "s' = set_trace (Rdma_reject (ev_id ev) # Free u # t)
      (s\<lparr>sv_units := (sv_units s)(u := None)\<rparr>)"
    using assms(1,3) False i
    by (auto simp: rpmem_connect_request_handler_def srv_reject_def free_unit_def srv_call_eq Let_def
        set_trace_def)
  ultimately show ?thesis using assms(2) False by auto
qed

theorem connect_failure_clean_witness:
  "let E = ok_env\<lparr>env_mr := (\<lambda>_. None)\<rparr>; s = demo_state zero_cmd;
       ev = \<lparr>ev_id = 9, ev_event = RDMA_CM_EVENT_CONNECT_REQUEST\<rparr>
   in \<exists>s'. rpmem_connect_request_handler E ev s = Some s' \<and>
        live E (sv_trace s') = live E (sv_trace s) \<and> hd (sv_trace s') = Rdma_reject 9"
proof -
  let ?E = "ok_env\<lparr>env_mr := (\<lambda>_. None)\<rparr>" and ?s = "demo_state zero_cmd"
    and ?ev = "\<lparr>ev_id = 9, ev_event = RDMA_CM_EVENT_CONNECT_REQUEST\<rparr>"
  have u: "(65536::ptr) = env_ptr ?E (Calloc_struct Rpmem_server_unit # sv_trace ?s)"
    by (simp add: ok_env_def)
  have n: "sv_units ?s 65536 = None" by (simp add: demo_state_def)
  have i: "\<exists>err c t. rpmem_conn_init ?E 65536 (conn_zero\<lparr>conn_cma_id := ev_id ?ev\<rparr>)
      (Calloc_struct Rpmem_server_unit # sv_trace ?s) = Some (err, c, t) \<and> err \<noteq> 0"
    by (simp add: rpmem_conn_init_def call_defs ci_defs ok_env_def Let_def)
  obtain s' where s': "rpmem_connect_request_handler ?E ?ev ?s = Some s'"
    using connect_request_effect [OF u] by blast
  show ?thesis
    using connect_failure_clean [OF u n s' disjI2 [OF i]] s' by (simp add: Let_def)
qed

text \<open>
  A failed queue pair leaks the connection. When \<open>rpmem_create_qp\<close> fails the handler frees the
  unit and rejects the request, but everything \<open>rpmem_conn_init\<close> obtained stays allocated, the
  completion thread included, which keeps running on the freed unit.
\<close>
theorem create_qp_failure_leaks:
  assumes "u = env_ptr E (Calloc_struct Rpmem_server_unit # sv_trace s)" and "u \<noteq> NULL"
    and "rpmem_conn_init E u (conn_zero\<lparr>conn_cma_id := ev_id ev\<rparr>)
      (Calloc_struct Rpmem_server_unit # sv_trace s) = Some (0, c, t)"
    and "fst (rpmem_create_qp E c t) \<noteq> 0"
  shows "\<exists>s'. rpmem_connect_request_handler E ev s = Some s' \<and> sv_units s' u = None \<and>
    live E (sv_trace s') = live E (sv_trace s) + conn_footprint u c"
proof -
  obtain err2 c2 t2 where q: "rpmem_create_qp E c t = (err2, c2, t2)"
    by (cases "rpmem_create_qp E c t") auto
  with assms(4) have "err2 \<noteq> 0" and t2: "live E t2 = live E t"
    by (auto simp: rpmem_create_qp_def call_defs Let_def split: if_splits)
  moreover have "live E t = live E (sv_trace s) + {#H_mem u#} + conn_footprint u c"
    using conn_init.acquired [OF assms(3)] assms(1,2) by simp
  ultimately show ?thesis
    using assms q
    by (simp add: rpmem_connect_request_handler_def srv_reject_def free_unit_def srv_call_eq Let_def)
qed

theorem create_qp_failure_leaks_witness:
  "let E = ok_env\<lparr>env_int := (\<lambda>t. case t of Rdma_create_qp _ _ _ _ # _ \<Rightarrow> -1 | _ \<Rightarrow> 0)\<rparr>;
       ev = \<lparr>ev_id = 9, ev_event = RDMA_CM_EVENT_CONNECT_REQUEST\<rparr>
   in \<exists>s'. rpmem_connect_request_handler E ev (demo_state zero_cmd) = Some s' \<and>
        H_pd 65536 \<in># live E (sv_trace s') \<and> H_thread CQ_THREAD 65536 \<in># live E (sv_trace s')"
proof -
  let ?E = "ok_env\<lparr>env_int := (\<lambda>t. case t of Rdma_create_qp _ _ _ _ # _ \<Rightarrow> -1 | _ \<Rightarrow> 0)\<rparr>"
    and ?s = "demo_state zero_cmd" and ?ev = "\<lparr>ev_id = 9, ev_event = RDMA_CM_EVENT_CONNECT_REQUEST\<rparr>"
  have u: "(65536::ptr) = env_ptr ?E (Calloc_struct Rpmem_server_unit # sv_trace ?s)"
    by (simp add: ok_env_def)
  obtain c t where i: "rpmem_conn_init ?E 65536 (conn_zero\<lparr>conn_cma_id := ev_id ?ev\<rparr>)
      (Calloc_struct Rpmem_server_unit # sv_trace ?s) = Some (0, c, t)"
    and c: "conn_pd c = 65536" "conn_cqthread c"
    by (simp add: rpmem_conn_init_def call_defs ci_defs ok_env_def Let_def)
  have "fst (rpmem_create_qp ?E c t) \<noteq> 0" by (simp add: rpmem_create_qp_def call_defs Let_def)
  from create_qp_failure_leaks [OF u _ i this] c show ?thesis
    by (auto simp: Let_def conn_footprint_def)
qed

end
