(* ===== verification/Server_Spec.thy ===== *)
theory Server_Spec
  imports Server_Requests
begin

text \<open>
  The abstract specification of the resource pool and the refinement of the request handlers to it.
  Abstractly the pool is the list of free resources with the assignment of resources to
  connections, and a request does one of three things to it: nothing, give a free resource to the
  requesting connection, or take that connection's resource back. The second half gives the
  functional behaviour of the map, unmap and commit handlers on the branches where they succeed.
\<close>

section \<open>The abstract pool\<close>

type_synonym pool = "rid list \<times> (uid \<rightharpoonup> rid)"

datatype pool_op = Skip | Take rid | Give rid

fun pool_apply :: "pool_op \<Rightarrow> uid \<Rightarrow> pool \<Rightarrow> pool" where
  "pool_apply Skip u p = p"
| "pool_apply (Take r) u (F, A) = (remove1 r F, A(u \<mapsto> r))"
| "pool_apply (Give r) u (F, A) = (r # F, A(u := None))"

fun pool_allowed :: "pool_op \<Rightarrow> uid \<Rightarrow> pool \<Rightarrow> bool" where
  "pool_allowed Skip u p = True"
| "pool_allowed (Take r) u (F, A) = (r \<in> set F)"
| "pool_allowed (Give r) u (F, A) = (A u = Some r)"

definition abs_pool :: "server_state \<Rightarrow> pool" where
  "abs_pool s = (avail s, owner s)"

lemma abs_pool_frame [simp]:
  "abs_pool (set_trace t s) = abs_pool s" "abs_pool (upd_conn u f s) = abs_pool s"
  "abs_pool (upd_res r g s) = abs_pool s" "abs_pool (replied u h c s) = abs_pool s"
  "abs_pool (rearmed u c s) = abs_pool s"
  by (simp_all add: abs_pool_def)

lemma abs_pool_taken: "sv_units s u \<noteq> None \<Longrightarrow> abs_pool (taken u r s) = pool_apply (Take r) u (abs_pool s)"
  by (auto simp: abs_pool_def owner_taken)

lemma abs_pool_give: "abs_pool (pool_give u r s) = pool_apply (Give r) u (abs_pool s)"
  by (auto simp: abs_pool_def owner_give)

text \<open>
  The abstract pool is a conserved quantity: no operation loses or duplicates a resource, except
  that a connection which is given a second one forgets the first.
\<close>

definition held :: "pool \<Rightarrow> rid set" where
  "held p = set (fst p) \<union> ran (snd p)"

lemma ran_upd_None:
  assumes "A u = Some r" and "\<And>v. A v = Some r \<Longrightarrow> v = u"
  shows "insert r (ran (A(u := None))) = ran A"
proof
  show "insert r (ran (A(u := None))) \<subseteq> ran A"
    using assms(1) by (auto simp: ran_def split: if_splits)
  show "ran A \<subseteq> insert r (ran (A(u := None)))"
  proof
    fix q assume "q \<in> ran A"
    then obtain v where "A v = Some q" by (auto simp: ran_def)
    with assms(1) show "q \<in> insert r (ran (A(u := None)))" by (cases "v = u") (auto simp: ran_def)
  qed
qed

lemma held_take:
  assumes "r \<in> set F" and "distinct F" and "A u = None"
  shows "held (pool_apply (Take r) u (F, A)) = held (F, A)"
  using assms by (auto simp: held_def)

lemma held_give:
  assumes "A u = Some r" and "\<And>v. A v = Some r \<Longrightarrow> v = u"
  shows "held (pool_apply (Give r) u (F, A)) = held (F, A)"
  using ran_upd_None [of A u r, OF assms] by (auto simp: held_def)

section \<open>Handlers that refine the pool\<close>

locale pool_handler = request_handler +
  fixes may :: "env \<Rightarrow> uid \<Rightarrow> server_state \<Rightarrow> pool_op \<Rightarrow> bool"
  assumes refines: "unit_ready s u \<Longrightarrow> handler E u s = Some (ret, s') \<Longrightarrow>
    \<exists>opn. may E u s opn \<and> pool_allowed opn u (abs_pool s) \<and> abs_pool s' = pool_apply opn u (abs_pool s)"
begin

lemma unchanged:
  assumes "unit_ready s u" and "handler E u s = Some (ret, s')" and "\<And>opn. may E u s opn \<Longrightarrow> opn = Skip"
  shows "avail s' = avail s" and "owner s' = owner s"
proof -
  from refines [OF assms(1,2)] assms(3) have "abs_pool s' = abs_pool s"
    by (metis pool_apply.simps(1))
  then show "avail s' = avail s" and "owner s' = owner s" by (simp_all add: abs_pool_def)
qed

lemma only_own:
  assumes "unit_ready s u" and "handler E u s = Some (ret, s')" and "v \<noteq> u"
  shows "snd (abs_pool s') v = snd (abs_pool s) v"
  using other_owner [OF assms] by (simp add: abs_pool_def)

end

lemma send_rsp_abs:
  assumes "unit_ready s u" and "send_rsp E u f ret s = Some (ret', s')"
  shows "abs_pool s' = abs_pool s"
proof -
  from assms(1) obtain c where "send_rsp E u f ret s =
      Some (if env_int E (c # sv_trace s) \<noteq> 0 then -1 else ret, replied u f c s)"
    by (rule send_rspE)
  with assms(2) show ?thesis by auto
qed

lemma handle_map_res_abs:
  assumes r: "unit_ready s u" and h: "handle_map_res E u len q s = Some (ret, s')"
  shows "abs_pool s' = abs_pool s"
proof -
  from r obtain un where "sv_units s u = Some un" by (auto elim: unit_readyE)
  with h r show ?thesis
    by (auto simp: handle_map_res_def handle_out_eq srv_call_eq Let_def split: option.splits if_splits
        dest!: send_rsp_abs [rotated])
qed

definition may_map :: "env \<Rightarrow> uid \<Rightarrow> server_state \<Rightarrow> pool_op \<Rightarrow> bool" where
  "may_map E u s opn =
     (case opn of Skip \<Rightarrow> True | Take r \<Rightarrow> res_fits s (req_len (host E) (req_of s u)) r | Give _ \<Rightarrow> False)"

definition may_unmap :: "env \<Rightarrow> uid \<Rightarrow> server_state \<Rightarrow> pool_op \<Rightarrow> bool" where
  "may_unmap E u s opn = (case opn of Take _ \<Rightarrow> False | _ \<Rightarrow> True)"

definition may_skip :: "env \<Rightarrow> uid \<Rightarrow> server_state \<Rightarrow> pool_op \<Rightarrow> bool" where
  "may_skip E u s opn = (opn = Skip)"

lemma handle_map_refines:
  assumes r: "unit_ready s u" and h: "rpmem_handle_map E u s = Some (ret, s')"
  shows "\<exists>opn. may_map E u s opn \<and> pool_allowed opn u (abs_pool s) \<and>
    abs_pool s' = pool_apply opn u (abs_pool s)"
proof -
  from r obtain c where c: "post_req_recv E u s =
      Some (if env_int E (c # sv_trace s) \<noteq> 0 then -1 else 0, rearmed u c s)"
    by (rule post_req_recvE)
  from r obtain un where un: "sv_units s u = Some un" by (auto elim: unit_readyE)
  let ?len = "req_len (host E) (conn_req (unit_conn un))"
  have rr: "unit_ready (rearmed u c s) u" using r by simp
  have skip: ?thesis if "abs_pool s' = abs_pool s"
    using that by (intro exI [of _ Skip]) (simp add: may_map_def)
  show ?thesis
  proof (cases "find_res (sv_resources s) ?len (avail s)")
    case None
    with h have "abs_pool s' = abs_pool s"
      by (auto simp: rpmem_handle_map_def un c pool_take_eq Let_def handle_out_eq
          dest!: send_rsp_abs [OF rr] split: if_splits)
    then show ?thesis by (rule skip)
  next
    case (Some q)
    show ?thesis
    proof (cases "env_int E (c # sv_trace s) \<noteq> 0")
      case True
      with h have "abs_pool s' = abs_pool s"
        by (auto simp: rpmem_handle_map_def un c Let_def handle_out_eq dest!: send_rsp_abs [OF rr])
      then show ?thesis by (rule skip)
    next
      case False
      with h Some have "handle_map_res E u ?len q (taken u q (rearmed u c s)) = Some (ret, s')"
        by (simp add: rpmem_handle_map_def un c pool_take_eq Let_def)
      from handle_map_res_abs [OF _ this] have "abs_pool s' = pool_apply (Take q) u (abs_pool s)"
        using r unit_ready_valid [OF rr] by (simp add: abs_pool_taken)
      with find_res_in [OF Some] show ?thesis
        by (intro exI [of _ "Take q"])
          (simp add: may_map_def res_fits_def req_of_def un abs_pool_def)
    qed
  qed
qed

lemma handle_unmap_refines:
  assumes r: "unit_ready s u" and h: "rpmem_handle_unmap E u s = Some (ret, s')"
  shows "\<exists>opn. may_unmap E u s opn \<and> pool_allowed opn u (abs_pool s) \<and>
    abs_pool s' = pool_apply opn u (abs_pool s)"
proof -
  from r obtain c where c: "post_req_recv E u s =
      Some (if env_int E (c # sv_trace s) \<noteq> 0 then -1 else 0, rearmed u c s)"
    by (rule post_req_recvE)
  from r obtain un where un: "sv_units s u = Some un" by (auto elim: unit_readyE)
  have "abs_pool s' = abs_pool s \<or>
      (\<exists>q. unit_res un = Some q \<and> abs_pool s' = pool_apply (Give q) u (abs_pool s))"
    using h r
    by (auto simp: rpmem_handle_unmap_def un c Let_def handle_out_eq srv_call_eq abs_pool_give
        bind_eq_Some_conv split: if_splits dest!: send_rsp_abs [rotated])
  then show ?thesis
  proof (elim disjE exE conjE)
    assume "abs_pool s' = abs_pool s"
    then show ?thesis by (intro exI [of _ Skip]) (simp add: may_unmap_def)
  next
    fix q assume "unit_res un = Some q" "abs_pool s' = pool_apply (Give q) u (abs_pool s)"
    then show ?thesis
      by (intro exI [of _ "Give q"]) (simp add: may_unmap_def abs_pool_def owner_def un)
  qed
qed

lemma skip_handlers_abs:
  assumes r: "unit_ready s u"
  shows "rpmem_handle_open E u s = Some (ret, s') \<Longrightarrow> abs_pool s' = abs_pool s"
    and "rpmem_handle_close E u s = Some (ret, s') \<Longrightarrow> abs_pool s' = abs_pool s"
    and "rpmem_handle_commit E u s = Some (ret, s') \<Longrightarrow> abs_pool s' = abs_pool s"
proof -
  from r obtain c where c: "post_req_recv E u s =
      Some (if env_int E (c # sv_trace s) \<noteq> 0 then -1 else 0, rearmed u c s)"
    by (rule post_req_recvE)
  from r obtain un mq ms where un: "sv_units s u = Some un" "conn_rsp_mr (unit_conn un) = Some ms"
    by (rule unit_readyE)
  have rr: "unit_ready (set_trace t (rearmed u c s)) u" for t using r by simp
  show "rpmem_handle_close E u s = Some (ret, s') \<Longrightarrow> abs_pool s' = abs_pool s"
    by (auto simp: rpmem_handle_close_def post_rsp_send_def post_simps Let_def un)
  show "rpmem_handle_open E u s = Some (ret, s') \<Longrightarrow> abs_pool s' = abs_pool s"
    by (auto simp: rpmem_handle_open_def c post_rsp_send_def post_simps Let_def un bind_eq_Some_conv)
  show "rpmem_handle_commit E u s = Some (ret, s') \<Longrightarrow> abs_pool s' = abs_pool s"
    using rr r
    by (auto simp: rpmem_handle_commit_def c un Let_def handle_out_eq srv_call_eq split: if_splits
        dest!: send_rsp_abs [rotated])
qed

interpretation p_open: pool_handler rpmem_handle_open RPMEM_OPEN_RSP "\<lambda>_ _ _. False" may_skip
  by unfold_locales (auto simp: may_skip_def skip_handlers_abs)

interpretation p_close: pool_handler rpmem_handle_close RPMEM_CLOSE_RSP "\<lambda>_ _ _. False" may_skip
  by unfold_locales (auto simp: may_skip_def skip_handlers_abs)

interpretation p_map: pool_handler rpmem_handle_map RPMEM_MAP_RSP map_crash may_map
  by unfold_locales (rule handle_map_refines)

interpretation p_unmap: pool_handler rpmem_handle_unmap RPMEM_UNMAP_RSP unmap_crash may_unmap
  by unfold_locales (rule handle_unmap_refines)

interpretation p_commit: pool_handler rpmem_handle_commit RPMEM_COMMIT_RSP "\<lambda>_ _ _. False" may_skip
  by unfold_locales (auto simp: may_skip_def skip_handlers_abs)

section \<open>Properties\<close>

lemma rcv_completion_refines:
  assumes r: "unit_ready s u" and h: "rpmem_rcv_completion E u s = Some (ret, s')"
  shows "\<exists>opn. pool_allowed opn u (abs_pool s) \<and> abs_pool s' = pool_apply opn u (abs_pool s) \<and>
    (case opn of
       Skip \<Rightarrow> True
     | Take q \<Rightarrow> wire_opcode (req_of s u) = opcode_val RPMEM_MAP_REQ \<and>
         wire_word (req_of s u) <s int_size (sv_resources s q)
     | Give q \<Rightarrow> wire_opcode (req_of s u) = opcode_val RPMEM_UNMAP_REQ)"
proof -
  let ?opc = "wire_opcode (req_of s u)"
  have skip: ?thesis if "abs_pool s' = abs_pool s"
    using that by (intro exI [of _ Skip]) simp
  consider "?opc = opcode_val RPMEM_MAP_REQ" | "?opc = opcode_val RPMEM_UNMAP_REQ"
    | "?opc \<noteq> opcode_val RPMEM_MAP_REQ" "?opc \<noteq> opcode_val RPMEM_UNMAP_REQ" by blast
  then show ?thesis
  proof cases
    case 1
    with h obtain ret1 where "rpmem_handle_map E u s = Some (ret1, s')"
      unfolding rcv_completion_eq [OF r] by (auto simp: reply_of_def)
    from p_map.refines [OF r this] obtain opn where o: "may_map E u s opn"
      "pool_allowed opn u (abs_pool s)" "abs_pool s' = pool_apply opn u (abs_pool s)" by blast
    with 1 r show ?thesis
      by (intro exI [of _ opn]) (simp add: may_map_def res_fits_def split: pool_op.splits)
  next
    case 2
    with h obtain ret1 where "rpmem_handle_unmap E u s = Some (ret1, s')"
      unfolding rcv_completion_eq [OF r] by (auto simp: reply_of_def)
    from p_unmap.refines [OF r this] obtain opn where o: "may_unmap E u s opn"
      "pool_allowed opn u (abs_pool s)" "abs_pool s' = pool_apply opn u (abs_pool s)" by blast
    with 2 show ?thesis
      by (intro exI [of _ opn]) (simp add: may_unmap_def split: pool_op.splits)
  next
    case 3
    with h have "abs_pool s' = abs_pool s"
      unfolding rcv_completion_eq [OF r]
      by (auto simp: reply_of_def skip_handlers_abs [OF r] split: if_splits)
    then show ?thesis by (rule skip)
  qed
qed

text \<open>
  C7: requests refine the abstract pool. Whatever the platform answers, a request either leaves
  the free list and the assignment of resources alone, or it is a map request that moves one free
  resource, larger than the requested length, to the requesting connection, or it is an unmap
  request that puts the resource of the requesting connection back at the head of the free list.
\<close>
theorem requests_refine_pool:
  assumes "unit_ready s u" and "rpmem_rcv_completion E u s = Some (ret, s')"
  shows "\<exists>opn. pool_allowed opn u (abs_pool s) \<and> abs_pool s' = pool_apply opn u (abs_pool s) \<and>
    (case opn of
       Skip \<Rightarrow> True
     | Take q \<Rightarrow> wire_opcode (req_of s u) = opcode_val RPMEM_MAP_REQ \<and>
         wire_word (req_of s u) <s int_size (sv_resources s q)
     | Give q \<Rightarrow> wire_opcode (req_of s u) = opcode_val RPMEM_UNMAP_REQ)"
  using assms by (rule rcv_completion_refines)

theorem requests_refine_pool_witness:
  "\<exists>s' opn. rpmem_rcv_completion ok_env 1 (demo_state (pack_map_req BE zero_cmd 1024)) = Some (0, s') \<and>
     abs_pool s' = pool_apply opn 1 ([0], \<lambda>_. None)"
proof -
  let ?m = "pack_map_req BE zero_cmd 1024"
  obtain s' where s': "rpmem_rcv_completion ok_env 1 (demo_state ?m) = Some (0, s')"
    by (rule demo_serves [of ?m]) simp_all
  have "abs_pool (demo_state ?m) = ([0], \<lambda>_. None)" by (simp add: abs_pool_def fun_eq_iff)
  with requests_refine_pool [OF demo_ready s'] s' show ?thesis by auto
qed

section \<open>Mapping and unmapping\<close>

text \<open>The calls of a map request that gets its resource, newest first, up to the reply.\<close>

definition map_trace :: "env \<Rightarrow> rpmem_conn \<Rightarrow> cint \<Rightarrow> cint \<Rightarrow> u64 \<Rightarrow> call \<Rightarrow> trace \<Rightarrow> trace" where
  "map_trace E c fd len addr recv t =
     [Ibv_reg_mr (conn_pd c) (Vaddr addr) (scast len)
        [IBV_ACCESS_LOCAL_WRITE, IBV_ACCESS_REMOTE_WRITE, IBV_ACCESS_REMOTE_READ],
      Mmap fd (scast len) MAP_PRIVATE, Posix_fallocate fd (scast len), recv] @ t"

text \<open>The platform grants the mapping at \<open>addr\<close> and registers it as \<open>mr\<close>.\<close>

definition map_granted ::
  "env \<Rightarrow> rpmem_conn \<Rightarrow> cint \<Rightarrow> cint \<Rightarrow> u64 \<Rightarrow> ibv_mr \<Rightarrow> call \<Rightarrow> trace \<Rightarrow> bool" where
  "map_granted E c fd len addr mr recv t \<longleftrightarrow>
     (let t4 = map_trace E c fd len addr recv t in
      addr \<noteq> MAP_FAILED \<and> env_int E (recv # t) = 0 \<and> env_ptr E (tl t4) = addr \<and>
      env_mr E t4 = Some mr)"

lemma rearmed_rcv [simp]: "sv_units s u = Some un \<Longrightarrow>
    sv_units (taken u r (rearmed u c s)) u =
      Some (un\<lparr>unit_conn := (unit_conn un)\<lparr>conn_req := zero_cmd\<rparr>, unit_res := Some r\<rparr>)"
  by simp

lemma set_trace_upd:
  "upd_res q f (set_trace t s) = set_trace t (upd_res q f s)" "set_trace t (set_trace t' s) = set_trace t s"
  by (simp_all add: set_trace_def upd_res_def)

lemma handle_map_grants:
  assumes r: "unit_ready s u" and un: "sv_units s u = Some un" "conn_req_mr (unit_conn un) = Some mq"
    and len: "len = req_len (host E) (conn_req (unit_conn un))"
    and q: "find_res (sv_resources s) len (avail s) = Some q"
    and g: "map_granted E (unit_conn un) (res_fd (sv_resources s q)) len addr mr
      (recv_call (unit_conn un) Conn_req mq) (sv_trace s)"
  shows "\<exists>ret s'. rpmem_handle_map E u s = Some (ret, s') \<and>
    rsp_of s' u = pack_map_rsp (host E) (rsp_of s u) (mr_rkey mr) addr \<and>
    sv_resources s' = (sv_resources s)
      (q := (sv_resources s q)\<lparr>res_addr := addr, res_map_len := len, res_mr := Some mr\<rparr>) \<and>
    abs_pool s' = pool_apply (Take q) u (abs_pool s)"
proof -
  let ?c = "recv_call (unit_conn un) Conn_req mq" and ?fd = "res_fd (sv_resources s q)"
  let ?s1 = "taken u q (rearmed u ?c s)"
  let ?s2 = "set_trace (map_trace E (unit_conn un) ?fd len addr ?c (sv_trace s))
      (upd_res q (\<lambda>r. r\<lparr>res_mr := Some mr\<rparr>) (upd_res q (\<lambda>r. r\<lparr>res_addr := addr, res_map_len := len\<rparr>) ?s1))"
  let ?f = "\<lambda>m. pack_map_rsp (host E) m (mr_rkey mr) addr"
  from g have ok: "env_int E (?c # sv_trace s) = 0" and ma: "addr \<noteq> MAP_FAILED"
    and ea: "env_ptr E (Mmap ?fd (scast len) MAP_PRIVATE # Posix_fallocate ?fd (scast len) # ?c # sv_trace s) = addr"
    and em: "env_mr E (map_trace E (unit_conn un) ?fd len addr ?c (sv_trace s)) = Some mr"
    by (simp_all add: map_granted_def map_trace_def Let_def)
  have "rpmem_handle_map E u s = handle_map_res E u len q ?s1"
    using un ok q len by (simp add: rpmem_handle_map_def post_req_recv_eq pool_take_eq Let_def)
  moreover have "handle_map_res E u len q ?s1 = send_rsp E u ?f
      (if env_int E (Posix_fallocate ?fd (scast len) # ?c # sv_trace s) \<noteq> 0 then -1 else 0) ?s2"
    using un ma ea em
    by (simp add: handle_map_res_def srv_call_eq handle_out_eq Let_def map_trace_def set_trace_upd)
  moreover have "unit_ready ?s2 u" using r by simp
  then obtain c where "\<And>ret. send_rsp E u ?f ret ?s2 =
      Some (if env_int E (c # sv_trace ?s2) \<noteq> 0 then -1 else ret, replied u ?f c ?s2)"
    using un r by (auto elim!: unit_readyE simp: send_rsp_eq Let_def)
  moreover have "rsp_of (replied u ?f c ?s2) u = ?f (rsp_of s u)" for c using r by simp
  moreover have "sv_units (rearmed u ?c s) u \<noteq> None" using un by simp
  then have "abs_pool (replied u ?f c ?s2) = pool_apply (Take q) u (abs_pool s)" for c
    by (simp add: abs_pool_taken)
  ultimately show ?thesis by (auto simp: fun_eq_iff)
qed

lemma handle_unmap_returns:
  assumes r: "unit_ready s u" and un: "sv_units s u = Some un" "conn_req_mr (unit_conn un) = Some mq"
    and q: "unit_res un = Some q" "res_mr (sv_resources s q) = Some mr"
    and len: "len = req_len (host E) (conn_req (unit_conn un))"
    and addr: "addr = req_addr (host E) (conn_req (unit_conn un))"
    and ok: "env_int E (recv_call (unit_conn un) Conn_req mq # sv_trace s) = 0"
    and mu: "env_int E (Munmap addr (scast len) # Ibv_dereg_mr mr #
      recv_call (unit_conn un) Conn_req mq # sv_trace s) = ret"
  shows "\<exists>ret' s'. rpmem_handle_unmap E u s = Some (ret', s') \<and>
    rsp_of s' u = pack_unmap_rsp (host E) (rsp_of s u) ret \<and>
    abs_pool s' = (if ret = 0 then pool_apply (Give q) u (abs_pool s) else abs_pool s) \<and>
    res_addr (sv_resources s' q) = 0 \<and> res_map_len (sv_resources s' q) = 0 \<and>
    res_mr (sv_resources s' q) = Some mr \<and>
    (\<exists>c. payload c \<noteq> None \<and> sv_trace s' = c # Munmap addr (scast len) # Ibv_dereg_mr mr #
      recv_call (unit_conn un) Conn_req mq # sv_trace s)"
proof -
  let ?c = "recv_call (unit_conn un) Conn_req mq"
  let ?t = "Munmap addr (scast len) # Ibv_dereg_mr mr # ?c # sv_trace s"
  let ?s1 = "set_trace ?t (upd_res q (\<lambda>r. r\<lparr>res_map_len := 0, res_addr := 0\<rparr>)
      (set_trace (Ibv_dereg_mr mr # ?c # sv_trace s) (rearmed u ?c s)))"
  let ?s2 = "if ret = 0 then pool_give u q ?s1 else ?s1"
  let ?f = "\<lambda>m. pack_unmap_rsp (host E) m ret"
  have h: "rpmem_handle_unmap E u s = send_rsp E u ?f ret ?s2"
    using un q ok mu len addr
    by (simp add: rpmem_handle_unmap_def post_req_recv_eq srv_call_eq handle_out_eq Let_def)
  have "unit_ready ?s2 u" using r by simp
  then obtain c where c: "send_rsp E u ?f ret ?s2 =
      Some (if env_int E (c # sv_trace ?s2) \<noteq> 0 then -1 else ret, replied u ?f c ?s2)" "payload c = Some (?f (rsp_of ?s2 u))"
    by (rule send_rspE)
  from \<open>unit_ready ?s2 u\<close> have "rsp_of (replied u ?f c ?s2) u = ?f (rsp_of s u)"
    by (simp split: if_splits)
  moreover have "abs_pool (replied u ?f c ?s2) =
      (if ret = 0 then pool_apply (Give q) u (abs_pool s) else abs_pool s)"
    by (simp add: abs_pool_give)
  ultimately show ?thesis unfolding h c(1) using c(2) q(2) by auto
qed

text \<open>
  C16: a map request is granted. On a connection that is set up, when the receive buffer can be
  posted, some free resource is larger than the requested length and the platform maps and
  registers it, the client reads back success with the remote key of the registration and the
  address of the mapping; the first such resource now belongs to the connection, has left the free
  list and records the mapping.
\<close>
theorem map_request_granted:
  assumes "unit_ready s u" and "sv_units s u = Some un" and "conn_req_mr (unit_conn un) = Some mq"
    and "wire_opcode (req_of s u) = opcode_val RPMEM_MAP_REQ" and "len = wire_word (req_of s u)"
    and "find_res (sv_resources s) len (avail s) = Some q"
    and "map_granted E (unit_conn un) (res_fd (sv_resources s q)) len addr mr
      (recv_call (unit_conn un) Conn_req mq) (sv_trace s)"
  shows "\<exists>s'. rpmem_rcv_completion E u s = Some (0, s') \<and>
    unpack_map_rsp e (rsp_of s' u) k a = (0, mr_rkey mr, addr) \<and>
    owner s' u = Some q \<and> avail s' = remove1 q (avail s) \<and>
    sv_resources s' = (sv_resources s)
      (q := (sv_resources s q)\<lparr>res_addr := addr, res_map_len := len, res_mr := Some mr\<rparr>)"
proof -
  have "len = req_len (host E) (conn_req (unit_conn un))"
    using assms(1,2,5) by (auto simp: req_of_def elim!: unit_readyE)
  from handle_map_grants [OF assms(1-3) this assms(6,7)] obtain ret s' where
    h: "rpmem_handle_map E u s = Some (ret, s')"
      "rsp_of s' u = pack_map_rsp (host E) (rsp_of s u) (mr_rkey mr) addr"
      "sv_resources s' = (sv_resources s)
        (q := (sv_resources s q)\<lparr>res_addr := addr, res_map_len := len, res_mr := Some mr\<rparr>)"
      "abs_pool s' = pool_apply (Take q) u (abs_pool s)" by blast
  have "rpmem_rcv_completion E u s = Some (0, s')"
    using h(1) assms(4) unfolding rcv_completion_eq [OF assms(1)] by (simp add: reply_of_def)
  moreover have "unpack_map_rsp e (rsp_of s' u) k a = (0, mr_rkey mr, addr)"
    using assms(1) by (simp add: h(2) unpack_wire)
  ultimately show ?thesis using h(3,4) by (simp add: abs_pool_def)
qed

theorem map_request_granted_witness:
  "\<exists>s'. rpmem_rcv_completion ok_env 1 (demo_state (pack_map_req LE zero_cmd 1024)) = Some (0, s') \<and>
     unpack_map_rsp BE (rsp_of s' 1) 0 0 = (0, 6, 65536) \<and> owner s' 1 = Some 0 \<and> avail s' = []"
proof -
  let ?m = "pack_map_req LE zero_cmd 1024"
  let ?un = "\<lparr>unit_conn = demo_conn ?m, unit_res = None\<rparr>"
  have "map_granted ok_env (unit_conn (?un)) (res_fd (sv_resources (demo_state ?m) 0)) 1024 65536 ok_mr
      (recv_call (unit_conn (?un)) Conn_req ok_mr) (sv_trace (demo_state ?m))"
    by (simp add: map_granted_def ok_env_def MAP_FAILED_def Let_def)
  moreover have "find_res (sv_resources (demo_state ?m)) 1024 (avail (demo_state ?m)) = Some 0"
    unfolding demo_avail by (simp add: int_size_def demo_state_def)
  moreover have "sv_units (demo_state ?m) 1 = Some (?un)" "conn_req_mr (unit_conn (?un)) = Some ok_mr"
    by (simp_all add: demo_state_def demo_conn_def)
  ultimately show ?thesis
    using map_request_granted [OF demo_ready, of ?m "?un" ok_mr 1024 0 ok_env 65536 ok_mr BE 0 0]
    by (auto simp: ok_mr_def)
qed

text \<open>The answer to an unmap request is 0 only when the resource went back.\<close>

lemma handle_unmap_success:
  assumes r: "unit_ready s u" and h: "rpmem_handle_unmap E u s = Some (ret, s')"
    and ok: "wire_word (rsp_of s' u) = 0"
  shows "\<exists>q. owner s u = Some q \<and> res_mr (sv_resources s q) \<noteq> None \<and>
    abs_pool s' = pool_apply (Give q) u (abs_pool s)"
proof -
  from r obtain un mq ms where un: "sv_units s u = Some un" "conn_req_mr (unit_conn un) = Some mq"
    by (rule unit_readyE)
  let ?c = "recv_call (unit_conn un) Conn_req mq"
  show ?thesis
  proof (cases "env_int E (?c # sv_trace s) = 0")
    case True
    with h un obtain q mr where q: "unit_res un = Some q" "res_mr (sv_resources s q) = Some mr"
      by (auto simp: rpmem_handle_unmap_def post_req_recv_eq Let_def bind_eq_Some_conv)
    from handle_unmap_returns [OF r un q refl refl True refl] h ok r
    have "abs_pool s' = pool_apply (Give q) u (abs_pool s)" by auto
    with q un show ?thesis by (simp add: owner_def)
  next
    case False
    have rr: "unit_ready (rearmed u ?c s) u" using r by simp
    from h un False have "send_rsp E u (\<lambda>m. pack_unmap_rsp (host E) m (-1)) (-1) (rearmed u ?c s) =
        Some (ret, s')"
      by (simp add: rpmem_handle_unmap_def post_req_recv_eq Let_def handle_out_eq)
    then have "wire_word (rsp_of s' u) = -1"
      using r by (rule_tac send_rspE [OF rr, of E "\<lambda>m. pack_unmap_rsp (host E) m (-1)" "-1"]) auto
    with ok show ?thesis by simp
  qed
qed

lemma sizes_mset:
  assumes "\<And>x. int_size (sv_resources s' x) = int_size (sv_resources s x)" and "mset rs' = mset rs"
  shows "sizes s' rs' = sizes s rs"
proof -
  have "sizes s' rs' = sum_mset (image_mset (\<lambda>x. int_size (sv_resources s x)) (mset rs'))"
    by (simp add: sizes_def assms(1) flip: sum_mset_sum_list)
  also have "\<dots> = sizes s rs" unfolding assms(2) by (simp add: sizes_def flip: sum_mset_sum_list)
  finally show ?thesis .
qed

text \<open>A map request that is granted, on the server used as an example.\<close>

lemma demo_map_served:
  obtains s1 where
    "rpmem_rcv_completion ok_env 1 (demo_state (pack_map_req LE zero_cmd 1024)) = Some (0, s1)"
    "res_mr (sv_resources s1 0) = Some ok_mr" "owner s1 1 = Some 0" "avail s1 = []"
proof -
  let ?m = "pack_map_req LE zero_cmd 1024"
  let ?un = "\<lparr>unit_conn = demo_conn ?m, unit_res = None\<rparr>" and ?s = "demo_state ?m"
  have r: "unit_ready ?s 1" by (rule demo_ready) simp
  have u: "sv_units ?s 1 = Some ?un" "conn_req_mr (unit_conn ?un) = Some ok_mr"
    by (simp_all add: demo_state_def demo_conn_def)
  have f: "find_res (sv_resources ?s) 1024 (avail ?s) = Some 0"
    unfolding demo_avail by (simp add: int_size_def demo_state_def)
  have g: "map_granted ok_env (unit_conn ?un) (res_fd (sv_resources ?s 0)) 1024 65536 ok_mr
      (recv_call (unit_conn ?un) Conn_req ok_mr) (sv_trace ?s)"
    by (simp add: map_granted_def ok_env_def MAP_FAILED_def Let_def)
  have len: "1024 = req_len (host ok_env) (conn_req (unit_conn ?un))" by (simp add: demo_conn_def)
  obtain ret s1 where h: "rpmem_handle_map ok_env 1 ?s = Some (ret, s1)"
    "res_mr (sv_resources s1 0) = Some ok_mr" "abs_pool s1 = pool_apply (Take 0) 1 (abs_pool ?s)"
    using handle_map_grants [OF r u len f g] by auto
  show thesis
  proof (rule that [of s1])
    show "rpmem_rcv_completion ok_env 1 ?s = Some (0, s1)"
      using h(1) unfolding rcv_completion_eq [OF r] by (simp add: reply_of_def)
  qed (use h(2,3) in \<open>simp_all add: abs_pool_def\<close>)
qed

text \<open>
  Unmapping undoes mapping. When a connection without a resource is given one by a request,
  and a later unmap request on it is answered with 0, the assignment of resources to connections is
  what it was before, the free list holds the same resources and the advertised free size is the
  same again.
\<close>
theorem map_unmap_restores:
  assumes "unit_ready s u" and "pool_inv s" and "owner s u = None"
    and "rpmem_rcv_completion E u s = Some (ret1, s1)" and "owner s1 u \<noteq> None"
    and "s2 = upd_conn u (\<lambda>c. c\<lparr>conn_req := m\<rparr>) s1" and "wf_cmd m"
    and "wire_opcode m = opcode_val RPMEM_UNMAP_REQ"
    and "rpmem_rcv_completion E u s2 = Some (ret2, s3)"
    and "unpack_unmap_rsp e (rsp_of s3 u) v = (0, 0)"
  shows "owner s3 = owner s \<and> mset (avail s3) = mset (avail s) \<and>
    srv_free_size (sv_server s3) = srv_free_size (sv_server s)"
proof -
  from rcv_completion_refines [OF assms(1,4)] obtain opn where
    o: "pool_allowed opn u (abs_pool s)" "abs_pool s1 = pool_apply opn u (abs_pool s)" by blast
  with assms(3,5) obtain q where
    q: "q \<in> set (avail s)" "avail s1 = remove1 q (avail s)" "owner s1 = (owner s)(u \<mapsto> q)"
    by (cases opn) (auto simp: abs_pool_def)
  have r1: "unit_ready s1 u" using rcv_completion_result(2) [OF assms(1,4)] assms(1)
    by (simp add: isolated_def)
  then have r2: "unit_ready s2 u"
    using unit_ready_upd_req [of s1 u "\<lambda>_. m" u] assms(6,7) by simp
  have rq: "req_of s2 u = m" using r1 assms(6) by (auto simp: req_of_def elim: unit_readyE)
  with assms(8,9) obtain ret3 where h: "rpmem_handle_unmap E u s2 = Some (ret3, s3)"
    unfolding rcv_completion_eq [OF r2] by (auto simp: reply_of_def)
  have "unit_ready s3 u" using rcv_completion_result(2) [OF r2 assms(9)] r2 by (simp add: isolated_def)
  with assms(10) have "wire_word (rsp_of s3 u) = 0"
    by (auto simp: unpack_wire EINVAL_def split: if_splits)
  from handle_unmap_success [OF r2 h this] q(2,3) assms(3,6)
  have own: "owner s3 = owner s" and av: "avail s3 = q # remove1 q (avail s)"
    by (auto simp: abs_pool_def fun_eq_iff)
  have ms: "mset (avail s3) = mset (avail s)" using av q(1) by simp
  have "pool_inv s1" using rcv_completion_result(3) [OF assms(1,4)] assms(2) .
  then have "pool_inv s3" using rcv_completion_result(3) [OF r2 assms(9)] assms(6) by simp
  moreover have "int_size (sv_resources s3 x) = int_size (sv_resources s x)" for x
    using rcv_completion_result(2) [OF assms(1,4)] rcv_completion_result(2) [OF r2 assms(9)] assms(6)
    by (simp add: isolated_def int_size_def)
  then have "sizes s3 (avail s3) = sizes s (avail s)" using ms by (rule sizes_mset)
  ultimately show ?thesis using own ms assms(2) by (simp add: pool_inv_def pool_accounts_def)
qed

theorem map_unmap_restores_witness:
  "\<exists>s1 s3. rpmem_rcv_completion ok_env 1 (demo_state (pack_map_req LE zero_cmd 1024)) = Some (0, s1) \<and>
     rpmem_rcv_completion ok_env 1
       (upd_conn 1 (\<lambda>c. c\<lparr>conn_req := pack_unmap_req BE zero_cmd 1024 65536\<rparr>) s1) = Some (0, s3) \<and>
     avail s1 = [] \<and> avail s3 = [0] \<and> owner s3 = (\<lambda>_. None)"
proof -
  let ?m2 = "pack_unmap_req BE zero_cmd 1024 65536" and ?s = "demo_state (pack_map_req LE zero_cmd 1024)"
  have r: "unit_ready ?s 1" by (rule demo_ready) simp
  obtain s1 where s1: "rpmem_rcv_completion ok_env 1 ?s = Some (0, s1)"
    and h: "res_mr (sv_resources s1 0) = Some ok_mr" and o1: "owner s1 1 = Some 0" "avail s1 = []"
    by (rule demo_map_served)
  let ?s2 = "upd_conn 1 (\<lambda>c. c\<lparr>conn_req := ?m2\<rparr>) s1"
  have "unit_ready s1 1" using rcv_completion_result(2) [OF r s1] r by (simp add: isolated_def)
  then have r2: "unit_ready ?s2 1" using unit_ready_upd_req [of s1 1 "\<lambda>_. ?m2" 1] by simp
  then obtain un mq where un: "sv_units ?s2 1 = Some un" "conn_req_mr (unit_conn un) = Some mq"
    by (rule unit_readyE)
  have q: "unit_res un = Some 0" using o1(1) un(1) by (auto simp: owner_def)
  have m: "res_mr (sv_resources ?s2 0) = Some ok_mr" using h by simp
  have z: "env_int ok_env t = 0" for t by (simp add: ok_env_def)
  obtain ret3 s3 where h3: "rpmem_handle_unmap ok_env 1 ?s2 = Some (ret3, s3)"
    "rsp_of s3 1 = pack_unmap_rsp LE (rsp_of ?s2 1) 0" "abs_pool s3 = pool_apply (Give 0) 1 (abs_pool ?s2)"
    using handle_unmap_returns [OF r2 un q m refl refl z z] by (auto simp: ok_env_def)
  have "req_of ?s2 1 = ?m2" using \<open>unit_ready s1 1\<close> by (auto simp: req_of_def elim: unit_readyE)
  then have s3: "rpmem_rcv_completion ok_env 1 ?s2 = Some (0, s3)"
    using h3(1) unfolding rcv_completion_eq [OF r2] by (simp add: reply_of_def)
  have "unpack_unmap_rsp LE (rsp_of s3 1) 0 = (0, 0)" using r2 h3(2) by (simp add: unpack_wire)
  from map_unmap_restores [OF r demo_pool_inv demo_owner s1 _ refl _ _ s3 this] o1
  have "owner s3 = owner ?s \<and> mset (avail s3) = mset (avail ?s)" by simp
  then show ?thesis using s1 s3 o1(2) by (auto simp: fun_eq_iff mset_single_iff)
qed

text \<open>
  C34: a refused map request looks granted. When no free resource is larger than the requested
  length (and the connection holds none), the server changes nothing but still answers with a
  response the client accepts: the key and the address the client reads are whatever the
  uninitialised variables of the handler held.
\<close>
theorem refused_map_looks_granted:
  assumes "unit_ready s u" and "wire_opcode (req_of s u) = opcode_val RPMEM_MAP_REQ"
    and "owner s u = None"
    and "\<forall>r\<in>set (avail s). \<not> wire_word (req_of s u) <s int_size (sv_resources s r)"
  shows "\<exists>s'. rpmem_rcv_completion E u s = Some (0, s') \<and> abs_pool s' = abs_pool s \<and>
    unpack_map_rsp e (rsp_of s' u) k a =
      (0, env_junk32 E (tl (sv_trace s')), env_junk64 E (tl (sv_trace s')))"
proof -
  from assms(1) obtain un mq ms where un: "sv_units s u = Some un" "conn_req_mr (unit_conn un) = Some mq"
    "wf_conn (unit_conn un)"
    by (rule unit_readyE)
  let ?c = "recv_call (unit_conn un) Conn_req mq"
  let ?f = "\<lambda>m. pack_map_rsp (host E) m (env_junk32 E (?c # sv_trace s)) (env_junk64 E (?c # sv_trace s))"
  have none: "find_res (sv_resources s) (req_len (host E) (conn_req (unit_conn un))) (avail s) = None"
    using assms(4) un by (auto simp: find_res_None_iff req_of_def)
  have "unit_res un = None" using assms(3) un(1) by (simp add: owner_def)
  then have h: "rpmem_handle_map E u s = send_rsp E u ?f (-1) (rearmed u ?c s)"
    using un none by (simp add: rpmem_handle_map_def post_req_recv_eq pool_take_eq Let_def handle_out_eq)
  have rr: "unit_ready (rearmed u ?c s) u" using assms(1) by simp
  then obtain c where c: "send_rsp E u ?f (-1) (rearmed u ?c s) =
      Some (if env_int E (c # sv_trace (rearmed u ?c s)) \<noteq> 0 then -1 else -1, replied u ?f c (rearmed u ?c s))"
    by (rule send_rspE)
  have "rpmem_rcv_completion E u s = Some (0, replied u ?f c (rearmed u ?c s))"
    using h c assms(2) unfolding rcv_completion_eq [OF assms(1)] by (simp add: reply_of_def)
  moreover have "unpack_map_rsp e (rsp_of (replied u ?f c (rearmed u ?c s)) u) k a =
      (0, env_junk32 E (?c # sv_trace s), env_junk64 E (?c # sv_trace s))"
    using rr assms(1) by (simp add: unpack_wire)
  ultimately show ?thesis by simp
qed

theorem refused_map_looks_granted_witness:
  "let E = ok_env\<lparr>env_junk32 := (\<lambda>_. 1234), env_junk64 := (\<lambda>_. 5678)\<rparr>
   in \<exists>s'. rpmem_rcv_completion E 1 (demo_state (pack_map_req LE zero_cmd 8192)) = Some (0, s') \<and>
        unpack_map_rsp LE (rsp_of s' 1) 9 9 = (0, 1234, 5678)"
proof -
  let ?m = "pack_map_req LE zero_cmd 8192"
  have "\<forall>r\<in>set (avail (demo_state ?m)).
      \<not> wire_word (req_of (demo_state ?m) 1) <s int_size (sv_resources (demo_state ?m) r)"
    unfolding demo_avail demo_req by (simp add: int_size_def demo_state_def)
  from refused_map_looks_granted [OF demo_ready _ demo_owner this,
      of "ok_env\<lparr>env_junk32 := (\<lambda>_. 1234), env_junk64 := (\<lambda>_. 5678)\<rparr>" LE 9 9]
  show ?thesis by (auto simp: Let_def)
qed

end
