(* ===== verification/Server_System.thy ===== *)
theory Server_System
  imports Server_Setup Server_Spec
begin

text \<open>
  The server as a whole: a step relation whose steps are the actions of its threads (a completion
  handled by the thread of a connection, a connection request taken by the connection manager
  thread, an external call), the reachable states and the invariant that holds in all of them. A
  handler is one step: the handlers of different connections share only the pool, which they use
  under its lock.
\<close>

section \<open>Start-up\<close>

text \<open>The state \<^verbatim>\<open>main\<close> sets up before any thread runs: one resource, all of it free.\<close>

definition server_start :: "rpmem_resource \<Rightarrow> trace \<Rightarrow> server_state" where
  "server_start res t =
     \<lparr>sv_server = \<lparr>srv_ssin = [], srv_cma_id = NULL, srv_cma_channel = NULL, srv_conns_list = [],
        srv_res_list = [0], srv_total_size = int_size res, srv_in_use_size = 0,
        srv_free_size = int_size res\<rparr>,
      sv_resources = (\<lambda>_. res), sv_units = (\<lambda>_. None), sv_trace = t\<rparr>"

section \<open>Steps\<close>

inductive srv_step :: "env \<Rightarrow> server_state \<Rightarrow> server_state \<Rightarrow> bool" for E where
  completion: "server_handle_wc E wc u (deliver E wc u s) = Some s' \<Longrightarrow> sv_units s u \<noteq> None \<Longrightarrow>
    srv_step E s s'"
| connect: "sv_units s (env_ptr E (Calloc_struct Rpmem_server_unit # sv_trace s)) = None \<Longrightarrow>
    rpmem_connect_request_handler E ev s = Some s' \<Longrightarrow> srv_step E s s'"
| external: "srv_step E s (set_trace (c # sv_trace s) s)"

inductive srv_reach :: "env \<Rightarrow> server_state \<Rightarrow> server_state \<Rightarrow> bool" for E s0 where
  start: "srv_reach E s0 s0"
| step: "srv_reach E s0 s \<Longrightarrow> srv_step E s s' \<Longrightarrow> srv_reach E s0 s'"

inductive_cases srv_stepE: "srv_step E s s'"

lemma srv_reach_trans: "srv_reach E s1 s2 \<Longrightarrow> srv_reach E s0 s1 \<Longrightarrow> srv_reach E s0 s2"
  by (induction rule: srv_reach.induct) (auto intro: srv_reach.intros)

lemma srv_reach_step: "srv_step E s s' \<Longrightarrow> srv_reach E s s'"
  by (blast intro: srv_reach.intros)

section \<open>The invariant\<close>

lemma deliver_frame:
  "sv_server (deliver E wc u s) = sv_server s" "sv_resources (deliver E wc u s) = sv_resources s"
  "owner (deliver E wc u s) = owner s" "sv_trace (deliver E wc u s) = sv_trace s"
  "sv_units (deliver E wc u s) v = None \<longleftrightarrow> sv_units s v = None"
  by (auto simp: deliver_def split: option.split)

lemma deliver_valid: "sv_units s v \<noteq> None \<Longrightarrow> sv_units (deliver E wc u s) v \<noteq> None"
  by (simp only: deliver_frame(5) simp_thms)

lemma deliver_ready: "unit_ready s v \<Longrightarrow> unit_ready (deliver E wc u s) v"
  using unit_ready_upd_req [of s v "recv_into _" u] by (auto simp: deliver_def split: option.split)

lemma deliver_inv: "server_inv s \<Longrightarrow> server_inv (deliver E wc u s)"
  using pool_inv_cong [of "deliver E wc u s" s]
  by (auto simp: server_inv_def deliver_frame deliver_ready dom_def)

lemma isolated_inv:
  assumes "isolated u s s'" and "server_inv s" and "pool_inv s'"
  shows "server_inv s'"
  using assms by (auto simp: server_inv_def isolated_def dom_def)

lemma handle_wc_inv:
  assumes inv: "server_inv s" and u: "sv_units s u \<noteq> None"
    and h: "server_handle_wc E wc u s = Some s'"
  shows "server_inv s'"
proof (cases "wc_status wc = IBV_WC_SUCCESS \<and> wc_opcode wc = IBV_WC_RECV")
  case True
  from inv u have r: "unit_ready s u" by (simp add: server_inv_def)
  from True h obtain ret where d: "rpmem_rcv_completion E u s = Some (ret, s')"
    by (auto simp: server_handle_wc_def)
  from inv rcv_completion_result [OF r d] show ?thesis
    by (blast intro: isolated_inv dest: server_inv_def [THEN iffD1])
next
  case False
  then have "s' = s"
    using h by (auto simp: server_handle_wc_def rpmem_snd_completion_def
        split: if_splits ibv_wc_opcode.splits)
  with inv show ?thesis by simp
qed

lemma srv_step_inv: "srv_step E s s' \<Longrightarrow> server_inv s \<Longrightarrow> server_inv s'"
proof (induction rule: srv_step.induct)
  case (completion wc u s s')
  show ?case
    by (rule handle_wc_inv [OF deliver_inv [OF completion.prems]
          deliver_valid [OF completion.hyps(2)] completion.hyps(1)])
next
  case (connect s ev s')
  then have "connect_effect (env_ptr E (Calloc_struct Rpmem_server_unit # sv_trace s)) s s'"
    by (blast intro: connect_handler_effect)
  with connect show ?case by (blast intro: connect_effect_inv)
next
  case (external s c)
  then show ?case by (auto simp: server_inv_def)
qed

lemma srv_reach_inv: "srv_reach E s0 s \<Longrightarrow> server_inv s0 \<Longrightarrow> server_inv s"
  by (induction rule: srv_reach.induct) (auto intro: srv_step_inv)

section \<open>Threads as steps\<close>

text \<open>What the loops of the threads do is made of steps of the relation.\<close>

lemma srv_int_reach: "srv_int E c s = (r, s') \<Longrightarrow> srv_reach E s s'"
  by (auto simp: srv_call_eq intro: srv_reach_step srv_step.external)

lemma handle_wcs_reach:
  "handle_wcs E wc i k u s = Some s' \<Longrightarrow> server_inv s \<Longrightarrow> sv_units s u \<noteq> None \<Longrightarrow>
     srv_reach E s s' \<and> sv_units s' u \<noteq> None"
proof (induction k arbitrary: i s)
  case 0
  then show ?case by (auto intro: srv_reach.start)
next
  case (Suc k)
  let ?wc = "wc ! i"
  from Suc.prems(1) obtain s1 where s1: "server_handle_wc E ?wc u (deliver E ?wc u s) = Some s1"
    and rest: "handle_wcs E wc (Suc i) k u s1 = Some s'" by (auto simp: bind_eq_Some_conv split: if_splits)
  from s1 Suc.prems have st: "srv_step E s s1" by (auto intro: srv_step.completion)
  then have i1: "server_inv s1" using Suc.prems srv_step_inv by blast
  have "sv_units s1 u \<noteq> None"
  proof (cases "wc_status ?wc = IBV_WC_SUCCESS \<and> wc_opcode ?wc = IBV_WC_RECV")
    case True
    from Suc.prems have r: "unit_ready (deliver E ?wc u s) u"
      by (simp add: server_inv_def deliver_ready)
    from True s1 obtain ret where d: "rpmem_rcv_completion E u (deliver E ?wc u s) = Some (ret, s1)"
      by (auto simp: server_handle_wc_def)
    from rcv_completion_result(2) [OF r d] Suc.prems show ?thesis
      by (simp add: isolated_def deliver_frame)
  next
    case False
    with s1 have "s1 = deliver E ?wc u s"
      by (auto simp: server_handle_wc_def rpmem_snd_completion_def
          split: if_splits ibv_wc_opcode.splits)
    with deliver_valid [OF Suc.prems(3)] show ?thesis by simp
  qed
  with Suc.IH [OF rest i1] st show ?case by (blast intro: srv_reach_trans srv_reach_step)
qed

text \<open>One turn of the polling loop.\<close>

lemma server_cq_event_loop_eq:
  assumes "sv_units s u = Some un"
  defines "t \<equiv> Ibv_poll_cq (conn_cq (unit_conn un)) 16 # sv_trace s"
  shows "server_cq_event_loop E u k s =
    (if env_int E t = 0 then Some (0, set_trace t s)
     else case handle_wcs E (map (env_wc E t) [0..<16]) 0 (unat (env_int E t)) u (set_trace t s) of
         None \<Rightarrow> None
       | Some s' \<Rightarrow> if 64 \<le> k + unat (env_int E t) then Some (-1, s') else server_cq_event_loop E u (k + unat (env_int E t)) s')"
  unfolding t_def by (subst server_cq_event_loop.simps) (simp add: assms(1) srv_call_eq Let_def)

lemma cq_event_loop_reach:
  "server_cq_event_loop E u k s = Some (ret, s') \<Longrightarrow> server_inv s \<Longrightarrow> srv_reach E s s'"
proof (induction "64 - k" arbitrary: k s rule: less_induct)
  case less
  obtain un where un: "sv_units s u = Some un"
    using less.prems(1) by (subst (asm) server_cq_event_loop.simps) (auto split: option.splits)
  let ?t = "Ibv_poll_cq (conn_cq (unit_conn un)) 16 # sv_trace s"
  let ?s1 = "set_trace ?t s" and ?n = "env_int E ?t" and ?wc = "map (env_wc E ?t) [0..<16]"
  note eq = less.prems(1) [unfolded server_cq_event_loop_eq [OF un]]
  have s1: "srv_step E s ?s1" by (rule srv_step.external)
  then have i1: "server_inv ?s1" using less.prems srv_step_inv by blast
  show ?case
  proof (cases "?n = 0")
    case True
    with eq s1 show ?thesis by (auto intro: srv_reach_step)
  next
    case False
    with eq obtain s2 where s2: "handle_wcs E ?wc 0 (unat ?n) u ?s1 = Some s2" by (auto split: option.splits)
    from handle_wcs_reach [OF s2 i1] un have r2: "srv_reach E ?s1 s2" by simp
    then have i2: "server_inv s2" using i1 srv_reach_inv by blast
    from s1 r2 have r: "srv_reach E s s2" by (blast intro: srv_reach_trans srv_reach_step)
    show ?thesis
    proof (cases "64 \<le> k + unat ?n")
      case True
      with eq False s2 r show ?thesis by simp
    next
      case more: False
      have "64 - (k + unat ?n) < 64 - k" using more neq0_unat [OF False] by linarith
      moreover have "server_cq_event_loop E u (k + unat ?n) s2 = Some (ret, s')" using eq False s2 more by simp
      ultimately have "srv_reach E s2 s'" using less.hyps i2 by blast
      with r show ?thesis by (blast intro: srv_reach_trans)
    qed
  qed
qed

lemma cq_thread_round_reach:
  assumes h: "server_cq_thread_round E u s = Some (b, s')" and inv: "server_inv s"
  shows "srv_reach E s s'"
proof -
  from h obtain un where un: "sv_units s u = Some un"
    by (auto simp: server_cq_thread_round_def bind_eq_Some_conv)
  let ?c = "unit_conn un"
  let ?s1 = "set_trace (Ibv_get_cq_event (conn_comp_channel ?c) # sv_trace s) s"
  let ?s2 = "set_trace (Ibv_req_notify_cq (conn_cq ?c) # sv_trace ?s1) ?s1"
  have r1: "srv_reach E s ?s1" by (rule srv_reach_step, rule srv_step.external)
  have r2: "srv_reach E s ?s2"
    by (rule srv_reach_trans [OF srv_reach_step r1]) (rule srv_step.external)
  have i2: "server_inv ?s2" by (rule srv_reach_inv [OF r2 inv])
  consider "s' = ?s1" | "s' = ?s2"
    | ret s3 where "server_cq_event_handler E u ?s2 = Some (ret, s3)"
        "s' = set_trace (Ibv_ack_cq_events (conn_cq ?c) # sv_trace s3) s3"
    using h un by (auto simp: server_cq_thread_round_def srv_call_eq Let_def bind_eq_Some_conv
        split: if_splits)
  then show ?thesis
  proof cases
    case (3 ret s3)
    from cq_event_loop_reach [OF 3(1) [unfolded server_cq_event_handler_def] i2]
    have "srv_reach E s s3" using r2 by (rule srv_reach_trans)
    then show ?thesis unfolding 3(2) by (rule srv_reach.step) (rule srv_step.external)
  qed (use r1 r2 in simp_all)
qed

lemma cq_thread_reach: "server_cq_thread E n u s = Some (b, s') \<Longrightarrow> server_inv s \<Longrightarrow> srv_reach E s s'"
proof (induction n arbitrary: s)
  case 0
  then show ?case by (auto intro: srv_reach.start)
next
  case (Suc n)
  then obtain run s1 where s1: "server_cq_thread_round E u s = Some (run, s1)"
    and rest: "if run then server_cq_thread E n u s1 = Some (b, s') else s' = s1"
    by (auto simp: bind_eq_Some_conv split: if_splits)
  have r1: "srv_reach E s s1" by (rule cq_thread_round_reach [OF s1 Suc.prems(2)])
  with rest Suc.IH [of s1] srv_reach_inv [OF r1 Suc.prems(2)] show ?case
    by (cases run) (auto intro: srv_reach_trans)
qed

lemma cm_thread_round_reach:
  assumes h: "server_cm_thread_round E s = Some (b, s')"
    and fresh: "\<And>t. sv_units s (env_ptr E (Calloc_struct Rpmem_server_unit # t)) = None"
  shows "srv_reach E s s'"
proof -
  let ?s1 = "set_trace (Rdma_get_cm_event (srv_cma_channel (sv_server s)) # sv_trace s) s"
  let ?ev = "env_event E (sv_trace ?s1)"
  have r1: "srv_reach E s ?s1" by (rule srv_reach_step, rule srv_step.external)
  consider "s' = ?s1"
    | s2 where "s2 = ?s1 \<or> rpmem_connect_request_handler E ?ev ?s1 = Some s2"
        "s' = set_trace (Rdma_ack_cm_event ?ev # sv_trace s2) s2"
    using h by (auto simp: server_cm_thread_round_def rpmem_server_cma_handler_def srv_call_eq Let_def
        bind_eq_Some_conv split: if_splits rdma_cm_event_type.splits)
  then show ?thesis
  proof cases
    case (2 s2)
    have f: "sv_units ?s1 (env_ptr E (Calloc_struct Rpmem_server_unit # sv_trace ?s1)) = None"
      using fresh by simp
    from 2(1) have "srv_reach E ?s1 s2"
      by (elim disjE) (simp add: srv_reach.start, rule srv_reach_step [OF srv_step.connect [OF f]])
    then have "srv_reach E s s2" using r1 by (rule srv_reach_trans)
    then show ?thesis unfolding 2(2) by (rule srv_reach.step) (rule srv_step.external)
  qed (use r1 in simp)
qed

section \<open>One resource\<close>

text \<open>
  The server is started with one resource, so the pool has two kinds of states only: the resource
  is free, or one connection holds it.
\<close>

definition single_pool :: "pool \<Rightarrow> bool" where
  "single_pool p \<longleftrightarrow> p = ([0], \<lambda>_. None) \<or> (\<exists>u. p = ([], [u \<mapsto> 0]))"

lemma single_pool_apply: "single_pool p \<Longrightarrow> pool_allowed opn u p \<Longrightarrow> single_pool (pool_apply opn u p)"
  by (cases opn) (auto simp: single_pool_def fun_upd_def fun_eq_iff split: if_splits)

lemma connect_effect_abs:
  assumes e: "connect_effect u s s'" and u: "sv_units s u = None"
  shows "abs_pool s' = abs_pool s"
proof -
  have "owner s' v = owner s v" for v
  proof (cases "v = u")
    case True
    with e u show ?thesis by (auto simp: connect_effect_def owner_def)
  next
    case False
    with e have "sv_units s' v = sv_units s v" by (simp add: connect_effect_def)
    then show ?thesis by (simp add: owner_def)
  qed
  moreover have "avail s' = avail s" using e by (auto simp: connect_effect_def avail_def)
  ultimately show ?thesis by (simp add: abs_pool_def fun_eq_iff)
qed

definition single_server :: "server_state \<Rightarrow> bool" where
  "single_server s \<longleftrightarrow> single_pool (abs_pool s) \<and>
     srv_total_size (sv_server s) = int_size (sv_resources s 0)"

lemma single_server_step:
  assumes "srv_step E s s'" and inv: "server_inv s" and sp: "single_server s"
  shows "single_server s'"
  using assms(1)
proof cases
  case (completion wc u)
  have d: "single_server (deliver E wc u s)"
    using sp by (simp add: single_server_def abs_pool_def avail_def deliver_frame)
  show ?thesis
  proof (cases "wc_status wc = IBV_WC_SUCCESS \<and> wc_opcode wc = IBV_WC_RECV")
    case True
    with completion obtain ret where h: "rpmem_rcv_completion E u (deliver E wc u s) = Some (ret, s')"
      by (auto simp: server_handle_wc_def)
    have r: "unit_ready (deliver E wc u s) u"
      using inv completion(2) by (simp add: server_inv_def deliver_ready)
    have "single_pool (abs_pool s')"
      using rcv_completion_refines [OF r h] d by (auto simp: single_server_def intro: single_pool_apply)
    with rcv_completion_result(2) [OF r h] d show ?thesis
      by (simp add: single_server_def isolated_def int_size_def)
  next
    case False
    with completion have "s' = deliver E wc u s"
      by (auto simp: server_handle_wc_def rpmem_snd_completion_def
          split: if_splits ibv_wc_opcode.splits)
    with d show ?thesis by simp
  qed
next
  case (connect ev)
  let ?u = "env_ptr E (Calloc_struct Rpmem_server_unit # sv_trace s)"
  have e: "connect_effect ?u s s'"
    by (rule connect_handler_effect [OF connect(2)])
  have "srv_total_size (sv_server s') = srv_total_size (sv_server s)" "sv_resources s' = sv_resources s"
    using e by (auto simp: connect_effect_def)
  with connect_effect_abs [OF e connect(1)] sp show ?thesis by (simp add: single_server_def)
next
  case (external c)
  with sp show ?thesis by (simp add: single_server_def)
qed

lemma single_server_reach:
  "srv_reach E s0 s \<Longrightarrow> server_inv s0 \<Longrightarrow> single_server s0 \<Longrightarrow> single_server s"
  by (induction rule: srv_reach.induct) (auto intro: single_server_step srv_reach_inv)

text \<open>A server that has just started, and what holds in every state it reaches from there.\<close>

definition fresh_server :: "server_state \<Rightarrow> bool" where
  "fresh_server s \<longleftrightarrow>
     sv_units s = (\<lambda>_. None) \<and> srv_conns_list (sv_server s) = [] \<and> avail s = [0] \<and>
     srv_total_size (sv_server s) = int_size (sv_resources s 0) \<and>
     srv_free_size (sv_server s) = int_size (sv_resources s 0) \<and> srv_in_use_size (sv_server s) = 0"

definition one_holder :: "server_state \<Rightarrow> bool" where
  "one_holder s \<longleftrightarrow>
     avail s = [0] \<and> (\<forall>u. owner s u = None) \<and>
       srv_free_size (sv_server s) = srv_total_size (sv_server s) \<and> srv_in_use_size (sv_server s) = 0 \<or>
     (\<exists>u. avail s = [] \<and> owner s u = Some 0 \<and> (\<forall>v. v \<noteq> u \<longrightarrow> owner s v = None) \<and>
       srv_free_size (sv_server s) = 0 \<and> srv_in_use_size (sv_server s) = srv_total_size (sv_server s))"

lemma fresh_server_inv:
  assumes "fresh_server s"
  shows "server_inv s" and "single_server s"
  using assms
  by (simp_all add: fresh_server_def server_inv_def pool_defs avail_def owner_def sizes_def
      single_server_def single_pool_def abs_pool_def fun_eq_iff)

lemma single_one_holder:
  assumes "pool_inv s" and "single_server s"
  shows "one_holder s"
proof -
  from assms have acc: "pool_accounts s" and sp: "single_pool (abs_pool s)"
    and tot: "srv_total_size (sv_server s) = int_size (sv_resources s 0)"
    by (simp_all add: pool_inv_def single_server_def)
  from sp show ?thesis
    unfolding single_pool_def
  proof (elim disjE exE)
    assume "abs_pool s = ([0], \<lambda>_. None)"
    then show ?thesis using acc tot by (auto simp: one_holder_def abs_pool_def pool_accounts_def sizes_def)
  next
    fix u assume "abs_pool s = ([], [u \<mapsto> 0])"
    then have a: "avail s = []" and o: "owner s = [u \<mapsto> 0]" by (simp_all add: abs_pool_def)
    with acc have "srv_free_size (sv_server s) = 0 \<and>
        srv_in_use_size (sv_server s) = srv_total_size (sv_server s)"
      by (auto simp: pool_accounts_def sizes_def)
    with a o show ?thesis unfolding one_holder_def by (intro disjI2 exI [of _ u]) auto
  qed
qed

lemma fresh_reach:
  assumes "fresh_server s0" and "srv_reach E s0 s"
  shows "server_inv s" and "one_holder s" and "srv_total_size (sv_server s) = int_size (sv_resources s 0)"
proof -
  have sg: "single_server s" by (rule single_server_reach [OF assms(2) fresh_server_inv [OF assms(1)]])
  then show "srv_total_size (sv_server s) = int_size (sv_resources s 0)" by (simp add: single_server_def)
  show inv: "server_inv s" by (rule srv_reach_inv [OF assms(2) fresh_server_inv(1) [OF assms(1)]])
  then show "one_holder s" using sg single_one_holder by (simp add: server_inv_def)
qed

section \<open>Properties\<close>

text \<open>
  The completion threads only take steps of the server. However many rounds the completion
  thread of a connection makes, its effect is a sequence of steps of the server, so that the
  invariant holds when it stops or is interrupted between rounds.
\<close>
theorem cq_thread_refines_steps:
  assumes "server_cq_thread E n u s = Some (b, s')" and "server_inv s"
  shows "srv_reach E s s' \<and> server_inv s'"
  using cq_thread_reach [OF assms] srv_reach_inv [OF cq_thread_reach [OF assms] assms(2)] by simp

lemma demo_server_inv: "wf_cmd m \<Longrightarrow> server_inv (demo_state m)"
  using demo_ready [of m] demo_pool_inv [of m]
  by (auto simp: server_inv_def demo_state_def demo_server_def split: if_splits)

theorem cq_thread_refines_steps_witness:
  "\<exists>s'. server_cq_thread (ok_env\<lparr>env_ptr := (\<lambda>_. NULL)\<rparr>) 2 1 (demo_state zero_cmd) = Some (True, s') \<and>
     server_inv s'"
proof -
  let ?E = "ok_env\<lparr>env_ptr := (\<lambda>_. NULL)\<rparr>"
  have "\<exists>s'. server_cq_thread ?E (Suc (Suc 0)) 1 (demo_state zero_cmd) = Some (True, s')"
    by (simp add: server_cq_thread_round_def server_cq_event_handler_def server_cq_event_loop.simps
        srv_call_eq Let_def ok_env_def demo_state_def demo_conn_def conn_zero_def)
  then obtain s' where "server_cq_thread ?E 2 1 (demo_state zero_cmd) = Some (True, s')"
    by (auto simp: numeral_2_eq_2)
  with cq_thread_refines_steps [OF this demo_server_inv] show ?thesis by simp
qed

text \<open>
  Polls that find no received request: the handling of the completions changes nothing, so that the
  polls follow each other directly in the history. Beyond the array of 16 it has no result.
\<close>

definition no_request :: "ibv_wc \<Rightarrow> bool" where
  "no_request wc \<longleftrightarrow> wc_status wc \<noteq> IBV_WC_SUCCESS \<or> wc_opcode wc \<noteq> IBV_WC_RECV"

lemma handle_no_request: "no_request wc \<Longrightarrow> server_handle_wc E wc u (deliver E wc u s) = Some s"
  by (auto simp: no_request_def server_handle_wc_def rpmem_snd_completion_def deliver_def
      split: option.split ibv_wc_opcode.split)

lemma handle_no_requests:
  "(\<And>wc. wc \<in> set wcs \<Longrightarrow> no_request wc) \<Longrightarrow> i \<le> length wcs \<Longrightarrow>
     handle_wcs E wcs i k u s = (if i + k \<le> length wcs then Some s else None)"
  by (induction k arbitrary: i) (simp_all add: handle_no_request)

lemma quiet_loop_eq:
  assumes "sv_units s u = Some un" and "\<And>t i. no_request (env_wc E t i)"
  defines "t \<equiv> Ibv_poll_cq (conn_cq (unit_conn un)) 16 # sv_trace s"
  shows "server_cq_event_loop E u k s =
    (if env_int E t = 0 then Some (0, set_trace t s)
     else if 16 < env_int E t then None
     else if 64 \<le> k + unat (env_int E t) then Some (-1, set_trace t s)
     else server_cq_event_loop E u (k + unat (env_int E t)) (set_trace t s))"
proof -
  have "handle_wcs E (map (env_wc E t) [0..<16]) 0 n u s' = (if n \<le> 16 then Some s' else None)" for n s'
    by (subst handle_no_requests) (use assms(2) in auto)
  then show ?thesis unfolding server_cq_event_loop_eq [OF assms(1)] t_def
    by (simp add: word_less_nat_alt)
qed

lemma busy_loop:
  assumes un: "sv_units s u = Some un"
    and n: "\<And>t. let n = env_int E (Ibv_poll_cq (conn_cq (unit_conn un)) 16 # t) in 0 < n \<and> n \<le> 16"
    and wc: "\<And>t i. no_request (env_wc E t i)"
  shows "\<exists>t. server_cq_event_loop E u k s = Some (-1, set_trace t s)"
  using un
proof (induction "64 - k" arbitrary: k s rule: less_induct)
  case less
  let ?t = "Ibv_poll_cq (conn_cq (unit_conn un)) 16 # sv_trace s"
  let ?n = "env_int E ?t" and ?s = "set_trace ?t s"
  have pos: "?n \<noteq> 0" "\<not> 16 < ?n" using n [of "sv_trace s"] by (auto simp: Let_def)
  note eq = quiet_loop_eq [OF less.prems wc, of k]
  show ?case
  proof (cases "64 \<le> k + unat ?n")
    case True
    with eq pos show ?thesis by auto
  next
    case False
    with neq0_unat [OF pos(1)] have "64 - (k + unat ?n) < 64 - k" by linarith
    with less.hyps [of "k + unat ?n" ?s] less.prems
    obtain t where "server_cq_event_loop E u (k + unat ?n) ?s = Some (-1, set_trace t ?s)" by auto
    with False eq pos show ?thesis by (auto simp: set_trace_def)
  qed
qed

text \<open>
  C33: a busy connection loses its thread. When every poll finds completions, any number of them up to
  16 and each time a different one perhaps (none of them a received request, so that no handler
  runs), one round of the completion thread of the server ends the thread: nothing was wrong with
  the queue, but the handler takes leaving the loop after 64 completions for a poll error. No
  request on that connection is served afterwards.
\<close>
theorem busy_connection_stops_thread:
  assumes "sv_units s u = Some un"
    and "\<And>t. let n = env_int E (Ibv_poll_cq (conn_cq (unit_conn un)) 16 # t) in 0 < n \<and> n \<le> 16"
    and "\<And>t i. no_request (env_wc E t i)"
  shows "\<exists>t. server_cq_thread_round E u s = Some (False, set_trace t s)"
proof -
  have b: "\<exists>t'. server_cq_event_loop E u 0 (set_trace t s) = Some (-1, set_trace t' (set_trace t s))" for t
    by (rule busy_loop [OF _ assms(2,3)]) (simp add: assms(1))
  show ?thesis
    using assms(1) b [of "Ibv_req_notify_cq (conn_cq (unit_conn un)) #
        Ibv_get_cq_event (conn_comp_channel (unit_conn un)) # sv_trace s"]
    by (auto simp: server_cq_thread_round_def server_cq_event_handler_def srv_call_eq Let_def set_trace_upd
        intro: exI)
qed

theorem busy_connection_stops_thread_witness:
  "let E = ok_env\<lparr>env_ptr := (\<lambda>_. NULL),
         env_int := (\<lambda>t. case t of Ibv_poll_cq _ _ # t \<Rightarrow> if even (length t) then 16 else 3 | _ \<Rightarrow> 0),
         env_wc := (\<lambda>_ i. \<lparr>wc_status = if i = 0 then IBV_WC_WR_FLUSH_ERR else IBV_WC_SUCCESS, wc_opcode = IBV_WC_SEND\<rparr>)\<rparr>
   in \<exists>t. server_cq_thread_round E 1 (demo_state zero_cmd) = Some (False, set_trace t (demo_state zero_cmd))"
  unfolding Let_def
  by (rule busy_connection_stops_thread [of _ _ "\<lparr>unit_conn = demo_conn zero_cmd, unit_res = None\<rparr>"])
    (simp_all add: demo_state_def no_request_def)

text \<open>
  A failing poll reads out of bounds. The count of completions is unsigned, so when
  \<open>ibv_poll_cq\<close> reports an error the handler runs over the 16 completions it has room for and never
  comes to the check after the loop. With polls that find no received request, so that no request
  handler can fail, the event handler has no result exactly when some poll it makes, the first or a
  later one, fails or reports more than was asked for.
\<close>
theorem poll_error_out_of_bounds:
  assumes "sv_units s u = Some un" and "\<And>t i. no_request (env_wc E t i)"
  shows "server_cq_event_handler E u s = None \<longleftrightarrow> overruns (poll_result E (conn_cq (unit_conn un)) (sv_trace s)) 0"
proof -
  have "server_cq_event_loop E u k s = None \<longleftrightarrow> overruns (poll_result E (conn_cq (unit_conn un)) (sv_trace s)) k"
    if "k < 64" for k
    using that assms(1)
  proof (induction "64 - k" arbitrary: k s rule: less_induct)
    case less
    let ?t = "Ibv_poll_cq (conn_cq (unit_conn un)) 16 # sv_trace s"
    have "server_cq_event_loop E u (k + unat (env_int E ?t)) (set_trace ?t s) = None \<longleftrightarrow>
        overruns (poll_result E (conn_cq (unit_conn un)) ?t) (k + unat (env_int E ?t))"
      if "env_int E ?t \<noteq> 0" "k + unat (env_int E ?t) < 64"
      using less.hyps [of "k + unat (env_int E ?t)" "set_trace ?t s"] less.prems that neq0_unat [OF that(1)] by simp
    moreover have "\<not> overruns r k'" if "64 \<le> k'" for r k' using that by (simp add: overruns_def)
    ultimately show ?case using less.prems(1)
      unfolding quiet_loop_eq [OF less.prems(2) assms(2)]
      by (subst overruns_step) (auto simp: poll_result_simps not_less not_le)
  qed
  then show ?thesis by (simp add: server_cq_event_handler_def)
qed

theorem poll_error_out_of_bounds_witness:
  "let E = ok_env\<lparr>env_int := (\<lambda>t. if length t < 3 then 5 else -1),
         env_wc := (\<lambda>_ _. \<lparr>wc_status = IBV_WC_SUCCESS, wc_opcode = IBV_WC_SEND\<rparr>)\<rparr>
   in server_cq_event_handler E 1 (demo_state zero_cmd) = None"
proof -
  let ?E = "ok_env\<lparr>env_int := (\<lambda>t. if length t < 3 then 5 else -1),
         env_wc := (\<lambda>_ _. \<lparr>wc_status = IBV_WC_SUCCESS, wc_opcode = IBV_WC_SEND\<rparr>)\<rparr>"
  let ?s = "demo_state zero_cmd" and ?un = "\<lparr>unit_conn = demo_conn zero_cmd, unit_res = None\<rparr>"
  have "sv_trace ?s = []" by (simp add: demo_state_def)
  then have "overruns (poll_result ?E cq (sv_trace ?s)) 0" for cq
    unfolding overruns_def poll_result_def
    by (intro exI [of _ 2]) (auto simp: word_sless_alt word_sle_eq lessThan_nat_numeral)
  then show ?thesis unfolding Let_def
    using poll_error_out_of_bounds [of ?s 1 ?un ?E] by (simp add: demo_state_def no_request_def)
qed

end
