(* ===== verification/End_To_End.thy ===== *)
theory End_To_End
  imports Client_Spec Server_System
begin

text \<open>
  Client and server together. The two sides meet in the messages only: the client's request is what
  the server finds in the request buffer of the connection, the server's reply is what the device
  delivers to the client. The properties say what a result the client reports means for the state of
  the server.
\<close>

section \<open>Where a response comes from\<close>

text \<open>
  What the device may deliver to the client once it has sent the messages \<open>ms\<close>, newest first, and
  that this can only be \<open>m\<close>.
\<close>

definition answers :: "env \<Rightarrow> bytes list \<Rightarrow> bytes \<Rightarrow> bool" where
  "answers E ms m \<longleftrightarrow> (\<exists>t. sends t = ms \<and> env_inbox E t = Some m)"

definition answered :: "env \<Rightarrow> bytes list \<Rightarrow> bytes \<Rightarrow> bool" where
  "answered E ms m \<longleftrightarrow> wf_cmd m \<and> (\<forall>t m'. sends t = ms \<longrightarrow> env_inbox E t = Some m' \<longrightarrow> m' = m)"

lemma answered_wf: "answered E ms m \<Longrightarrow> answers E ms m' \<Longrightarrow> wf_cmd m'"
  by (auto simp: answered_def answers_def)

lemma answered_eq: "answered E ms m \<Longrightarrow> answers E ms m' \<Longrightarrow> m' = m"
  by (auto simp: answered_def answers_def)

definition rsp_from :: "env \<Rightarrow> bytes list \<Rightarrow> priv_rpmem_file \<Rightarrow> priv_rpmem_file \<Rightarrow> bool" where
  "rsp_from E ms f f' \<longleftrightarrow>
     ((\<forall>m. answers E ms m \<longrightarrow> wf_cmd m) \<longrightarrow> wf_cmd (conn_rsp (pf_conn f)) \<longrightarrow>
       conn_rsp (pf_conn f') = conn_rsp (pf_conn f) \<or> answers E ms (conn_rsp (pf_conn f')))"

interpretation rsp_wc: completion_rel sends rsp_from
proof (unfold_locales, goal_cases)
  case (6 E ms f f' f'')
  then show ?case by (auto simp: rsp_from_def)
next
  case (7 E t f i)
  show ?case
    by (auto simp: rsp_from_def client_handle_wc_def client_deliver_def upd_file_defs
        split: option.split ibv_wc_opcode.split) (auto simp: answers_def)
qed (simp_all add: rsp_from_def)

lemma wait_command_rsp:
  assumes h: "wait_command E p f t = Some (f', t')" and m: "\<And>m. answers E (sends t) m \<Longrightarrow> wf_cmd m"
    and w: "wf_cmd (conn_rsp (pf_conn f))"
  shows "conn_rsp (pf_conn f') = conn_rsp (pf_conn f) \<or> answers E (sends t) (conn_rsp (pf_conn f'))"
    and "sends t' = sends t"
proof -
  let ?t = "Sem_wait_command p # t"
  obtain b f1 t1 where r: "run_cq_thread E f ?t = Some (b, f1, t1)"
    using h by (cases "run_cq_thread E f ?t") (auto simp: wait_command_def)
  have "rsp_from E (sends ?t) f f1 \<and> sends t1 = sends ?t"
    using r rsp_wc.runs_ok [of E _ f ?t] rsp_wc.R_refl
    by (auto simp: run_cq_thread_def split: if_splits)
  moreover have "pf_conn f' = pf_conn f1 \<and> t' = t1"
    using h r by (auto simp: wait_command_def Let_def split: if_splits)
  ultimately show "conn_rsp (pf_conn f') = conn_rsp (pf_conn f) \<or> answers E (sends t) (conn_rsp (pf_conn f'))"
    and "sends t' = sends t"
    using m w by (simp_all add: rsp_from_def)
qed

text \<open>After an exchange the buffer holds the answer, or is still cleared.\<close>

lemma exchange_rsp:
  fixes E f g t
  defines "ms \<equiv> g (conn_req (pf_conn f)) # sends t"
  assumes h: "exchange E p g f t = Some (0, f', t')" and m: "\<And>m. answers E ms m \<Longrightarrow> wf_cmd m"
  shows "conn_rsp (pf_conn f') = zero_cmd \<or> answers E ms (conn_rsp (pf_conn f'))" and "sends t' = ms"
proof -
  from h obtain f1 t1 f2 t2 where x: "post_rsp_recv E f t = Some (0, f1, t1)" "send_req E g f1 t1 = Some (0, f2, t2)"
    "wait_command E p f2 t2 = Some (f', t')"
    by (cases rule: exchange_cases) auto
  have "sends t2 = ms" using exchange_sent(3) [OF x(1,2)] by (auto simp: sends_posted ms_def)
  moreover have "conn_rsp (pf_conn f2) = zero_cmd"
    by (simp add: send_req_ok(1) [OF x(2)] post_rsp_recv_ok(1) [OF x(1)])
  ultimately show "conn_rsp (pf_conn f') = zero_cmd \<or> answers E ms (conn_rsp (pf_conn f'))" and "sends t' = ms"
    using wait_command_rsp [OF x(3)] m by simp_all
qed

text \<open>A response of a known type is the answer.\<close>

lemma exchange_answer:
  assumes "exchange E p g f t = Some (0, f', t')"
    and "\<And>m. answers E (g (conn_req (pf_conn f)) # sends t) m \<Longrightarrow> wf_cmd m"
    and "wire_opcode (conn_rsp (pf_conn f')) \<noteq> 0"
  shows "answers E (g (conn_req (pf_conn f)) # sends t) (conn_rsp (pf_conn f'))"
  using exchange_rsp(1) [OF assms(1,2)] assms(3) by auto

lemma client_map_answer:
  fixes E f s len
  defines "ms \<equiv> pack_map_req (host E) (conn_req (pf_conn f)) (ucast len) # sends (cl_trace s)"
  assumes f: "cl_files s p = Some f" "wf_conn (pf_conn f)" and p: "p \<noteq> NULL"
    and h: "rpmem_map E p len s = Some (p, s')" and m: "\<And>m. answers E ms m \<Longrightarrow> wf_cmd m"
  shows "\<exists>f' m. cl_files s' p = Some f' \<and> answers E ms m \<and> wire_opcode m = opcode_val RPMEM_MAP_RSP \<and>
    pmr_rkey (pf_priv_mr f') = wire_word m \<and> pmr_remote_addr (pf_priv_mr f') = wire_addr m"
proof -
  from client_map_result [OF f(1) p h] p have a: "env_ptr E (Calloc len # cl_trace s) \<noteq> NULL"
    using h f by (auto simp: rpmem_map_def call_defs map_out_def Let_def)
  obtain mr where mr: "env_mr E (map_local_trace E len s f) = Some mr"
    using h f(1) a p
    by (cases "env_mr E (map_local_trace E len s f)")
      (auto simp: rpmem_map_def call_defs map_label_defs map_local_trace_def Let_def)
  let ?g = "\<lambda>m. pack_map_req (host E) m (ucast len)" and ?f = "map_local E len s f mr"
  let ?t = "map_local_trace E len s f"
  obtain ret f2 t2 where x: "exchange E p ?g ?f ?t = Some (ret, f2, t2)"
    "ret \<noteq> 0 \<longrightarrow> map_destroy_mr p f2 t2 s = Some (p, s')"
    "ret = 0 \<longrightarrow> (let (ret, rkey, ra) = unpack_map_rsp (host E) (conn_rsp (pf_conn f2))
         (pmr_rkey (pf_priv_mr f2)) (pmr_remote_addr (pf_priv_mr f2));
       f3 = upd_pmr (\<lambda>m. m\<lparr>pmr_rkey := rkey, pmr_remote_addr := ra\<rparr>) f2
       in (if ret \<noteq> 0 then map_destroy_mr p f3 t2 s else map_read E p f3 t2 s)) = Some (p, s')"
    by (rule map_exchange [OF f(1) a mr h])
  note e = exchange_ok [OF x(1)]
  have ms: "?g (conn_req (pf_conn ?f)) # sends ?t = ms"
    by (simp add: ms_def map_local_def map_local_trace_def upd_rmr_def upd_pmr_def)
  have no: "map_destroy_mr p f3 t2 s \<noteq> Some (p, s')" for f3
    using p by (cases "pmr_mr (pf_priv_mr f3)") (simp_all add: map_destroy_mr_def map_label_defs)
  then have r0: "ret = 0" using x(2) by auto
  have "wf_conn (pf_conn f2)" using e(3) f(2) by simp
  then have w2: "wf_cmd (conn_rsp (pf_conn f2))" by auto
  let ?k = "wire_word (conn_rsp (pf_conn f2))" and ?a = "wire_addr (conn_rsp (pf_conn f2))"
  have oc: "wire_opcode (conn_rsp (pf_conn f2)) = opcode_val RPMEM_MAP_RSP"
    using x(3) r0 no w2 by (auto simp: unpack_wire EINVAL_def Let_def split: if_splits)
  with x(3) r0 w2 have rd: "map_read E p (upd_pmr (\<lambda>m. m\<lparr>pmr_rkey := ?k, pmr_remote_addr := ?a\<rparr>) f2) t2 s = Some (p, s')"
    by (simp add: unpack_wire Let_def)
  have pm: "pmr_mr (pf_priv_mr (upd_pmr (\<lambda>m. m\<lparr>pmr_rkey := ?k, pmr_remote_addr := ?a\<rparr>) f2)) = Some mr"
    using e(1) by (simp add: upd_pmr_def same_file_def)
  have "answers E ms (conn_rsp (pf_conn f2))"
    using exchange_answer [OF x(1) [unfolded r0]] m oc unfolding ms by simp
  then show ?thesis using map_read_ok [OF rd pm p] p oc by (auto simp: same_file_def upd_pmr_def)
qed

lemma client_unmap_answer:
  fixes E f s
  defines "ms \<equiv> pack_unmap_req (host E) (conn_req (pf_conn f)) (ucast (rmr_len (pmr_rmr (pf_priv_mr f))))
    (pmr_remote_addr (pf_priv_mr f)) # sends (cl_trace s)"
  assumes f: "cl_files s p = Some f" "wf_conn (pf_conn f)"
    and h: "rpmem_unmap E p s = Some (0, s')" and m: "\<And>m. answers E ms m \<Longrightarrow> wf_cmd m"
  shows "\<exists>m. answers E ms m \<and> wire_opcode m = opcode_val RPMEM_UNMAP_RSP \<and> wire_word m = 0"
proof -
  let ?pm = "pf_priv_mr f"
  let ?g = "\<lambda>m. pack_unmap_req (host E) m (ucast (rmr_len (pmr_rmr ?pm))) (pmr_remote_addr ?pm)"
  obtain r1 f1 t1 where x: "exchange E p ?g f (cl_trace s) = Some (r1, f1, t1)"
    and d: "unmap_destroy_mr p (if r1 \<noteq> 0 then r1
       else unpacked (unpack_unmap_rsp (host E) (conn_rsp (pf_conn f1)) (env_junk32 E t1))) f1 t1 s = Some (0, s')"
    by (rule unmap_cases [OF f(1) h])
  have "wf_conn (pf_conn f1)" using exchange_ok(3) [OF x f(2)] by simp
  then have w: "wf_cmd (conn_rsp (pf_conn f1))" by auto
  from d have "r1 = 0 \<and> wire_opcode (conn_rsp (pf_conn f1)) = opcode_val RPMEM_UNMAP_RSP \<and>
      wire_word (conn_rsp (pf_conn f1)) = 0"
    by (rule unmap_destroy_mr_ok) (use w in \<open>auto simp: unpacked_def unpack_wire EINVAL_def split: if_splits\<close>)
  with exchange_answer [of E p ?g f "cl_trace s" f1 t1] x m show ?thesis by (auto simp: ms_def)
qed

lemma client_commit_answer:
  fixes E f s
  defines "ms \<equiv> pack_commit_req (host E) (conn_req (pf_conn f)) (ucast (rmr_len (pmr_rmr (pf_priv_mr f))))
    (pmr_remote_addr (pf_priv_mr f)) # sends (cl_trace s)"
  assumes f: "cl_files s p = Some f" "wf_conn (pf_conn f)"
    and h: "rpmem_commit E p s = Some (0, s')" and m: "\<And>m. answers E ms m \<Longrightarrow> wf_cmd m"
  shows "\<exists>m. answers E ms m \<and> wire_opcode m = opcode_val RPMEM_COMMIT_RSP \<and> wire_word m = 0"
proof -
  obtain f' t where o: "s' = put_file p f' t s" "wf_conn (pf_conn f) \<longrightarrow> (0::cint) = 0 \<longrightarrow>
      wire_opcode (conn_rsp (pf_conn f')) = opcode_val RPMEM_COMMIT_RSP \<and> wire_word (conn_rsp (pf_conn f')) = 0"
    by (rule commit_result [OF f(1) h])
  from f(1) h obtain f1 t1 mr where x1: "post_rsp_recv E f (cl_trace s) = Some (0, f1, t1)"
    and c: "commit_request E p f1 (region_call IBV_WR_RDMA_WRITE (pf_conn f1) (pf_priv_mr f) mr # t1) s = Some (0, s')"
    by (cases rule: commit_cases) auto
  note e1 = post_rsp_recv_ok [OF x1]
  from c obtain f2 t2 f3 t3 where x2: "send_req E (\<lambda>m. pack_commit_req (host E) m (ucast (rmr_len (pmr_rmr (pf_priv_mr f1))))
      (pmr_remote_addr (pf_priv_mr f1))) f1 (region_call IBV_WR_RDMA_WRITE (pf_conn f1) (pf_priv_mr f) mr # t1) = Some (0, f2, t2)"
    and w: "wait_command E p f2 t2 = Some (f3, t3)" and s': "s' = put_file p f3 t3 s"
    by (cases rule: commit_request_cases) auto
  have "sends t2 = ms" using send_req_ok(3) [OF x2] e1(1,3) by (auto simp: ms_def sends_posted region_wr_def)
  moreover have "conn_rsp (pf_conn f2) = zero_cmd" by (simp add: send_req_ok(1) [OF x2] e1(1))
  ultimately have "conn_rsp (pf_conn f3) = zero_cmd \<or> answers E ms (conn_rsp (pf_conn f3))"
    using wait_command_rsp(1) [OF w] m by simp
  moreover have "cl_files s' p = Some f'" unfolding o(1) by simp
  then have "f3 = f'" unfolding s' by simp
  ultimately show ?thesis using o(2) f(2) by auto
qed

section \<open>What the server did\<close>

lemma handle_open_reply:
  assumes r: "unit_ready s u" and h: "rpmem_handle_open E u s = Some (ret, s')"
  shows "rsp_of s' u = pack_open_rsp (host E) (srv_free_size (sv_server s)) (rsp_of s u) \<and>
    avail s' = avail s \<and> sv_resources s' = sv_resources s"
proof -
  let ?p = "pack_open_rsp (host E) (srv_free_size (sv_server s))"
  from r obtain c where c: "post_req_recv E u s =
      Some (if env_int E (c # sv_trace s) \<noteq> 0 then -1 else 0, rearmed u c s)" "payload c = None"
    by (rule post_req_recvE)
  have "rpmem_handle_open E u s = send_rsp E u ?p (if env_int E (c # sv_trace s) \<noteq> 0 then -1 else 0) (rearmed u c s)"
    by (simp add: rpmem_handle_open_def send_rsp_def c(1) Let_def)
  moreover have r1: "unit_ready (rearmed u c s) u" using r by simp
  moreover obtain c' where "send_rsp E u ?p (if env_int E (c # sv_trace s) \<noteq> 0 then -1 else 0) (rearmed u c s) =
      Some (if env_int E (c' # sv_trace (rearmed u c s)) \<noteq> 0 then -1
        else if env_int E (c # sv_trace s) \<noteq> 0 then -1 else 0, replied u ?p c' (rearmed u c s))"
    by (rule send_rspE [OF r1, of E ?p "if env_int E (c # sv_trace s) \<noteq> 0 then -1 else 0"])
  ultimately have "s' = replied u ?p c' (rearmed u c s)" using h by simp
  with r r1 show ?thesis by simp
qed

lemma handle_commit_success:
  assumes r: "unit_ready s u" and h: "rpmem_handle_commit E u s = Some (ret, s')"
    and ok: "wire_word (rsp_of s' u) = 0"
  shows "\<exists>c t. sv_trace s' = c # Msync (wire_addr (req_of s u)) (scast (wire_word (req_of s u))) # t \<and>
    env_int E (Msync (wire_addr (req_of s u)) (scast (wire_word (req_of s u))) # t) = 0"
proof -
  from r obtain un mq ms where un: "sv_units s u = Some un" "conn_req_mr (unit_conn un) = Some mq"
    "wf_conn (unit_conn un)"
    by (rule unit_readyE)
  let ?c = "recv_call (unit_conn un) Conn_req mq"
  let ?m = "Msync (wire_addr (req_of s u)) (scast (wire_word (req_of s u)))"
  let ?s1 = "set_trace (?m # ?c # sv_trace s) (rearmed u ?c s)"
  have rq: "req_of s u = conn_req (unit_conn un)" "wf_cmd (conn_req (unit_conn un))"
    using un by (auto simp: req_of_def)
  have out: "v = 0 \<and> (\<exists>c. sv_trace s' = c # sv_trace s1)"
    if r1: "unit_ready s1 u" and h1: "send_rsp E u (\<lambda>m. pack_commit_rsp (host E) m v) v s1 = Some (ret, s')" for v s1
  proof -
    obtain c where "send_rsp E u (\<lambda>m. pack_commit_rsp (host E) m v) v s1 =
        Some (if env_int E (c # sv_trace s1) \<noteq> 0 then -1 else v, replied u (\<lambda>m. pack_commit_rsp (host E) m v) c s1)"
      by (rule send_rspE [OF r1, of E "\<lambda>m. pack_commit_rsp (host E) m v" v])
    with r1 h1 ok show ?thesis by auto
  qed
  show ?thesis
  proof (cases "env_int E (?c # sv_trace s) = 0")
    case True
    with h un rq have "send_rsp E u (\<lambda>m. pack_commit_rsp (host E) m (env_int E (?m # ?c # sv_trace s)))
        (env_int E (?m # ?c # sv_trace s)) ?s1 = Some (ret, s')"
      by (simp add: rpmem_handle_commit_def post_req_recv_eq srv_call_eq handle_out_eq Let_def)
    from out [OF _ this] r show ?thesis by auto
  next
    case False
    with h un have "send_rsp E u (\<lambda>m. pack_commit_rsp (host E) m (-1)) (-1) (rearmed u ?c s) = Some (ret, s')"
      by (simp add: rpmem_handle_commit_def post_req_recv_eq handle_out_eq Let_def)
    from out [OF _ this] r show ?thesis by auto
  qed
qed

text \<open>The last call of a history has registered \<open>n\<close> bytes at the address \<open>a\<close> as \<open>mr\<close>.\<close>

definition registered :: "env \<Rightarrow> u64 \<Rightarrow> u64 \<Rightarrow> ibv_mr \<Rightarrow> trace \<Rightarrow> bool" where
  "registered E a n mr t \<longleftrightarrow> (\<exists>pd fs t'. t = Ibv_reg_mr pd (Vaddr a) n fs # t') \<and> env_mr E t = Some mr"

lemma handle_map_res_reply:
  assumes r: "unit_ready s u" and h: "handle_map_res E u len q s = Some (ret, s')"
    and mr: "res_mr (sv_resources s' q) = Some mr"
  shows "rsp_of s' u = pack_map_rsp (host E) (rsp_of s u) (mr_rkey mr) (res_addr (sv_resources s' q)) \<and>
    res_map_len (sv_resources s' q) = len \<and>
    registered E (res_addr (sv_resources s' q)) (scast len) mr (tl (sv_trace s'))"
proof -
  from r obtain un where un: "sv_units s u = Some un" by (auto elim: unit_readyE)
  have out: "rsp_of s' u = f (rsp_of s1 u) \<and> sv_resources s' = sv_resources s1 \<and> tl (sv_trace s') = sv_trace s1"
    if r1: "unit_ready s1 u" and h1: "send_rsp E u f v s1 = Some (ret, s')" for f v s1
    by (rule send_rspE [OF r1, of E f v]) (use r1 h1 in auto)
  show ?thesis
    using h un r mr
    by (auto simp: handle_map_res_def srv_call_eq handle_out_eq registered_def Let_def split: option.splits if_splits
        dest!: out [rotated])
qed

lemma handle_map_reply:
  assumes r: "unit_ready s u" and h: "rpmem_handle_map E u s = Some (ret, s')"
    and o: "owner s u = None" "owner s' u = Some q" and mr: "res_mr (sv_resources s' q) = Some mr"
  shows "wire_word (rsp_of s' u) = mr_rkey mr \<and> wire_addr (rsp_of s' u) = res_addr (sv_resources s' q) \<and>
    res_map_len (sv_resources s' q) = wire_word (req_of s u) \<and>
    registered E (res_addr (sv_resources s' q)) (scast (wire_word (req_of s u))) mr (tl (sv_trace s'))"
proof -
  from r obtain un mq ms where un: "sv_units s u = Some un" "conn_req_mr (unit_conn un) = Some mq"
    "wf_conn (unit_conn un)"
    by (rule unit_readyE)
  let ?c = "recv_call (unit_conn un) Conn_req mq" and ?len = "req_len (host E) (conn_req (unit_conn un))"
  have rr: "unit_ready (rearmed u ?c s) u" using r by simp
  have keep: "owner s' u = None" if "send_rsp E u f v (rearmed u ?c s) = Some (ret, s')" for f v
    using send_rsp_abs [OF rr that] o(1) by (simp add: abs_pool_def)
  show ?thesis
  proof (cases "env_int E (?c # sv_trace s) = 0 \<and> find_res (sv_resources s) ?len (avail s) \<noteq> None")
    case True
    then obtain q' where q': "find_res (sv_resources s) ?len (avail s) = Some q'" by auto
    with h un True have m: "handle_map_res E u ?len q' (taken u q' (rearmed u ?c s)) = Some (ret, s')"
      by (simp add: rpmem_handle_map_def post_req_recv_eq pool_take_eq Let_def)
    have rt: "unit_ready (taken u q' (rearmed u ?c s)) u" using r by simp
    have "owner s' u = Some q'"
      using handle_map_res_abs [OF rt m] un by (simp add: abs_pool_def owner_taken)
    with o(2) have "q' = q" by simp
    with handle_map_res_reply [OF rt m] mr r un show ?thesis by (auto simp: req_of_def)
  next
    case False
    with h un o(1) have "\<exists>f v. send_rsp E u f v (rearmed u ?c s) = Some (ret, s')"
      by (auto simp: rpmem_handle_map_def post_req_recv_eq pool_take_eq handle_out_eq owner_def Let_def
          split: if_splits)
    with keep o(2) show ?thesis by auto
  qed
qed

lemma handle_commit_replies:
  assumes r: "unit_ready s u" and ok: "\<And>t. env_int E t = 0"
  shows "\<exists>s'. rpmem_handle_commit E u s = Some (0, s') \<and> rsp_of s' u = pack_commit_rsp (host E) (rsp_of s u) 0"
proof -
  from r obtain un mq ms where un: "sv_units s u = Some un" "conn_req_mr (unit_conn un) = Some mq"
    by (rule unit_readyE)
  let ?c = "recv_call (unit_conn un) Conn_req mq" and ?f = "\<lambda>m. pack_commit_rsp (host E) m 0"
  have "\<exists>t. rpmem_handle_commit E u s = send_rsp E u ?f 0 (set_trace t (rearmed u ?c s))"
    using un ok by (auto simp: rpmem_handle_commit_def post_req_recv_eq srv_call_eq handle_out_eq Let_def)
  then obtain t where h: "rpmem_handle_commit E u s = send_rsp E u ?f 0 (set_trace t (rearmed u ?c s))" by blast
  have rr: "unit_ready (set_trace t (rearmed u ?c s)) u" using r by simp
  show ?thesis by (rule send_rspE [OF rr, of E ?f 0]) (use ok h r in auto)
qed

section \<open>A server whose connection holds its resource\<close>

definition held_state :: "bytes \<Rightarrow> server_state" where
  "held_state m = \<lparr>sv_server = demo_server\<lparr>srv_res_list := [], srv_in_use_size := 8192, srv_free_size := 0\<rparr>,
     sv_resources = (\<lambda>_. \<lparr>res_fd = 3, res_st_size = 8192, res_name = Some ''pmem'', res_mr = Some ok_mr,
       res_addr = 9, res_map_len = 512\<rparr>),
     sv_units = (\<lambda>_. None)(1 \<mapsto> \<lparr>unit_conn = demo_conn m, unit_res = Some 0\<rparr>),
     sv_trace = []\<rparr>"

lemma held_ready: "wf_cmd m \<Longrightarrow> unit_ready (held_state m) 1"
  by (simp add: unit_ready_def held_state_def demo_conn_def conn_zero_def wf_conn_def wf_cmd_def)

lemma held_simps [simp]:
  "sv_units (held_state m) 1 = Some \<lparr>unit_conn = demo_conn m, unit_res = Some 0\<rparr>"
  "res_mr (sv_resources (held_state m) r) = Some ok_mr" "req_of (held_state m) 1 = m"
  "owner (held_state m) 1 = Some 0" "avail (held_state m) = []"
  by (simp_all add: held_state_def req_of_def demo_conn_def owner_def avail_def demo_server_def)

end
