(* ===== verification/Client_System.thy ===== *)
theory Client_System
  imports Client_Spec
begin

text \<open>
  Any number of files and any sequence of calls: the functions of the library that work on one open
  file share an interface, \<open>file_op\<close>, and the states a client reaches by calling the library keep
  an invariant. The last section says which work requests a successful call has posted.
\<close>

section \<open>The invariant of the client\<close>

text \<open>
  The file list holds exactly the files in memory, each once, and the message buffers of every file
  have their size.
\<close>

definition client_inv :: "client_state \<Rightarrow> bool" where
  "client_inv s \<longleftrightarrow>
     distinct (cl_file_list s) \<and> set (cl_file_list s) = dom (cl_files s) \<and>
     (\<forall>p f. cl_files s p = Some f \<longrightarrow> p \<noteq> NULL \<and> wf_conn (pf_conn f))"

lemma client_inv_file: "client_inv s \<Longrightarrow> cl_files s p = Some f \<Longrightarrow> wf_conn (pf_conn f)"
  by (simp add: client_inv_def)

text \<open>An operation on one open file stores the file back, with buffers of the same size.\<close>

locale file_op =
  fixes opn :: "env \<Rightarrow> ptr \<Rightarrow> client_state \<Rightarrow> ('r \<times> client_state) option"
  assumes stores: "opn E p s = Some (r, s') \<Longrightarrow>
    \<exists>f f' t. cl_files s p = Some f \<and> s' = put_file p f' t s \<and> (wf_conn (pf_conn f) \<longrightarrow> wf_conn (pf_conn f'))"
begin

lemma keeps_inv:
  assumes "opn E p s = Some (r, s')" and "client_inv s"
  shows "client_inv s'"
proof -
  obtain f f' t where o: "cl_files s p = Some f" "s' = put_file p f' t s" "wf_conn (pf_conn f) \<longrightarrow> wf_conn (pf_conn f')"
    using stores [OF assms(1)] by blast
  then have "dom (cl_files s') = dom (cl_files s)" by auto
  with o assms(2) show ?thesis by (auto simp: client_inv_def)
qed

lemma keeps_list: "opn E p s = Some (r, s') \<Longrightarrow> cl_file_list s' = cl_file_list s"
  by (drule stores) auto

lemma others:
  assumes "opn E p s = Some (r, s')" and "q \<noteq> p"
  shows "cl_files s' q = cl_files s q" and "cl_file_list s' = cl_file_list s"
  using stores [OF assms(1)] assms(2) by (auto simp: put_file_def)

lemma needs_open: "cl_files s p = None \<Longrightarrow> opn E p s = None"
  using stores [of E p s] by (cases "opn E p s") fastforce+

end

lemma file_conn_simps [simp]:
  "pf_conn (upd_rmr g f) = pf_conn f" "pf_conn (upd_pmr g' f) = pf_conn f"
  by (simp_all add: upd_rmr_def upd_pmr_def)

lemma wait_command_wf:
  "wait_command E p f t = Some (f', t') \<Longrightarrow> wf_conn (pf_conn f) \<Longrightarrow> wf_conn (pf_conn f')"
  using wait_command_ok [of E p f t f' t'] by (simp add: cq_ok_def)

text \<open>The labels of map and unmap store a file with the same connection.\<close>

definition stored :: "ptr \<Rightarrow> client_state \<Rightarrow> rpmem_conn \<Rightarrow> client_state \<Rightarrow> bool" where
  "stored p s c s' \<longleftrightarrow> (\<exists>f' t. s' = put_file p f' t s \<and> (wf_conn c \<longrightarrow> wf_conn (pf_conn f')))"

lemma storedI: "wf_conn c \<longrightarrow> wf_conn (pf_conn f') \<Longrightarrow> stored p s c (put_file p f' t s)"
  by (auto simp: stored_def)

lemma stored_labels:
  "map_destroy_mr p f t s = Some (r, s') \<Longrightarrow> stored p s (pf_conn f) s'"
  "map_destroy_rkey p f t s = Some (r, s') \<Longrightarrow> stored p s (pf_conn f) s'"
  "unmap_destroy_mr p rt f t s = Some (rt', s') \<Longrightarrow> stored p s (pf_conn f) s'"
  by (auto simp: stored_def map_label_defs unmap_destroy_mr_def bind_eq_Some_conv Let_def)

lemma stored_map_read:
  assumes "map_read E p f t s = Some (r, s')"
  shows "stored p s (pf_conn f) s'"
  using assms
proof (cases rule: map_read_cases)
  case (no_read mr)
  from stored_labels(2) [OF no_read(3)] show ?thesis .
next
  case (waited mr f1 t1)
  with wait_command_wf [OF waited(3)] show ?thesis by (auto intro: storedI)
qed

lemma commit_request_wf:
  assumes "commit_request E p f t s = Some (r, s')"
  shows "stored p s (pf_conn f) s'"
  using assms
proof (cases rule: commit_request_cases)
  case (no_send f2 t2)
  with send_req_ok(1) [OF no_send(2)] show ?thesis by (auto intro!: storedI simp: wf_conn_def)
next
  case (waited f2 t2 f3 t3)
  have "wf_conn (pf_conn f) \<Longrightarrow> wf_conn (pf_conn f2)"
    using send_req_ok(1) [OF waited(1)] by (auto simp: wf_conn_def)
  with waited(4) wait_command_wf [OF waited(2)] show ?thesis by (auto intro: storedI)
qed

lemma file_opI:
  assumes "cl_files s p = Some f" and "stored p s c s'" and "wf_conn (pf_conn f) \<Longrightarrow> wf_conn c"
  shows "\<exists>f f' t. cl_files s p = Some f \<and> s' = put_file p f' t s \<and> (wf_conn (pf_conn f) \<longrightarrow> wf_conn (pf_conn f'))"
  using assms by (auto simp: stored_def)

interpretation unmap_op: file_op rpmem_unmap
proof (unfold_locales, goal_cases)
  case (1 E p s r s')
  then obtain f where f: "cl_files s p = Some f" by (cases "cl_files s p") (simp_all add: rpmem_unmap_def)
  from f 1 show ?case
  proof (cases rule: unmap_cases)
    case (1 r1 f1 t1)
    from file_opI [OF f stored_labels(3) [OF 1(2)]] exchange_ok(3) [OF 1(1)] show ?thesis by simp
  qed
qed

interpretation commit_op: file_op rpmem_commit
proof (unfold_locales, goal_cases)
  case (1 E p s r s')
  then obtain f where f: "cl_files s p = Some f" by (cases "cl_files s p") (simp_all add: rpmem_commit_def)
  have w: "post_rsp_recv E f (cl_trace s) = Some (r1, f1, t1) \<Longrightarrow> wf_conn (pf_conn f) \<Longrightarrow> wf_conn (pf_conn f1)" for r1 f1 t1
    using post_rsp_recv_ok(1) by fastforce
  from f 1 show ?case
  proof (cases rule: commit_cases)
    case (no_recv f1 t1)
    with f w show ?thesis by blast
  next
    case (no_write f1 t1 mr)
    with f w show ?thesis by blast
  next
    case (requested f1 t1 mr)
    from file_opI [OF f commit_request_wf [OF requested(3)]] w [OF requested(1)] show ?thesis by blast
  qed
qed

interpretation map_op: file_op "\<lambda>E p. rpmem_map E p len" for len
proof (unfold_locales, goal_cases)
  case (1 E p s r s')
  then obtain f where f: "cl_files s p = Some f" by (cases "cl_files s p") (simp_all add: rpmem_map_def)
  let ?a = "env_ptr E (Calloc len # cl_trace s)"
  show ?case
  proof (cases "?a = NULL \<or> env_mr E (map_local_trace E len s f) = None")
    case True
    with 1 f have "stored p s (pf_conn f) s'"
      by (cases "?a = NULL")
        (auto simp: rpmem_map_def call_defs map_out_def map_destroy_addr_def Let_def map_local_trace_def intro!: storedI)
    from file_opI [OF f this] show ?thesis by simp
  next
    case False
    then obtain mr where a: "?a \<noteq> NULL" "env_mr E (map_local_trace E len s f) = Some mr" by auto
    obtain ret f2 t2 where x: "exchange E p (\<lambda>m. pack_map_req (host E) m (ucast len)) (map_local E len s f mr)
        (map_local_trace E len s f) = Some (ret, f2, t2)"
      "ret \<noteq> 0 \<longrightarrow> map_destroy_mr p f2 t2 s = Some (r, s')"
      "ret = 0 \<longrightarrow> (let (ret, rkey, ra) = unpack_map_rsp (host E) (conn_rsp (pf_conn f2))
         (pmr_rkey (pf_priv_mr f2)) (pmr_remote_addr (pf_priv_mr f2));
       f3 = upd_pmr (\<lambda>m. m\<lparr>pmr_rkey := rkey, pmr_remote_addr := ra\<rparr>) f2
       in (if ret \<noteq> 0 then map_destroy_mr p f3 t2 s else map_read E p f3 t2 s)) = Some (r, s')"
      by (rule map_exchange [OF f a 1])
    have "stored p s (pf_conn f2) s'"
      using x(2,3) by (cases "ret = 0") (auto simp: Let_def split_beta split: if_splits dest!: stored_labels stored_map_read)
    from file_opI [OF f this] exchange_ok(3) [OF x(1)] show ?thesis by (simp add: map_local_def)
  qed
qed

section \<open>Threads between the calls\<close>

text \<open>
  A round that a helper thread of the file makes while no call of the library is under way: an event
  of the connection manager, or a completion event as long as the completion thread runs.
\<close>

definition cm_round_between :: "env \<Rightarrow> ptr \<Rightarrow> client_state \<Rightarrow> (bool \<times> client_state) option" where
  "cm_round_between E p s = do {
     f \<leftarrow> cl_files s p;
     (running, f, t) \<leftarrow> client_cm_thread_round E p f (cl_trace s);
     Some (running, put_file p f t s)
   }"

definition cq_round_between :: "env \<Rightarrow> ptr \<Rightarrow> client_state \<Rightarrow> (bool \<times> client_state) option" where
  "cq_round_between E p s = do {
     f \<leftarrow> cl_files s p;
     (running, f, t) \<leftarrow>
       (if pf_cq_running f then client_cq_thread_round E f (cl_trace s) else Some (False, f, cl_trace s));
     Some (running, put_file p (f\<lparr>pf_cq_running := running\<rparr>) t s)
   }"

interpretation cm_between: file_op cm_round_between
proof (unfold_locales, goal_cases)
  case (1 E p s r s')
  then obtain f f' t where "cl_files s p = Some f" "client_cm_thread_round E p f (cl_trace s) = Some (r, f', t)"
    "s' = put_file p f' t s" by (auto simp: cm_round_between_def bind_eq_Some_conv)
  moreover from this have "wf_conn (pf_conn f) \<longrightarrow> wf_conn (pf_conn f')"
    using cm_thr.round_ok by (fastforce simp: thread_ok_def)
  ultimately show ?case by blast
qed

interpretation cq_between: file_op cq_round_between
proof (unfold_locales, goal_cases)
  case (1 E p s r s')
  then obtain f f' t where f: "cl_files s p = Some f" "s' = put_file p (f'\<lparr>pf_cq_running := r\<rparr>) t s"
    and c: "(if pf_cq_running f then client_cq_thread_round E f (cl_trace s) else Some (False, f, cl_trace s)) = Some (r, f', t)"
    by (auto simp: cq_round_between_def bind_eq_Some_conv)
  have "wf_conn (pf_conn f) \<longrightarrow> wf_conn (pf_conn f')"
    using c cq_thr.cq_round by (fastforce simp: cq_ok_def split: if_splits)
  with f show ?case by auto
qed

section \<open>Sequences of calls\<close>

text \<open>
  Steps of a client: a call of the library that returns, a round of a helper thread of any file, or
  an external call of the program around it. A structure \<^verbatim>\<open>calloc\<close> returns is not one
  that is in use.
\<close>

inductive client_step :: "env \<Rightarrow> client_state \<Rightarrow> client_state \<Rightarrow> bool" for E where
  open_call: "cl_files s (env_ptr E (Calloc_struct Priv_rpmem_file # cl_trace s)) = None \<Longrightarrow>
    rpmem_open E dst s = Some (r, s') \<Longrightarrow> client_step E s s'"
| close_call: "rpmem_close E p s = Some (ret, s') \<Longrightarrow> client_step E s s'"
| map_call: "rpmem_map E p len s = Some (r, s') \<Longrightarrow> client_step E s s'"
| unmap_call: "rpmem_unmap E p s = Some (ret, s') \<Longrightarrow> client_step E s s'"
| commit_call: "rpmem_commit E p s = Some (ret, s') \<Longrightarrow> client_step E s s'"
| cm_thread: "cm_round_between E p s = Some (running, s') \<Longrightarrow> client_step E s s'"
| cq_thread: "cq_round_between E p s = Some (running, s') \<Longrightarrow> client_step E s s'"
| other_call: "client_step E s (s\<lparr>cl_trace := c # cl_trace s\<rparr>)"

inductive client_reach :: "env \<Rightarrow> client_state \<Rightarrow> client_state \<Rightarrow> bool" for E s0 where
  init: "client_reach E s0 s0"
| next_call: "client_reach E s0 s \<Longrightarrow> client_step E s s' \<Longrightarrow> client_reach E s0 s'"

lemma open_inv:
  assumes h: "rpmem_open E dst s = Some (r, s')" and inv: "client_inv s"
    and fresh: "cl_files s (env_ptr E (Calloc_struct Priv_rpmem_file # cl_trace s)) = None"
  shows "client_inv s'"
proof -
  obtain p ch cid t3 where st: "open_start E s = (p, ch, cid, t3)" by (cases "open_start E s") auto
  with fresh have p: "cl_files s p = None" by (auto simp: open_start_def Let_def)
  from h st show ?thesis
  proof (cases rule: open_result)
    case failed
    moreover from p have "(cl_files s)(p := None) = cl_files s" by (simp add: fun_upd_idem)
    ultimately show ?thesis using inv by (auto simp: client_inv_def)
  next
    case (opened f1 t1 f' t')
    with inv p show ?thesis by (auto simp: client_inv_def)
  qed
qed

lemma close_effect:
  assumes "rpmem_close E p s = Some (ret, s')"
  shows "ret = 0 \<and> p \<in> set (cl_file_list s) \<and> cl_files s p \<noteq> None \<and>
    cl_files s' = (cl_files s)(p := None) \<and> cl_file_list s' = remove1 p (cl_file_list s)"
proof -
  obtain f where f: "cl_files s p = Some f"
    using assms by (cases "cl_files s p") (simp_all add: rpmem_close_def)
  show ?thesis
    by (rule close_result [OF f assms]) (auto simp: close_out_def Let_def f)
qed

lemma client_step_inv: "client_step E s s' \<Longrightarrow> client_inv s \<Longrightarrow> client_inv s'"
proof (induction rule: client_step.induct)
  case (open_call s dst r s')
  then show ?case using open_inv by blast
next
  case (close_call p s ret s')
  from close_effect [OF close_call(1)] close_call(2) show ?case
    by (auto simp: client_inv_def split: if_splits)
next
  case (other_call s c)
  then show ?case by (simp add: client_inv_def)
qed (auto intro: map_op.keeps_inv unmap_op.keeps_inv commit_op.keeps_inv cm_between.keeps_inv cq_between.keeps_inv)

lemma client_reach_inv: "client_reach E s0 s \<Longrightarrow> client_inv s0 \<Longrightarrow> client_inv s"
  by (induction rule: client_reach.induct) (auto intro: client_step_inv)

section \<open>The work a call posts\<close>

text \<open>Work requests, newest first, by what they do: a message by its opcode, an RDMA operation.\<close>

datatype work = Msg u32 | Rdma ibv_wr_opcode

definition work_of :: "ibv_send_wr \<times> bytes \<Rightarrow> work" where
  "work_of x = (if swr_opcode (fst x) = IBV_WR_SEND then Msg (wire_opcode (snd x)) else Rdma (swr_opcode (fst x)))"

definition work :: "client_state \<Rightarrow> work list" where
  "work s = map work_of (posted (cl_trace s))"

lemma work_of_simps [simp]:
  "swr_opcode wr = IBV_WR_SEND \<Longrightarrow> work_of (wr, m) = Msg (wire_opcode m)"
  "swr_opcode wr \<noteq> IBV_WR_SEND \<Longrightarrow> work_of (wr, m) = Rdma (swr_opcode wr)"
  by (simp_all add: work_of_def)

lemma region_wr_opcode [simp]: "swr_opcode (region_wr oc pm mr) = oc"
  by (simp add: region_wr_def)

lemma open_work:
  assumes "rpmem_open E dst s = Some (p, s')" and "p \<noteq> NULL"
  shows "\<exists>f. cl_files s' p = Some f \<and> wf_conn (pf_conn f) \<and> cl_file_list s' = p # cl_file_list s \<and>
    work s' = Msg (opcode_val RPMEM_OPEN_REQ) # work s"
proof -
  obtain q ch cid t3 where st: "open_start E s = (q, ch, cid, t3)" by (cases "open_start E s") auto
  from assms(1) st show ?thesis
  proof (cases rule: open_result)
    case (opened f1 t1 f' t')
    then have "wf_cmd (conn_req (pf_conn f1))" by auto
    with opened show ?thesis by (auto simp: work_def)
  qed (use assms(2) in simp)
qed

lemma map_work:
  assumes f: "cl_files s p = Some f" and wf: "wf_conn (pf_conn f)" and p: "p \<noteq> NULL"
    and h: "rpmem_map E p len s = Some (r, s')" "r \<noteq> NULL"
  shows "\<exists>f'. cl_files s' p = Some f' \<and> wf_conn (pf_conn f') \<and> cl_file_list s' = cl_file_list s \<and> r = p \<and>
    work s' = Rdma IBV_WR_RDMA_READ # Msg (opcode_val RPMEM_MAP_REQ) # work s"
proof -
  have "wf_cmd (conn_req (pf_conn f))" using wf by auto
  moreover obtain f' where f': "cl_files s' p = Some f'" "wf_conn (pf_conn f')"
    using map_op.stores [OF h(1)] f wf by auto
  moreover note client_map_result [OF f p h(1), unfolded map_outcome_def]
  ultimately show ?thesis using h(2) by (auto simp: work_def)
qed

lemma commit_work:
  assumes f: "cl_files s p = Some f" and wf: "wf_conn (pf_conn f)" and h: "rpmem_commit E p s = Some (0, s')"
  shows "\<exists>f'. cl_files s' p = Some f' \<and> wf_conn (pf_conn f') \<and> cl_file_list s' = cl_file_list s \<and>
    work s' = Msg (opcode_val RPMEM_COMMIT_REQ) # Rdma IBV_WR_RDMA_WRITE # work s"
proof -
  have "wf_cmd (conn_req (pf_conn f))" using wf by auto
  moreover obtain f' where f': "cl_files s' p = Some f'" "wf_conn (pf_conn f')"
    using commit_op.stores [OF h] f wf by auto
  ultimately show ?thesis
    by (rule_tac commit_result [OF f h]) (auto simp: work_def commit_msg_def)
qed

lemma unmap_posted:
  assumes f: "cl_files s p = Some f" and wf: "wf_conn (pf_conn f)" and h: "rpmem_unmap E p s = Some (0, s')"
  shows "cl_file_list s' = cl_file_list s \<and> (\<exists>wr. posted (cl_trace s') =
    (wr, pack_unmap_req (host E) (conn_req (pf_conn f)) (ucast (rmr_len (pmr_rmr (pf_priv_mr f))))
      (pmr_remote_addr (pf_priv_mr f))) # posted (cl_trace s) \<and> swr_opcode wr = IBV_WR_SEND)"
proof -
  let ?pm = "pf_priv_mr f"
  let ?g = "\<lambda>m. pack_unmap_req (host E) m (ucast (rmr_len (pmr_rmr ?pm))) (pmr_remote_addr ?pm)"
  obtain r1 f1 t1 where x: "exchange E p ?g f (cl_trace s) = Some (r1, f1, t1)"
    and d: "unmap_destroy_mr p (if r1 \<noteq> 0 then r1
       else unpacked (unpack_unmap_rsp (host E) (conn_rsp (pf_conn f1)) (env_junk32 E t1))) f1 t1 s = Some (0, s')"
    by (rule unmap_cases [OF f h])
  from d have "r1 = 0" by (rule unmap_destroy_mr_ok) (simp split: if_splits)
  with exchange_ok(4) [OF x] obtain wr where wr: "posted t1 = (wr, ?g (conn_req (pf_conn f))) # posted (cl_trace s)"
    "swr_opcode wr = IBV_WR_SEND" by blast
  have "posted (cl_trace s') = posted t1" "cl_file_list s' = cl_file_list s"
    using d by (auto elim!: unmap_destroy_mr_ok)
  then show ?thesis using wr by auto
qed

lemma unmap_work:
  assumes f: "cl_files s p = Some f" and wf: "wf_conn (pf_conn f)" and h: "rpmem_unmap E p s = Some (0, s')"
  shows "\<exists>f'. cl_files s' p = Some f' \<and> wf_conn (pf_conn f') \<and> cl_file_list s' = cl_file_list s \<and>
    work s' = Msg (opcode_val RPMEM_UNMAP_REQ) # work s"
proof -
  have "wf_cmd (conn_req (pf_conn f))" using wf by auto
  moreover obtain f' where "cl_files s' p = Some f'" "wf_conn (pf_conn f')"
    using unmap_op.stores [OF h] f wf by auto
  ultimately show ?thesis using unmap_posted [OF f wf h] by (auto simp: work_def)
qed

lemma exchange_posted:
  assumes "exchange E p g f t = Some (ret, f', t')"
  shows "posted t' = posted t \<or>
    (\<exists>wr. posted t' = (wr, g (conn_req (pf_conn f))) # posted t \<and> swr_opcode wr = IBV_WR_SEND)"
  using assms
proof (cases rule: exchange_cases)
  case no_recv
  with post_rsp_recv_ok(3) [OF no_recv(2)] show ?thesis by simp
next
  case (no_send f1 t1)
  with exchange_sent(3) [OF no_send(2,3)] show ?thesis by blast
next
  case (waited f1 t1 f2 t2)
  with exchange_ok(4) [OF assms] show ?thesis by blast
qed

lemma close_posted:
  assumes f: "cl_files s p = Some f" and h: "rpmem_close E p s = Some (ret, s')"
  shows "posted (cl_trace s') = posted (cl_trace s) \<or>
    (\<exists>wr. posted (cl_trace s') = (wr, pack_close_req (host E) (conn_req (pf_conn f))) # posted (cl_trace s) \<and>
      swr_opcode wr = IBV_WR_SEND)"
proof -
  from close_effect [OF h] have l: "slist_remove p (cl_file_list s) = Some (remove1 p (cl_file_list s))"
    by (auto intro: slist_remove_in)
  obtain r1 f1 t1 where x: "exchange E p (pack_close_req (host E)) f (cl_trace s) = Some (r1, f1, t1)"
    using h f l by (cases "exchange E p (pack_close_req (host E)) f (cl_trace s)") (auto simp: rpmem_close_def)
  have "posted (cl_trace s') = posted t1" using h f l x by (auto simp: rpmem_close_def close_out_def Let_def)
  then show ?thesis using exchange_posted [OF x] by auto
qed

lemma close_work:
  assumes "cl_files s p = Some f" and "wf_conn (pf_conn f)" and "rpmem_close E p s = Some (ret, s')"
  shows "work s' = work s \<or> work s' = Msg (opcode_val RPMEM_CLOSE_REQ) # work s"
proof -
  have "wf_cmd (conn_req (pf_conn f))" using assms(2) by auto
  then show ?thesis using close_posted [OF assms(1,3)] by (auto simp: work_def)
qed

section \<open>The polling loop\<close>

lemma poll_loop_bounded:
  assumes "\<And>h. env_int E (Ibv_poll_cq cq 16 # h) \<le> 16" and "conn_cq (pf_conn f) = cq" and "k < 64"
  shows "\<exists>n f'. client_cq_event_loop E k f t = Some (0, f', replicate n (Ibv_poll_cq cq 16) @ t) \<and> 0 < n \<and> n \<le> 64 - k"
  using assms(2,3)
proof (induction "64 - k" arbitrary: k f t rule: less_induct)
  case less
  let ?c = "Ibv_poll_cq cq 16"
  let ?n = "env_int E (?c # t)"
  let ?f = "wcs_done E (?c # t) (map (env_wc E (?c # t)) [0..<unat ?n]) f"
  note eq = client_cq_event_loop_eq [of E k f t, unfolded less.prems(1)]
  have small: "\<not> 16 < ?n" using assms(1) [of t] by (simp add: not_less)
  have one: "?c # t = replicate 1 ?c @ t" by simp
  show ?case
  proof (cases "?n = 0 \<or> 64 \<le> k + unat ?n")
    case True
    have "\<exists>f'. client_cq_event_loop E k f t = Some (0, f', replicate 1 ?c @ t)"
      using True small unfolding eq by auto
    then show ?thesis using less.prems(2) by (metis One_nat_def Suc_leI less_one zero_less_diff)
  next
    case False
    then have loop: "client_cq_event_loop E k f t = client_cq_event_loop E (k + unat ?n) ?f (?c # t)"
      using small unfolding eq by simp
    have "unat ?n > 0" using False neq0_unat by blast
    moreover have "conn_cq (pf_conn ?f) = cq"
      using handle_wcs_ok [of E f t] less.prems(1) by (simp add: cq_ok_def same_file_def)
    ultimately obtain n f' where "client_cq_event_loop E (k + unat ?n) ?f (?c # t) =
        Some (0, f', replicate n ?c @ ?c # t)" "0 < n" "n \<le> 64 - (k + unat ?n)"
      using less.hyps [of "k + unat ?n" ?f "?c # t"] False by fastforce
    with loop \<open>unat ?n > 0\<close> have "client_cq_event_loop E k f t = Some (0, f', replicate (Suc n) ?c @ t) \<and>
        0 < Suc n \<and> Suc n \<le> 64 - k"
      by (simp add: replicate_app_Cons_same)
    then show ?thesis by blast
  qed
qed

text \<open>The completion handlers of the client never fail, so that only the array can be overrun.\<close>

lemma poll_loop_overruns:
  assumes "k < 64" and "conn_cq (pf_conn f) = cq"
  shows "client_cq_event_loop E k f t = None \<longleftrightarrow> overruns (poll_result E cq t) k"
  using assms
proof (induction "64 - k" arbitrary: k f t rule: less_induct)
  case less
  let ?t = "Ibv_poll_cq cq 16 # t"
  let ?n = "env_int E ?t" and ?f = "wcs_done E ?t (map (env_wc E ?t) [0..<unat (env_int E ?t)]) f"
  have "conn_cq (pf_conn ?f) = cq" using handle_wcs_ok [of E f t] less.prems(2) by (simp add: cq_ok_def same_file_def)
  then have "client_cq_event_loop E (k + unat ?n) ?f ?t = None \<longleftrightarrow> overruns (poll_result E cq ?t) (k + unat ?n)"
    if "?n \<noteq> 0" "k + unat ?n < 64"
    using less.hyps [of "k + unat ?n" ?f ?t] that neq0_unat [OF that(1)] by simp
  moreover have "\<not> overruns r k'" if "64 \<le> k'" for r k' using that by (simp add: overruns_def)
  ultimately show ?case using less.prems(1)
    unfolding client_cq_event_loop_eq [of E k f t, unfolded less.prems(2)]
    by (subst overruns_step) (auto simp: poll_result_simps not_less not_le)
qed

lemma poll_loop_zero: "client_cq_event_loop E k f t = Some (ret, f', t') \<Longrightarrow> ret = 0"
proof (induction "64 - k" arbitrary: k f t rule: less_induct)
  case less
  let ?n = "env_int E (Ibv_poll_cq (conn_cq (pf_conn f)) 16 # t)"
  show ?case
  proof (cases "?n = 0 \<or> 64 \<le> k + unat ?n")
    case True
    then show ?thesis using less.prems unfolding client_cq_event_loop_eq [of E k] by (auto split: if_splits)
  next
    case False
    then have "64 - (k + unat ?n) < 64 - k" using neq0_unat [of ?n] by linarith
    from less.hyps [OF this] less.prems False show ?thesis
      unfolding client_cq_event_loop_eq [of E k] by (auto split: if_splits)
  qed
qed

section \<open>Properties\<close>

text \<open>
  C23: a completion event is handled in bounded time. When polling never fails, the handler of the
  client's completion thread returns 0 after at least one and at most 64 polls of its queue, however
  fast completions arrive, and makes no other call.
\<close>
theorem client_polls_bounded:
  assumes "\<And>h. env_int E (Ibv_poll_cq (conn_cq (pf_conn f)) 16 # h) \<le> 16"
  shows "\<exists>n f'. client_cq_event_handler E f t =
      Some (0, f', replicate n (Ibv_poll_cq (conn_cq (pf_conn f)) 16) @ t) \<and> 0 < n \<and> n \<le> 64"
  using poll_loop_bounded [OF assms refl, of 0 t] by (simp add: client_cq_event_handler_def)

theorem client_polls_bounded_witness:
  "\<exists>n f'. client_cq_event_handler (ok_env\<lparr>env_int := (\<lambda>_. 1)\<rparr>) demo_file [] =
     Some (0, f', replicate n (Ibv_poll_cq 65536 16)) \<and> n \<le> 64"
  using client_polls_bounded [of "ok_env\<lparr>env_int := (\<lambda>_. 1)\<rparr>" demo_file "[]"] by auto

text \<open>
  C38: a failing poll makes the client read outside its array. The result of \<open>ibv_poll_cq\<close> is kept in
  an unsigned count, so that an error return is a huge one. The handler of the client's completion
  thread has no result exactly when it makes a poll, after polls that found fewer than 64 completions
  together, that fails (is negative) or reports more than the 16 completions there is room for: never
  for another reason, and never is a poll error turned into the result -1 as the check after the
  loop intends.
\<close>
theorem client_poll_out_of_bounds:
  "(client_cq_event_handler E f t = None \<longleftrightarrow> overruns (poll_result E (conn_cq (pf_conn f)) t) 0) \<and>
   (client_cq_event_handler E f t = None \<or> (\<exists>f' t'. client_cq_event_handler E f t = Some (0, f', t')))"
  using poll_loop_overruns [of 0 f _ E t] poll_loop_zero
  by (cases "client_cq_event_loop E 0 f t") (auto simp: client_cq_event_handler_def)

text \<open>
  C17: the states of a client. Starting without files, after any sequence of library calls on any
  files with rounds of their threads in between, whatever the platform and the server answer, the
  file list holds exactly the files in
  memory, each of them once, and the request and response buffers of every file are 48 bytes.
\<close>
theorem client_states:
  assumes "client_reach E s0 s" and "cl_files s0 = (\<lambda>_. None)" and "cl_file_list s0 = []"
  shows "distinct (cl_file_list s) \<and> set (cl_file_list s) = dom (cl_files s) \<and>
    (\<forall>p f. cl_files s p = Some f \<longrightarrow> length (conn_req (pf_conn f)) = 48 \<and> length (conn_rsp (pf_conn f)) = 48)"
proof -
  have "client_inv s0" using assms(2,3) by (simp add: client_inv_def)
  from client_reach_inv [OF assms(1) this] show ?thesis
    by (auto simp: client_inv_def wf_conn_def wf_cmd_def RPMEM_CMD_SIZE_def)
qed

theorem client_states_witness:
  "\<exists>s. rpmem_open (open_env up_events (pack_open_rsp BE 8192 zero_cmd)) [] client_start = Some (65536, s) \<and>
     set (cl_file_list s) = dom (cl_files s)"
proof -
  let ?E = "open_env up_events (pack_open_rsp BE 8192 zero_cmd)"
  obtain s where h: "rpmem_open ?E [] client_start = Some (65536, s)" using demo_open by blast
  have "client_reach ?E client_start s"
    by (rule client_reach.next_call [OF client_reach.init], rule client_step.open_call [OF _ h])
      (simp add: client_start_def)
  from client_states [OF this] h show ?thesis by (simp add: client_start_def)
qed

end
