(* ===== verification/C_Strings.thy ===== *)
theory C_Strings
  imports Verbs_Common
begin

text \<open>
  What the programs use of the C library to read numbers from their arguments: \<^verbatim>\<open>strtol\<close>
  with base 0 (the server) and \<^verbatim>\<open>atoi\<close> (the example clients), and the port number as it
  ends up in a socket address.
\<close>

section \<open>Reading a number\<close>

definition is_space :: "char \<Rightarrow> bool" where
  "is_space c = (let n = (of_char c :: nat) in n = 32 \<or> 9 \<le> n \<and> n \<le> 13)"

definition digit_val :: "char \<Rightarrow> nat option" where
  "digit_val c =
     (let n = (of_char c :: nat) in
      if 48 \<le> n \<and> n \<le> 57 then Some (n - 48)
      else if 97 \<le> n \<and> n \<le> 122 then Some (n - 87)
      else if 65 \<le> n \<and> n \<le> 90 then Some (n - 55) else None)"

fun parse_digits :: "nat \<Rightarrow> int \<Rightarrow> string \<Rightarrow> int" where
  "parse_digits b acc [] = acc"
| "parse_digits b acc (c # cs) =
     (case digit_val c of
        Some d \<Rightarrow> if d < b then parse_digits b (acc * int b + int d) cs else acc
      | None \<Rightarrow> acc)"

definition is_hex :: "char \<Rightarrow> bool" where
  "is_hex c = (case digit_val c of Some d \<Rightarrow> d < 16 | None \<Rightarrow> False)"

text \<open>The base \<^verbatim>\<open>strtol\<close> uses and the digits that are left, for the bases 0 and 10.\<close>

fun base_prefix :: "nat \<Rightarrow> string \<Rightarrow> nat \<times> string" where
  "base_prefix b [] = (if b = 0 then 10 else b, [])"
| "base_prefix b (c # cs) =
     (if b \<noteq> 0 then (b, c # cs)
      else if c \<noteq> CHR ''0'' then (10, c # cs)
      else
        (case cs of
           x # d # rest \<Rightarrow>
             if (x = CHR ''x'' \<or> x = CHR ''X'') \<and> is_hex d then (16, d # rest) else (8, c # cs)
         | _ \<Rightarrow> (8, c # cs)))"

definition clamp_long :: "int \<Rightarrow> int" where
  "clamp_long v = max (- (2 ^ 63)) (min (2 ^ 63 - 1) v)"

definition strtol :: "string \<Rightarrow> nat \<Rightarrow> int" where
  "strtol s b =
     (let s = dropWhile is_space s;
          (neg, s) = (case s of
             c # cs \<Rightarrow> if c = CHR ''-'' then (True, cs) else if c = CHR ''+'' then (False, cs) else (False, s)
           | [] \<Rightarrow> (False, s));
          (b, s) = base_prefix b s;
          v = parse_digits b 0 s
      in clamp_long (if neg then - v else v))"

text \<open>\<^verbatim>\<open>atoi\<close> is \<^verbatim>\<open>strtol\<close> in base 10, cut to an \<^verbatim>\<open>int\<close>.\<close>

definition atoi :: "string \<Rightarrow> cint" where
  "atoi s = word_of_int (strtol s 10)"

section \<open>Writing a number\<close>

fun dec_string :: "nat \<Rightarrow> string" where
  "dec_string n = (if n < 10 then [char_of (48 + n)] else dec_string (n div 10) @ [char_of (48 + n mod 10)])"

declare dec_string.simps [simp del]

lemma digit_val_dec [simp]: "d < 10 \<Longrightarrow> digit_val (char_of (48 + d)) = Some d"
  by (simp add: digit_val_def Let_def)

lemma parse_dec:
  "parse_digits 10 acc (dec_string n @ cs) =
     parse_digits 10 (acc * 10 ^ length (dec_string n) + int n) cs"
proof (induction n arbitrary: acc cs rule: dec_string.induct)
  case (1 n)
  show ?case
  proof (cases "n < 10")
    case True
    then show ?thesis by (simp add: dec_string.simps [of n])
  next
    case False
    have "parse_digits 10 acc (dec_string n @ cs) =
        parse_digits 10 (acc * 10 ^ length (dec_string (n div 10)) + int (n div 10)) (char_of (48 + n mod 10) # cs)"
      using "1.IH" [OF False] False by (simp add: dec_string.simps [of n])
    also have "\<dots> = parse_digits 10 ((acc * 10 ^ length (dec_string (n div 10)) + int (n div 10)) * 10 + int (n mod 10)) cs"
      by simp
    also have "(acc * 10 ^ length (dec_string (n div 10)) + int (n div 10)) * 10 + int (n mod 10) =
        acc * 10 ^ length (dec_string n) + int n"
      using False by (simp add: dec_string.simps [of n] algebra_simps zdiv_int zmod_int)
    finally show ?thesis .
  qed
qed

lemma dec_string_head: "\<exists>d cs. dec_string n = char_of (48 + d :: nat) # cs \<and> d < 10 \<and> (d = 0 \<longrightarrow> n = 0)"
proof (induction n rule: dec_string.induct)
  case (1 n)
  show ?case
  proof (cases "n < 10")
    case True
    then have "dec_string n = char_of (48 + n) # [] \<and> n < 10 \<and> (n = 0 \<longrightarrow> n = 0)"
      by (simp add: dec_string.simps [of n])
    then show ?thesis by blast
  next
    case False
    with "1.IH" obtain d cs where "dec_string (n div 10) = char_of (48 + d :: nat) # cs" "d < 10"
      "d = 0 \<longrightarrow> n div 10 = 0"
      by blast
    moreover from this(3) False have "d \<noteq> 0" by (cases "d = 0") (auto simp: div_eq_0_iff)
    ultimately have "dec_string n = char_of (48 + d :: nat) # (cs @ [char_of (48 + n mod 10)]) \<and> d < 10 \<and> (d = 0 \<longrightarrow> n = 0)"
      using False by (simp add: dec_string.simps [of n])
    then show ?thesis by blast
  qed
qed

lemma dec_char_facts:
  assumes "d < 10"
  shows "\<not> is_space (char_of (48 + d :: nat))" "char_of (48 + d :: nat) \<noteq> CHR ''-''"
    "char_of (48 + d :: nat) \<noteq> CHR ''+''" "char_of (48 + d :: nat) = CHR ''0'' \<longleftrightarrow> d = 0"
proof -
  have "take_bit 8 (48 + d) = 48 + d" using assms by (simp add: take_bit_nat_eq_self)
  then show "\<not> is_space (char_of (48 + d :: nat))" "char_of (48 + d :: nat) \<noteq> CHR ''-''"
    "char_of (48 + d :: nat) \<noteq> CHR ''+''" "char_of (48 + d :: nat) = CHR ''0'' \<longleftrightarrow> d = 0"
    using assms by (auto simp: is_space_def Let_def char_of_eq_iff)
qed

lemma strtol_dec:
  assumes "n < 2 ^ 63" and "b = 0 \<or> b = 10"
  shows "strtol (dec_string n) b = int n"
proof -
  obtain d cs where d: "dec_string n = char_of (48 + d :: nat) # cs" "d < 10" "d = 0 \<longrightarrow> n = 0"
    using dec_string_head by blast
  note c = dec_char_facts [OF d(2)]
  have v: "parse_digits 10 0 (dec_string n) = int n" using parse_dec [of 0 n "[]"] by simp
  have "snd (base_prefix b (dec_string n)) = dec_string n \<and>
      parse_digits (fst (base_prefix b (dec_string n))) 0 (dec_string n) = int n"
  proof (cases "b = 0 \<and> d = 0")
    case True
    with d have "n = 0" by simp
    then show ?thesis using True by (simp add: dec_string.simps char_of_def digit_val_def)
  next
    case False
    then have "base_prefix b (dec_string n) = (10, dec_string n)"
      using assms(2) c(4) by (cases "b = 0") (simp_all add: d(1))
    then show ?thesis by (simp add: v)
  qed
  then show ?thesis
    using c d(1) assms(1) by (auto simp: strtol_def Let_def split_beta clamp_long_def)
qed

section \<open>The port in an address\<close>

lemma store_htons: "store_word e 2 (htons e w) = rev (le_bytes 2 w)"
  by (simp add: store_word_def htons_def bswap16_def split: endian.split)

lemma port_bytes: "n < 65536 \<Longrightarrow> rev (le_bytes 2 (of_nat n :: u16)) = [of_nat (n div 256), of_nat (n mod 256)]"
proof -
  assume n: "n < 65536"
  have "ucast (drop_bit 8 (of_nat n :: u16)) = (of_nat (n div 256) :: u8)"
    using n by (subst word_unat_eq_iff)
      (simp add: unsigned_ucast_eq unsigned_drop_bit_eq unsigned_of_nat take_bit_eq_mod drop_bit_eq_div unat_div)
  moreover have "ucast (of_nat n :: u16) = (of_nat (n mod 256) :: u8)"
    by (intro word_uint_eqI) (simp add: unsigned_ucast_eq unsigned_of_nat take_bit_eq_mod zmod_int mod_mod_cancel)
  ultimately show ?thesis by (simp add: le_bytes_def upt_rec)
qed

lemma dec_digits [simp]:
  "char_of (48::nat) = CHR ''0''" "char_of (49::nat) = CHR ''1''" "char_of (50::nat) = CHR ''2''"
  "char_of (51::nat) = CHR ''3''" "char_of (52::nat) = CHR ''4''" "char_of (53::nat) = CHR ''5''"
  "char_of (54::nat) = CHR ''6''" "char_of (55::nat) = CHR ''7''" "char_of (56::nat) = CHR ''8''"
  "char_of (57::nat) = CHR ''9''"
  by code_simp+

end
