(* ===== verification/Example_Clients.thy ===== *)
theory Example_Clients
  imports Client_System C_Strings "HOL-Library.Signed_Division"
begin

text \<open>
  The three example programs (\<^verbatim>\<open>simple_open_close.c\<close>,
  \<^verbatim>\<open>simple_map_unmap.c\<close>, \<^verbatim>\<open>simple_commit.c\<close>), each a
  \<^verbatim>\<open>main\<close> over the client library. The result is the exit status and the state of the
  library at that point; \<open>argv\<close> is the argument vector, \<open>ssin\<close> what the stack holds in the address
  structure.
\<close>

section \<open>Connecting\<close>

text \<open>
  The part the three programs share: the argument check, the port, the address and
  \<^verbatim>\<open>rpmem_open\<close>. \<open>Inl\<close> is an exit status.
\<close>

definition example_port :: "env \<Rightarrow> string list \<Rightarrow> u16" where
  "example_port E argv = htons (host E) (ucast (atoi (argv ! 2)))"

definition example_open ::
  "env \<Rightarrow> string list \<Rightarrow> bytes \<Rightarrow> client_state \<Rightarrow> ((cint + ptr) \<times> client_state) option" where
  "example_open E argv ssin s =
     (if length argv \<noteq> 3 then Some (Inl 1, s)
      else do {
        let (ret, ssin, t) = get_addr E (Some (argv ! 1)) ssin (example_port E argv) (cl_trace s);
        let s = s\<lparr>cl_trace := t\<rparr>;
        if ret \<noteq> 0 then Some (Inl 1, s) else do {
        (rfile, s) \<leftarrow> rpmem_open E ssin s;
        Some (if rfile = NULL then Inl 1 else Inr rfile, s)
        }})"

text \<open>After the label \<^verbatim>\<open>out\<close>: close the file and exit with \<open>ret\<close>.\<close>

definition example_out :: "env \<Rightarrow> ptr \<Rightarrow> cint \<Rightarrow> client_state \<Rightarrow> (cint \<times> client_state) option" where
  "example_out E rfile ret s = do {
     (rc, s) \<leftarrow> rpmem_close E rfile s;
     Some (if rc \<noteq> 0 then 1 else ret, s)
   }"

section \<open>The programs\<close>

definition simple_open_close :: "env \<Rightarrow> string list \<Rightarrow> bytes \<Rightarrow> client_state \<Rightarrow> (cint \<times> client_state) option" where
  "simple_open_close E argv ssin s = do {
     (r, s) \<leftarrow> example_open E argv ssin s;
     case r of Inl code \<Rightarrow> Some (code, s) | Inr rfile \<Rightarrow> example_out E rfile 0 s
   }"

text \<open>How much they map: one kilobyte less than the file has, but at least one.\<close>

definition cdiv :: "cint \<Rightarrow> cint \<Rightarrow> cint" where
  "cdiv a b = word_of_int (sint a sdiv sint b)"

definition example_map_size :: "cint \<Rightarrow> cint" where
  "example_map_size file_size =
     (if 1 <s cdiv file_size 1024 then 1024 * (cdiv file_size 1024 - 1) else 1024)"

text \<open>The \<^verbatim>\<open>int\<close> is sign-extended to the \<^verbatim>\<open>size_t\<close> the library takes.\<close>

definition example_map :: "env \<Rightarrow> ptr \<Rightarrow> client_state \<Rightarrow> (ptr \<times> client_state) option" where
  "example_map E rfile s = do {
     f \<leftarrow> cl_files s rfile;
     rpmem_map E rfile (scast (example_map_size (rf_size (pf_rfile f)))) s
   }"

definition simple_map_unmap :: "env \<Rightarrow> string list \<Rightarrow> bytes \<Rightarrow> client_state \<Rightarrow> (cint \<times> client_state) option" where
  "simple_map_unmap E argv ssin s = do {
     (r, s) \<leftarrow> example_open E argv ssin s;
     case r of Inl code \<Rightarrow> Some (code, s) | Inr rfile \<Rightarrow> do {
     (rmr, s) \<leftarrow> example_map E rfile s;
     if rmr = NULL then example_out E rfile 1 s else do {
     (ret, s) \<leftarrow> rpmem_unmap E rmr s;
     if ret \<noteq> 0 then example_out E rfile 1 s else example_out E rfile ret s
     }}}"

definition simple_commit :: "env \<Rightarrow> string list \<Rightarrow> bytes \<Rightarrow> client_state \<Rightarrow> (cint \<times> client_state) option" where
  "simple_commit E argv ssin s = do {
     (r, s) \<leftarrow> example_open E argv ssin s;
     case r of Inl code \<Rightarrow> Some (code, s) | Inr rfile \<Rightarrow> do {
     (rmr, s) \<leftarrow> example_map E rfile s;
     if rmr = NULL then example_out E rfile 1 s else do {
     (ret, s) \<leftarrow> rpmem_commit E rmr s;
     if ret \<noteq> 0 then example_out E rfile 1 s else do {
     (ret, s) \<leftarrow> rpmem_unmap E rmr s;
     if ret \<noteq> 0 then example_out E rfile 1 s else example_out E rfile ret s
     }}}}"

section \<open>Sessions\<close>

lemma example_open_ok:
  assumes "example_open E argv ssin s = Some (Inr p, s')"
  shows "p \<noteq> NULL \<and> (\<exists>f. cl_files s' p = Some f \<and> wf_conn (pf_conn f)) \<and>
    cl_file_list s' = p # cl_file_list s \<and> work s' = Msg (opcode_val RPMEM_OPEN_REQ) # work s"
proof -
  obtain ret a t where g: "get_addr E (Some (argv ! 1)) ssin (example_port E argv) (cl_trace s) = (ret, a, t)"
    by (cases "get_addr E (Some (argv ! 1)) ssin (example_port E argv) (cl_trace s)")
  let ?s = "s\<lparr>cl_trace := t\<rparr>"
  from assms g have o: "rpmem_open E a ?s = Some (p, s')" "p \<noteq> NULL"
    by (auto simp: example_open_def bind_eq_Some_conv Let_def split: if_splits)
  have "posted t = posted (cl_trace s)" by (rule get_addr_posted [OF g])
  then have "work ?s = work s" by (simp add: work_def)
  with open_work [OF o] o(2) show ?thesis by auto
qed

lemma example_map_ok:
  assumes "example_map E p s = Some (r, s')" and "cl_files s p = Some f" and "wf_conn (pf_conn f)"
    and "p \<noteq> NULL" and "r \<noteq> NULL"
  shows "\<exists>f'. cl_files s' p = Some f' \<and> wf_conn (pf_conn f') \<and> cl_file_list s' = cl_file_list s \<and> r = p \<and>
    work s' = Rdma IBV_WR_RDMA_READ # Msg (opcode_val RPMEM_MAP_REQ) # work s"
  by (rule map_work [OF assms(2,3,4) _ assms(5), of E]) (use assms(1,2) in \<open>simp add: example_map_def\<close>)

lemma example_out_ok:
  assumes "example_out E p ret s = Some (0, s')" and "cl_files s p = Some f" and "wf_conn (pf_conn f)"
  shows "ret = 0 \<and> cl_files s' p = None \<and> cl_file_list s' = remove1 p (cl_file_list s) \<and>
    (work s' = work s \<or> work s' = Msg (opcode_val RPMEM_CLOSE_REQ) # work s)"
proof -
  from assms(1) obtain rc where c: "rpmem_close E p s = Some (rc, s')" and "rc \<noteq> 0 \<longrightarrow> False" "rc = 0 \<longrightarrow> ret = 0"
    by (auto simp: example_out_def bind_eq_Some_conv split: if_splits)
  with close_effect [OF c] close_work [OF assms(2,3) c] show ?thesis by auto
qed

text \<open>The calls of a run of \<^verbatim>\<open>simple_commit\<close> that exits with 0.\<close>

lemma simple_commit_steps:
  assumes "simple_commit E argv ssin s = Some (0, s')"
  obtains p s1 f1 s2 s3 s4 where "length argv = 3" "example_open E argv ssin s = Some (Inr p, s1)" "p \<noteq> NULL"
    "cl_files s1 p = Some f1" "wf_conn (pf_conn f1)"
    "rpmem_map E p (scast (example_map_size (rf_size (pf_rfile f1)))) s1 = Some (p, s2)"
    "rpmem_commit E p s2 = Some (0, s3)" "rpmem_unmap E p s3 = Some (0, s4)" "example_out E p 0 s4 = Some (0, s')"
proof -
  obtain r s1 where o: "example_open E argv ssin s = Some (r, s1)"
    using assms by (cases "example_open E argv ssin s") (auto simp: simple_commit_def)
  have "r \<noteq> Inl 0" using o by (auto simp: example_open_def bind_eq_Some_conv Let_def split: if_splits prod.splits)
  then obtain p where r: "r = Inr p" using assms o by (cases r) (auto simp: simple_commit_def)
  from example_open_ok [OF o [unfolded r]] obtain f1 where
    1: "p \<noteq> NULL" "cl_files s1 p = Some f1" "wf_conn (pf_conn f1)" by blast
  obtain q s2 where m: "example_map E p s1 = Some (q, s2)"
    using assms o r by (cases "example_map E p s1") (auto simp: simple_commit_def)
  have fail: "example_out E p 1 x \<noteq> Some (0, s')" for x
    by (auto simp: example_out_def bind_eq_Some_conv)
  then have "q \<noteq> NULL" using assms o r m by (auto simp: simple_commit_def)
  with example_map_ok [OF m 1(2,3,1)] have q: "q = p" by blast
  obtain s3 where c: "rpmem_commit E p s2 = Some (0, s3)"
    and rest: "Option.bind (rpmem_unmap E p s3) (\<lambda>(ret, s). if ret \<noteq> 0 then example_out E p 1 s
       else example_out E p ret s) = Some (0, s')"
    using assms o r m q 1(1) fail by (auto simp: simple_commit_def bind_eq_Some_conv split: if_splits)
  from rest fail obtain s4 where u: "rpmem_unmap E p s3 = Some (0, s4)" "example_out E p 0 s4 = Some (0, s')"
    by (auto simp: bind_eq_Some_conv split: if_splits)
  have "length argv = 3" using o r by (auto simp: example_open_def split: if_splits)
  moreover have "rpmem_map E p (scast (example_map_size (rf_size (pf_rfile f1)))) s1 = Some (p, s2)"
    using m q 1(2) by (simp add: example_map_def)
  ultimately show thesis using that o r 1 c u by blast
qed

section \<open>Properties\<close>

text \<open>
  C20: what a successful \<^verbatim>\<open>simple_commit\<close> did. When the program exits with 0, it
  posted, in this order and nothing else, the open request, the map request, the read of the region,
  the write of the region, the commit request, the unmap request and, if its buffers could be posted
  again, the close request; the file it opened is closed and the file list is what it was.
\<close>
theorem simple_commit_session:
  assumes "simple_commit E argv ssin s = Some (0, s')"
  shows "cl_file_list s' = cl_file_list s \<and> length argv = 3 \<and>
    (\<exists>cls. work s' = cls @ [Msg (opcode_val RPMEM_UNMAP_REQ), Msg (opcode_val RPMEM_COMMIT_REQ),
        Rdma IBV_WR_RDMA_WRITE, Rdma IBV_WR_RDMA_READ, Msg (opcode_val RPMEM_MAP_REQ),
        Msg (opcode_val RPMEM_OPEN_REQ)] @ work s \<and>
      (cls = [] \<or> cls = [Msg (opcode_val RPMEM_CLOSE_REQ)]))"
proof -
  obtain p s1 f s2 s3 s4 where st: "length argv = 3" "example_open E argv ssin s = Some (Inr p, s1)" "p \<noteq> NULL"
    "cl_files s1 p = Some f" "wf_conn (pf_conn f)"
    "rpmem_map E p (scast (example_map_size (rf_size (pf_rfile f)))) s1 = Some (p, s2)"
    "rpmem_commit E p s2 = Some (0, s3)" "rpmem_unmap E p s3 = Some (0, s4)" "example_out E p 0 s4 = Some (0, s')"
    by (rule simple_commit_steps [OF assms])
  from map_work [OF st(4,5,3,6,3)] obtain f2 where
    2: "cl_files s2 p = Some f2" "wf_conn (pf_conn f2)" "cl_file_list s2 = cl_file_list s1"
      "work s2 = Rdma IBV_WR_RDMA_READ # Msg (opcode_val RPMEM_MAP_REQ) # work s1" by blast
  from commit_work [OF 2(1,2) st(7)] obtain f3 where
    3: "cl_files s3 p = Some f3" "wf_conn (pf_conn f3)" "cl_file_list s3 = cl_file_list s2"
      "work s3 = Msg (opcode_val RPMEM_COMMIT_REQ) # Rdma IBV_WR_RDMA_WRITE # work s2" by blast
  from unmap_work [OF 3(1,2) st(8)] obtain f4 where
    4: "cl_files s4 p = Some f4" "wf_conn (pf_conn f4)" "cl_file_list s4 = cl_file_list s3"
      "work s4 = Msg (opcode_val RPMEM_UNMAP_REQ) # work s3" by blast
  note e = example_out_ok [OF st(9) 4(1,2)] and o = example_open_ok [OF st(2)]
  have "cl_file_list s' = cl_file_list s" using e o 4(3) 3(3) 2(3) by simp
  moreover have "work s' = work s4 \<or> work s' = Msg (opcode_val RPMEM_CLOSE_REQ) # work s4" using e by blast
  ultimately show ?thesis using st(1) o 2(4) 3(4) 4(4) by auto
qed

text \<open>
  A platform whose peer answers, seen from the client: \<open>r\<close> gives the reply to the messages sent so
  far, newest first.
\<close>

definition session_env :: "(bytes list \<Rightarrow> bytes option) \<Rightarrow> env" where
  "session_env r = (open_env up_events zero_cmd)\<lparr>env_inbox := (\<lambda>t. r (sends t))\<rparr>"

definition session_ready :: "priv_rpmem_file \<Rightarrow> bool" where
  "session_ready f \<longleftrightarrow> pf_cq_running f \<and> conn_cq (pf_conn f) = 65536 \<and> wf_conn (pf_conn f) \<and>
     conn_req_mr (pf_conn f) = Some ok_mr \<and> conn_rsp_mr (pf_conn f) = Some ok_mr"

lemma session_wf [simp]: "session_ready f \<Longrightarrow> wf_cmd (conn_req (pf_conn f))"
  by (auto simp: session_ready_def)

lemma session_wait:
  assumes "session_ready f" and "r (sends t) = Some x" and "wf_cmd x"
  shows "wait_command (session_env r) p f t =
    Some (f\<lparr>pf_conn := (pf_conn f)\<lparr>conn_rsp := x\<rparr>\<rparr>, wait_calls p (pf_conn f) @ t)"
proof -
  have "wf_cmd (conn_rsp (pf_conn f))" using assms(1) by (auto simp: session_ready_def)
  then show ?thesis
    using assms
    by (simp add: session_ready_def session_env_def wait_command_def run_cq_thread_def client_cq_thread_round_def
        client_cq_event_handler_def client_cq_event_loop_eq wcs_done_def client_handle_wc_def
        client_deliver_def upd_file_defs call_defs wait_calls_def Let_def)
qed

lemma sends_calls [simp]:
  "sends (wait_calls p c @ t) = sends t" "sends (recv_call c cmd mr # t) = sends t"
  "sends (send_call c cmd mr # t) = conn_buf c cmd # sends t"
  "sends (rdma_call c rk lk ra la n IBV_WR_RDMA_READ # t) = sends t"
  "sends (rdma_call c rk lk ra la n IBV_WR_RDMA_WRITE # t) = sends t"
  by (simp_all add: wait_calls_def recv_call_def send_call_def rdma_call_def payload_def)

lemma session_sel [simp]:
  "env_ptr (session_env r) t = 65536" "env_mr (session_env r) t = Some ok_mr" "host (session_env r) = LE"
  "\<not> is_poll c \<Longrightarrow> env_int (session_env r) (c # t) = 0" "env_junk32 (session_env r) t = 0"
  "env_inbox (session_env r) t = r (sends t)"
  by (simp_all add: session_env_def)

lemma session_ready_put [simp]:
  "session_ready f \<Longrightarrow> wf_cmd m \<Longrightarrow> session_ready (f\<lparr>pf_conn := (pf_conn f)\<lparr>conn_rsp := m\<rparr>\<rparr>)"
  "session_ready f \<Longrightarrow> wf_cmd m \<Longrightarrow> wf_cmd m' \<Longrightarrow>
     session_ready (f\<lparr>pf_conn := (pf_conn f)\<lparr>conn_rsp := m, conn_req := m'\<rparr>\<rparr>)"
  "session_ready f \<Longrightarrow> session_ready (upd_pmr h f)" "session_ready f \<Longrightarrow> session_ready (upd_rmr h' f)"
  by (auto simp: session_ready_def wf_conn_def upd_pmr_def upd_rmr_def)

lemma session_exchange:
  assumes f: "session_ready f" and g: "\<And>m. wf_cmd m \<Longrightarrow> wf_cmd (g m)"
    and x: "r (g (conn_req (pf_conn f)) # sends t) = Some x" "wf_cmd x"
  obtains f' t' where "exchange (session_env r) p g f t = Some (0, f', t')" "session_ready f'"
    "conn_rsp (pf_conn f') = x" "sends t' = g (conn_req (pf_conn f)) # sends t" "pf_priv_mr f' = pf_priv_mr f"
    "pf_rfile f' = pf_rfile f"
proof -
  let ?m = "g (conn_req (pf_conn f))"
  let ?f = "f\<lparr>pf_conn := (pf_conn f)\<lparr>conn_rsp := zero_cmd, conn_req := ?m\<rparr>\<rparr>"
  let ?t = "send_call (pf_conn ?f) Conn_req ok_mr # recv_call (pf_conn f) Conn_rsp ok_mr # t"
  have "wf_cmd ?m" using f by (intro g) simp
  then have rd: "session_ready ?f" using f by simp
  have "r (sends ?t) = Some x" using x(1) by (simp add: conn_buf_def)
  note w = session_wait [of ?f r ?t x p, OF rd this x(2)]
  have "exchange (session_env r) p g f t = Some (0, ?f\<lparr>pf_conn := (pf_conn ?f)\<lparr>conn_rsp := x\<rparr>\<rparr>, wait_calls p (pf_conn ?f) @ ?t)"
    using f w by (simp add: exchange_def post_rsp_recv_def send_req_def post_simps session_ready_def Let_def)
  moreover have "session_ready (?f\<lparr>pf_conn := (pf_conn ?f)\<lparr>conn_rsp := x\<rparr>\<rparr>)"
    by (rule session_ready_put(1) [OF rd x(2)])
  ultimately show thesis by (rule that) (simp_all add: conn_buf_def)
qed

lemma session_handshake:
  assumes f: "session_ready f" and x: "r (pack_open_req LE (conn_req (pf_conn f)) # sends t) = Some x" "wf_cmd x"
    "wire_opcode x = opcode_val RPMEM_OPEN_RSP"
  obtains s' f' where "open_handshake (session_env r) p f t s = Some (p, s')" "cl_files s' p = Some f'" "session_ready f'"
    "cl_file_list s' = p # cl_file_list s" "rf_size (pf_rfile f') = wire_word x"
    "sends (cl_trace s') = pack_open_req LE (conn_req (pf_conn f)) # sends t"
proof -
  obtain f' t' where e: "exchange (session_env r) p (pack_open_req LE) f t = Some (0, f', t')" "session_ready f'"
    "conn_rsp (pf_conn f') = x" "sends t' = pack_open_req LE (conn_req (pf_conn f)) # sends t"
    by (rule session_exchange [of f "pack_open_req LE" r t x p]) (use f x in simp_all)
  let ?f = "f'\<lparr>pf_rfile := (pf_rfile f')\<lparr>rf_size := wire_word x\<rparr>\<rparr>"
  have "session_ready ?f" using e(2) by (simp add: session_ready_def)
  moreover have "open_handshake (session_env r) p f t s =
      Some (p, (put_file p ?f t' s)\<lparr>cl_file_list := p # cl_file_list s\<rparr>)"
    using e(1,3) x(2,3) by (simp add: open_handshake_def unpack_wire Let_def)
  ultimately show thesis using e(4)
    by (intro that [of "(put_file p ?f t' s)\<lparr>cl_file_list := p # cl_file_list s\<rparr>" ?f]) simp_all
qed

lemma session_connect:
  "\<exists>f t'. wait_connect (session_env r) 65536 (open_file 65536 65536)
     (Rdma_resolve_addr 65536 a 2000 # Pthread_create CM_THREAD 65536 # Rdma_create_id 65536 #
      Rdma_create_event_channel # Calloc_struct Priv_rpmem_file # Freeaddrinfo # Getaddrinfo nm # []) = Some (f, t') \<and>
     pf_state f = RPMEM_ESTABLISHED \<and> session_ready f \<and> sends t' = []"
  by (simp add: open_eval session_env_def open_file_def session_ready_def conn_zero_def wf_conn_def wf_cmd_def
      is_cm_def is_poll_def)

definition session_argv :: "string list" where
  "session_argv = [''simple_commit'', ''10.0.0.1'', ''7174'']"

lemma session_open:
  assumes r: "\<And>m. wf_cmd m \<Longrightarrow> wire_opcode m = opcode_val RPMEM_OPEN_REQ \<Longrightarrow>
    \<exists>x. r [m] = Some x \<and> wf_cmd x \<and> wire_opcode x = opcode_val RPMEM_OPEN_RSP \<and> wire_word x = z"
  obtains s f m where "example_open (session_env r) session_argv [] client_start = Some (Inr 65536, s)"
    "cl_files s 65536 = Some f" "session_ready f" "cl_file_list s = [65536]" "rf_size (pf_rfile f) = z"
    "sends (cl_trace s) = [m]" "wf_cmd m" "wire_opcode m = opcode_val RPMEM_OPEN_REQ"
proof -
  let ?E = "session_env r" and ?nm = "Some ''10.0.0.1''"
  obtain a where g: "get_addr ?E ?nm [] (example_port ?E session_argv) [] = (0, a, [Freeaddrinfo, Getaddrinfo ?nm])"
  proof -
    let ?g = "get_addr ?E ?nm [] (example_port ?E session_argv) []"
    have "fst ?g = 0 \<and> snd (snd ?g) = [Freeaddrinfo, Getaddrinfo ?nm]"
      by (simp add: get_addr_def call_defs session_env_def open_env_def ok_env_def is_poll_def)
    with that [of "fst (snd ?g)"] show thesis by (cases ?g) auto
  qed
  let ?s = "client_start\<lparr>cl_trace := [Freeaddrinfo, Getaddrinfo ?nm]\<rparr>"
  obtain f t where w: "wait_connect ?E 65536 (open_file 65536 65536)
     (Rdma_resolve_addr 65536 a 2000 # Pthread_create CM_THREAD 65536 # Rdma_create_id 65536 #
      Rdma_create_event_channel # Calloc_struct Priv_rpmem_file # cl_trace ?s) = Some (f, t)"
    "pf_state f = RPMEM_ESTABLISHED" "session_ready f" "sends t = []"
    using session_connect by fastforce
  let ?m = "pack_open_req LE (conn_req (pf_conn f))"
  have m: "wf_cmd ?m" "wire_opcode ?m = opcode_val RPMEM_OPEN_REQ" using w(3) by simp_all
  from r [OF m] obtain x where x: "r (?m # sends t) = Some x" "wf_cmd x" "wire_opcode x = opcode_val RPMEM_OPEN_RSP"
    "wire_word x = z" using w(4) by auto
  obtain s f' where h: "open_handshake ?E 65536 f t ?s = Some (65536, s)" "cl_files s 65536 = Some f'"
    "session_ready f'" "cl_file_list s = 65536 # cl_file_list ?s" "rf_size (pf_rfile f') = wire_word x"
    "sends (cl_trace s) = ?m # sends t"
    by (rule session_handshake [of f r t x 65536 ?s, OF w(3) x(1-3)])
  have "rpmem_open ?E a ?s = Some (65536, s)"
  proof -
    have "open_start ?E ?s = (65536, 65536, 65536, Pthread_create CM_THREAD 65536 # Rdma_create_id 65536 #
        Rdma_create_event_channel # Calloc_struct Priv_rpmem_file # cl_trace ?s)"
      by (simp add: open_start_def)
    from open_go [OF this, of a] w h show ?thesis by simp
  qed
  then show thesis using g h w(4) x(4) m
    by (intro that [of s f' ?m]) (simp_all add: example_open_def client_start_def session_argv_def)
qed

lemma session_map:
  assumes f: "cl_files s 65536 = Some f" "session_ready f"
    and x: "r (pack_map_req LE (conn_req (pf_conn f)) (ucast len) # sends (cl_trace s)) = Some x" "wf_cmd x"
      "wire_opcode x = opcode_val RPMEM_MAP_RSP"
  obtains s' f' where "rpmem_map (session_env r) 65536 len s = Some (65536, s')" "cl_files s' 65536 = Some f'"
    "session_ready f'" "pmr_mr (pf_priv_mr f') = Some ok_mr" "cl_file_list s' = cl_file_list s"
    "sends (cl_trace s') = pack_map_req LE (conn_req (pf_conn f)) (ucast len) # sends (cl_trace s)"
proof -
  let ?E = "session_env r" and ?g = "\<lambda>m. pack_map_req LE m (ucast len)"
  let ?r = "Ibv_reg_mr (conn_pd (pf_conn f)) (Vaddr 65536) len [IBV_ACCESS_LOCAL_WRITE] # Calloc len # cl_trace s"
  let ?f = "upd_pmr (\<lambda>m. m\<lparr>pmr_mr := Some ok_mr\<rparr>) (upd_rmr (\<lambda>m. m\<lparr>rmr_len := len, rmr_addr := 65536\<rparr>) f)"
  have fc: "pf_conn ?f = pf_conn f" by (simp add: upd_pmr_def upd_rmr_def)
  obtain f1 t1 where e: "exchange ?E 65536 ?g ?f ?r = Some (0, f1, t1)" "session_ready f1" "conn_rsp (pf_conn f1) = x"
    "sends t1 = ?g (conn_req (pf_conn ?f)) # sends ?r" "pf_priv_mr f1 = pf_priv_mr ?f"
    by (rule session_exchange [of ?f ?g r ?r x 65536]) (use f(2) x fc in simp_all)
  let ?f2 = "upd_pmr (\<lambda>m. m\<lparr>pmr_rkey := wire_word x, pmr_remote_addr := wire_addr x\<rparr>) f1"
  have m2: "pmr_mr (pf_priv_mr ?f2) = Some ok_mr" "session_ready ?f2"
    using e(2,5) by (simp add: upd_pmr_def, simp)
  let ?c = "rdma_call (pf_conn ?f2) (wire_word x) (mr_lkey ok_mr) (wire_addr x) (Vaddr (rmr_addr (pmr_rmr (pf_priv_mr ?f2))))
    (ucast (rmr_len (pmr_rmr (pf_priv_mr ?f2)))) IBV_WR_RDMA_READ"
  have s1: "sends (?c # t1) = ?g (conn_req (pf_conn f)) # sends (cl_trace s)" using e(4) fc by simp
  then have "r (sends (?c # t1)) = Some x" using x(1) by simp
  note w = session_wait [of ?f2 r "?c # t1" x 65536, OF m2(2) this x(2)]
  let ?f3 = "?f2\<lparr>pf_conn := (pf_conn ?f2)\<lparr>conn_rsp := x\<rparr>\<rparr>"
  let ?s = "put_file 65536 ?f3 (wait_calls 65536 (pf_conn ?f2) @ ?c # t1) s"
  have "map_read ?E 65536 ?f2 t1 s = Some (65536, ?s)"
    using m2(1) w by (simp add: map_read_def post_simps Let_def upd_pmr_def)
  then have "rpmem_map ?E 65536 len s = Some (65536, ?s)"
    using f(1) e(1,3) x(2,3) by (simp add: rpmem_map_def call_defs unpack_wire Let_def)
  moreover have "session_ready ?f3" by (rule session_ready_put(1) [OF m2(2) x(2)])
  ultimately show thesis using m2(1) s1 by (intro that [of ?s ?f3]) simp_all
qed

lemma session_commit:
  assumes f: "cl_files s 65536 = Some f" "session_ready f" "pmr_mr (pf_priv_mr f) = Some ok_mr"
    and x: "r (commit_msg (session_env r) f # sends (cl_trace s)) = Some x" "wf_cmd x"
      "wire_opcode x = opcode_val RPMEM_COMMIT_RSP" "wire_word x = 0"
  obtains s' f' where "rpmem_commit (session_env r) 65536 s = Some (0, s')" "cl_files s' 65536 = Some f'"
    "session_ready f'" "pmr_mr (pf_priv_mr f') = Some ok_mr" "cl_file_list s' = cl_file_list s"
    "sends (cl_trace s') = commit_msg (session_env r) f # sends (cl_trace s)"
proof -
  let ?pm = "pf_priv_mr f" and ?E = "session_env r"
  let ?m = "pack_commit_req LE (conn_req (pf_conn f)) (ucast (rmr_len (pmr_rmr ?pm))) (pmr_remote_addr ?pm)"
  let ?f1 = "f\<lparr>pf_conn := (pf_conn f)\<lparr>conn_rsp := zero_cmd\<rparr>\<rparr>"
  let ?f2 = "f\<lparr>pf_conn := (pf_conn f)\<lparr>conn_rsp := zero_cmd, conn_req := ?m\<rparr>\<rparr>"
  let ?c = "rdma_call (pf_conn ?f1) (pmr_rkey ?pm) (mr_lkey ok_mr) (pmr_remote_addr ?pm)
      (Vaddr (rmr_addr (pmr_rmr ?pm))) (ucast (rmr_len (pmr_rmr ?pm))) IBV_WR_RDMA_WRITE"
  let ?t = "send_call (pf_conn ?f2) Conn_req ok_mr # ?c # recv_call (pf_conn f) Conn_rsp ok_mr # cl_trace s"
  have r2: "session_ready ?f2" using f(2) by simp
  have st: "sends ?t = ?m # sends (cl_trace s)" by (simp add: conn_buf_def)
  then have "r (sends ?t) = Some x" using x(1) by (simp add: commit_msg_def)
  note w = session_wait [of ?f2 r ?t x 65536, OF r2 this x(2)]
  let ?f3 = "?f2\<lparr>pf_conn := (pf_conn ?f2)\<lparr>conn_rsp := x\<rparr>\<rparr>"
  let ?s = "put_file 65536 ?f3 (wait_calls 65536 (pf_conn ?f2) @ ?t) s"
  have "rpmem_commit ?E 65536 s = Some (0, ?s)"
    using f w x(2-4) by (simp add: rpmem_commit_def commit_request_def post_rsp_recv_def send_req_def post_simps
        session_ready_def unpack_wire Let_def)
  moreover have "session_ready ?f3" by (rule session_ready_put(1) [OF r2 x(2)])
  ultimately show thesis using f(3) st by (intro that [of ?s ?f3]) (simp_all add: commit_msg_def)
qed

lemma session_unmap:
  assumes f: "cl_files s 65536 = Some f" "session_ready f" "pmr_mr (pf_priv_mr f) = Some ok_mr"
    and x: "r (pack_unmap_req LE (conn_req (pf_conn f)) (ucast (rmr_len (pmr_rmr (pf_priv_mr f))))
        (pmr_remote_addr (pf_priv_mr f)) # sends (cl_trace s)) = Some x" "wf_cmd x"
      "wire_opcode x = opcode_val RPMEM_UNMAP_RSP" "wire_word x = 0"
  obtains s' f' where "rpmem_unmap (session_env r) 65536 s = Some (0, s')" "cl_files s' 65536 = Some f'"
    "session_ready f'" "cl_file_list s' = cl_file_list s"
    "sends (cl_trace s') = pack_unmap_req LE (conn_req (pf_conn f)) (ucast (rmr_len (pmr_rmr (pf_priv_mr f))))
        (pmr_remote_addr (pf_priv_mr f)) # sends (cl_trace s)"
proof -
  let ?pm = "pf_priv_mr f" and ?E = "session_env r"
  let ?g = "\<lambda>m. pack_unmap_req LE m (ucast (rmr_len (pmr_rmr ?pm))) (pmr_remote_addr ?pm)"
  obtain f1 t1 where e: "exchange ?E 65536 ?g f (cl_trace s) = Some (0, f1, t1)" "session_ready f1"
    "conn_rsp (pf_conn f1) = x" "sends t1 = ?g (conn_req (pf_conn f)) # sends (cl_trace s)" "pf_priv_mr f1 = ?pm"
    by (rule session_exchange [of f ?g r "cl_trace s" x 65536]) (use f(2) x in simp_all)
  let ?f2 = "upd_rmr (\<lambda>m. m\<lparr>rmr_len := 0\<rparr>) (upd_pmr (\<lambda>m. m\<lparr>pmr_rkey := 0, pmr_remote_addr := 0\<rparr>) f1)"
  let ?s = "put_file 65536 ?f2 (Free (rmr_addr (pmr_rmr ?pm)) # Ibv_dereg_mr ok_mr # t1) s"
  have "rpmem_unmap ?E 65536 s = Some (0, ?s)"
    using f(1,3) e(1,3,5) x(2-4)
    by (simp add: rpmem_unmap_def unmap_destroy_mr_def dereg_def unpack_wire Let_def) (simp add: upd_pmr_def)
  moreover have "session_ready ?f2" using e(2) by simp
  ultimately show thesis using e(4) by (intro that [of ?s ?f2]) simp_all
qed

lemma session_close:
  assumes f: "cl_files s 65536 = Some f" "session_ready f" "cl_file_list s = [65536]"
    and x: "r (pack_close_req LE (conn_req (pf_conn f)) # sends (cl_trace s)) = Some x" "wf_cmd x"
  obtains s' where "rpmem_close (session_env r) 65536 s = Some (0, s')"
proof -
  obtain f5 t5 where "exchange (session_env r) 65536 (pack_close_req LE) f (cl_trace s) = Some (0, f5, t5)"
    by (rule session_exchange [of f "pack_close_req LE" r "cl_trace s" x 65536]) (use f(2) x in simp_all)
  then have "\<exists>s'. rpmem_close (session_env r) 65536 s = Some (0, s')"
    using f(1,3) by (simp add: rpmem_close_def close_out_def slist_remove_in Let_def)
  then show thesis using that by blast
qed

text \<open>A peer that grants everything.\<close>

definition reply_to :: "bytes \<Rightarrow> bytes" where
  "reply_to m =
     (if wire_opcode m = opcode_val RPMEM_OPEN_REQ then pack_open_rsp BE 8192 zero_cmd
      else if wire_opcode m = opcode_val RPMEM_MAP_REQ then pack_map_rsp BE zero_cmd 7 9
      else if wire_opcode m = opcode_val RPMEM_COMMIT_REQ then pack_commit_rsp BE zero_cmd 0
      else pack_unmap_rsp BE zero_cmd 0)"

definition granting :: "bytes list \<Rightarrow> bytes option" where
  "granting ms = Some (reply_to (hd ms))"

lemma granting_simps [simp]:
  "wire_opcode m = opcode_val RPMEM_OPEN_REQ \<Longrightarrow> granting (m # ms) = Some (pack_open_rsp BE 8192 zero_cmd)"
  "wire_opcode m = opcode_val RPMEM_MAP_REQ \<Longrightarrow> granting (m # ms) = Some (pack_map_rsp BE zero_cmd 7 9)"
  "wire_opcode m = opcode_val RPMEM_COMMIT_REQ \<Longrightarrow> granting (m # ms) = Some (pack_commit_rsp BE zero_cmd 0)"
  "wire_opcode m = opcode_val RPMEM_UNMAP_REQ \<Longrightarrow> granting (m # ms) = Some (pack_unmap_rsp BE zero_cmd 0)"
  "wire_opcode m = opcode_val RPMEM_CLOSE_REQ \<Longrightarrow> granting (m # ms) = Some (pack_unmap_rsp BE zero_cmd 0)"
  by (simp_all add: granting_def reply_to_def)

theorem simple_commit_session_witness:
  "\<exists>s'. simple_commit (session_env granting) session_argv [] client_start = Some (0, s') \<and>
     (\<exists>cls. work s' = cls @ [Msg 6, Msg 8, Rdma IBV_WR_RDMA_WRITE, Rdma IBV_WR_RDMA_READ, Msg 4, Msg 0])"
proof -
  let ?E = "session_env granting"
  obtain s1 f1 where 1: "example_open ?E session_argv [] client_start = Some (Inr 65536, s1)"
    "cl_files s1 65536 = Some f1" "session_ready f1" "cl_file_list s1 = [65536]" "rf_size (pf_rfile f1) = 8192"
    by (rule session_open [of granting 8192]) simp_all
  obtain s2 f2 where 2: "rpmem_map ?E 65536 (scast (example_map_size 8192)) s1 = Some (65536, s2)"
    "cl_files s2 65536 = Some f2" "session_ready f2" "pmr_mr (pf_priv_mr f2) = Some ok_mr" "cl_file_list s2 = cl_file_list s1"
    by (rule session_map [where r = granting and x = "pack_map_rsp BE zero_cmd 7 9", OF 1(2,3)]) (use 1(3) in simp_all)
  obtain s3 f3 where 3: "rpmem_commit ?E 65536 s2 = Some (0, s3)" "cl_files s3 65536 = Some f3"
    "session_ready f3" "pmr_mr (pf_priv_mr f3) = Some ok_mr" "cl_file_list s3 = cl_file_list s2"
    by (rule session_commit [where r = granting and x = "pack_commit_rsp BE zero_cmd 0", OF 2(2,3,4)])
      (use 2(3) in \<open>simp_all add: commit_msg_def\<close>)
  obtain s4 f4 where 4: "rpmem_unmap ?E 65536 s3 = Some (0, s4)" "cl_files s4 65536 = Some f4"
    "session_ready f4" "cl_file_list s4 = cl_file_list s3"
    by (rule session_unmap [where r = granting and x = "pack_unmap_rsp BE zero_cmd 0", OF 3(2,3,4)]) (use 3(3) in simp_all)
  obtain s5 where "rpmem_close ?E 65536 s4 = Some (0, s5)"
    by (rule session_close [where r = granting and x = "pack_unmap_rsp BE zero_cmd 0", OF 4(2,3)])
      (use 4(3,4) 3(5) 2(5) 1(4) in simp_all)
  then have h: "simple_commit ?E session_argv [] client_start = Some (0, s5)"
    using 1 2(1) 3(1) 4(1) by (simp add: simple_commit_def example_map_def example_out_def)
  from simple_commit_session [OF h] h show ?thesis by (auto simp: work_def client_start_def)
qed

text \<open>
  The examples ask for a mapping that can be granted. The length they map is positive and a
  multiple of 1024, and it is smaller than the size the server advertised, which is what the server
  requires, exactly when that size is more than 1024.
\<close>
theorem example_map_size_fits:
  "0 <s example_map_size z \<and> 1024 dvd sint (example_map_size z) \<and>
   (example_map_size z <s z \<longleftrightarrow> 1024 <s z)"
proof -
  let ?q = "sint z sdiv 1024"
  have z: "- (2 ^ 31) \<le> sint z" "sint z < 2 ^ 31" using sint_greater_eq [of z] sint_less [of z] by simp_all
  have q: "?q = (if 0 \<le> sint z then sint z div 1024 else - (- sint z div 1024))"
    by (cases "sint z = 0") (simp_all add: signed_divide_int_def sgn_if)
  have qb: "- (2 ^ 21) \<le> ?q" "?q < 2 ^ 21" using z unfolding q by auto
  have self: "sint (word_of_int k :: cint) = k" if "- (2 ^ 31) \<le> k" "k < 2 ^ 31" for k
    using that by (simp add: signed_of_int signed_take_bit_int_eq_self)
  have sq: "sint (cdiv z 1024) = ?q" using qb by (simp add: cdiv_def self)
  show ?thesis
  proof (cases "1 < ?q")
    case True
    have "example_map_size z = word_of_int (1024 * (?q - 1))"
      using True sq by (simp add: example_map_size_def word_sless_alt cdiv_def)
    moreover have "sint (word_of_int (1024 * (?q - 1)) :: cint) = 1024 * (?q - 1)"
      by (rule self) (use True qb in auto)
    ultimately have v: "sint (example_map_size z) = 1024 * (?q - 1)" by (simp only:)
    from True q have "0 \<le> sint z" "?q = sint z div 1024" by (auto split: if_splits)
    then have "2048 \<le> sint z" "1024 * ?q \<le> sint z" using True by auto
    with v True show ?thesis by (simp add: word_sless_alt)
  next
    case False
    then have "example_map_size z = 1024" using sq by (simp add: example_map_size_def word_sless_alt)
    then show ?thesis by (simp add: word_sless_alt)
  qed
qed

end
