(* ===== verification/Sessions.thy ===== *)
theory Sessions
  imports End_To_End Example_Clients
begin

text \<open>
  A client and the connection that serves it, over a whole session. The server handles the messages
  of the client one after the other, and between any two of them takes any steps for its other
  connections; what the device delivers to the client is the reply the server left for the messages
  sent so far.
\<close>

section \<open>The server between two messages\<close>

text \<open>The steps of the server that are not completions of the connection \<open>u\<close>.\<close>

inductive others :: "env \<Rightarrow> uid \<Rightarrow> server_state \<Rightarrow> server_state \<Rightarrow> bool" for E u where
  none: "others E u s s"
| completion: "others E u s s1 \<Longrightarrow> server_handle_wc E wc v (deliver E wc v s1) = Some s2 \<Longrightarrow>
    sv_units s1 v \<noteq> None \<Longrightarrow> v \<noteq> u \<Longrightarrow> others E u s s2"
| connect: "others E u s s1 \<Longrightarrow>
    sv_units s1 (env_ptr E (Calloc_struct Rpmem_server_unit # sv_trace s1)) = None \<Longrightarrow>
    rpmem_connect_request_handler E ev s1 = Some s2 \<Longrightarrow> others E u s s2"
| external: "others E u s s1 \<Longrightarrow> others E u s (set_trace (c # sv_trace s1) s1)"

lemma others_reach: "others E u s s' \<Longrightarrow> srv_reach E s s'"
  by (induction rule: others.induct) (auto intro: srv_reach.intros srv_step.intros)

text \<open>What the connection \<open>u\<close> keeps meanwhile: all of its unit, and the resource it holds.\<close>

definition undisturbed :: "uid \<Rightarrow> server_state \<Rightarrow> server_state \<Rightarrow> bool" where
  "undisturbed u s s' \<longleftrightarrow> sv_units s' u = sv_units s u \<and>
     (\<forall>q. owner s u = Some q \<longrightarrow> sv_resources s' q = sv_resources s q)"

lemma undisturbed_owner: "undisturbed u s s' \<Longrightarrow> owner s' u = owner s u"
  by (simp add: undisturbed_def owner_def)

lemma undisturbed_trans: "undisturbed u s s1 \<Longrightarrow> undisturbed u s1 s2 \<Longrightarrow> undisturbed u s s2"
  by (auto simp: undisturbed_def owner_def)

lemma handle_wc_undisturbed:
  assumes inv: "server_inv s" and v: "sv_units s v \<noteq> None" "v \<noteq> u"
    and h: "server_handle_wc E wc v s = Some s'"
  shows "undisturbed u s s'"
proof (cases "wc_status wc = IBV_WC_SUCCESS \<and> wc_opcode wc = IBV_WC_RECV")
  case True
  from inv v have r: "unit_ready s v" and p: "pool_inv s" by (simp_all add: server_inv_def)
  from True h obtain ret where d: "rpmem_rcv_completion E v s = Some (ret, s')"
    by (auto simp: server_handle_wc_def)
  from rcv_completion_result(2) [OF r d] held_resource_kept [OF r d p] v(2) show ?thesis
    by (auto simp: undisturbed_def isolated_def)
next
  case False
  then have "s' = s"
    using h by (auto simp: server_handle_wc_def rpmem_snd_completion_def
        split: if_splits ibv_wc_opcode.splits)
  then show ?thesis by (simp add: undisturbed_def)
qed

lemma deliver_undisturbed: "v \<noteq> u \<Longrightarrow> undisturbed u s (deliver E wc v s)"
  by (auto simp: undisturbed_def deliver_def split: option.split)

lemma others_keep:
  "others E u s s' \<Longrightarrow> server_inv s \<Longrightarrow> sv_units s u \<noteq> None \<Longrightarrow> server_inv s' \<and> undisturbed u s s'"
proof (induction rule: others.induct)
  case (completion s s1 wc v s2)
  then have 1: "server_inv s1" "undisturbed u s s1" by simp_all
  have d: "server_inv (deliver E wc v s1)" "sv_units (deliver E wc v s1) v \<noteq> None"
    using deliver_inv [OF 1(1)] deliver_valid [OF completion.hyps(3)] by simp_all
  from handle_wc_inv [OF d completion.hyps(2)] handle_wc_undisturbed [OF d completion.hyps(4,2)]
    deliver_undisturbed [OF completion.hyps(4), of s1 E wc] 1(2) show ?case
    by (blast intro: undisturbed_trans)
next
  case (connect s s1 ev s2)
  then have 1: "server_inv s1" "undisturbed u s s1" by simp_all
  let ?v = "env_ptr E (Calloc_struct Rpmem_server_unit # sv_trace s1)"
  have e: "connect_effect ?v s1 s2" using connect_request_effect [OF refl, of E ev s1] connect.hyps(3) by simp
  have "sv_units s1 u \<noteq> None" using 1(2) connect.prems by (simp add: undisturbed_def)
  then have "?v \<noteq> u" using connect.hyps(2) by auto
  with e have "undisturbed u s1 s2" by (auto simp: connect_effect_def undisturbed_def)
  with 1 e connect.hyps(2) show ?case by (blast intro: undisturbed_trans connect_effect_inv)
next
  case (external s s1 c)
  then show ?case by (auto simp: server_inv_def undisturbed_def)
qed (simp add: undisturbed_def)

section \<open>Handling the client's messages\<close>

text \<open>The device writes the message into the request buffer of the connection.\<close>

definition arrive :: "uid \<Rightarrow> bytes \<Rightarrow> server_state \<Rightarrow> server_state" where
  "arrive u m s = upd_conn u (\<lambda>c. c\<lparr>conn_req := recv_into m (conn_req c)\<rparr>) s"

text \<open>
  From one state of the server to another it handles one message of the connection \<open>u\<close>, with steps
  of the other connections before and after.
\<close>

definition handles :: "env \<Rightarrow> uid \<Rightarrow> bytes \<Rightarrow> server_state \<Rightarrow> server_state \<Rightarrow> bool" where
  "handles E u m s s' \<longleftrightarrow>
     (\<exists>s1 s2 ret. others E u s s1 \<and> rpmem_rcv_completion E u (arrive u m s1) = Some (ret, s2) \<and>
       others E u s2 s')"

text \<open>
  A run of the server: the state after each sequence of messages, newest first, of which it has
  handled \<open>ms\<close>.
\<close>

primrec serves_run :: "env \<Rightarrow> uid \<Rightarrow> (bytes list \<Rightarrow> server_state) \<Rightarrow> bytes list \<Rightarrow> bool" where
  "serves_run E u run [] \<longleftrightarrow> server_inv (run []) \<and> sv_units (run []) u \<noteq> None"
| "serves_run E u run (m # ms) \<longleftrightarrow> serves_run E u run ms \<and> handles E u m (run ms) (run (m # ms))"

text \<open>
  The client's device delivers, if anything, the reply to the messages the client has sent so far.
\<close>

definition connected :: "env \<Rightarrow> env \<Rightarrow> uid \<Rightarrow> (bytes list \<Rightarrow> server_state) \<Rightarrow> bool" where
  "connected Ec Es u run \<longleftrightarrow>
     (\<forall>t m. env_inbox Ec t = Some m \<longrightarrow>
        serves_run Es u run (sends t) \<and> m = rsp_of (run (sends t)) u)"

lemma arrive_simps [simp]:
  "sv_server (arrive u m s) = sv_server s" "sv_resources (arrive u m s) = sv_resources s"
  "sv_trace (arrive u m s) = sv_trace s" "owner (arrive u m s) = owner s" "avail (arrive u m s) = avail s"
  "sv_units (arrive u m s) v = None \<longleftrightarrow> sv_units s v = None"
  by (auto simp: arrive_def)

lemma arrive_ready: "unit_ready s v \<Longrightarrow> unit_ready (arrive u m s) v"
  unfolding arrive_def by (rule unit_ready_upd_req) simp_all

lemma arrive_inv: "server_inv s \<Longrightarrow> server_inv (arrive u m s)"
  using pool_inv_cong [of "arrive u m s" s]
  by (auto simp: server_inv_def arrive_ready dom_def)

lemma arrive_request_inv:
  assumes inv: "server_inv s" and v: "sv_units s u \<noteq> None"
    and h: "rpmem_rcv_completion E u (arrive u m s) = Some (ret, s')"
  shows "server_inv s'" and "sv_units s' u \<noteq> None"
proof -
  have r: "unit_ready (arrive u m s) u" using inv v by (simp add: server_inv_def arrive_ready)
  from rcv_completion_result(2,3) [OF r h] arrive_inv [OF inv, of u m]
  show "server_inv s'" by (blast intro: isolated_inv dest: server_inv_def [THEN iffD1])
  show "sv_units s' u \<noteq> None" using rcv_completion_result(2) [OF r h] v by (simp add: isolated_def)
qed

text \<open>
  One message, seen from the connection: the handler ran on the unit as the last message had left
  it, and what it left is what the next message finds.
\<close>

definition handling ::
  "env \<Rightarrow> uid \<Rightarrow> bytes \<Rightarrow> server_state \<Rightarrow> server_state \<Rightarrow> server_state \<Rightarrow> server_state \<Rightarrow> bool" where
  "handling E u m s s1 s2 s' \<longleftrightarrow>
     others E u s s1 \<and> (\<exists>ret. rpmem_rcv_completion E u (arrive u m s1) = Some (ret, s2)) \<and> others E u s2 s' \<and>
     undisturbed u s s1 \<and> undisturbed u s2 s' \<and> unit_ready (arrive u m s1) u \<and>
     server_inv s' \<and> sv_units s' u \<noteq> None"

lemma handlesE:
  assumes "handles E u m s s'" and "server_inv s" and "sv_units s u \<noteq> None"
  obtains s1 s2 where "handling E u m s s1 s2 s'"
proof -
  from assms(1) obtain s1 s2 ret where h: "others E u s s1" "rpmem_rcv_completion E u (arrive u m s1) = Some (ret, s2)"
    "others E u s2 s'" by (auto simp: handles_def)
  from others_keep [OF h(1) assms(2,3)] have i1: "server_inv s1" and k1: "undisturbed u s s1" by simp_all
  have v1: "sv_units s1 u \<noteq> None" using k1 assms(3) by (simp add: undisturbed_def)
  then have ra: "unit_ready (arrive u m s1) u" using i1 by (simp add: server_inv_def arrive_ready)
  note i2 = arrive_request_inv(1) [OF i1 v1 h(2)] and v2 = arrive_request_inv(2) [OF i1 v1 h(2)]
  from others_keep [OF h(3) i2 v2] k1 h ra v2 show thesis
    by (intro that [of s1 s2]) (auto simp: handling_def undisturbed_def)
qed

text \<open>The handler a request reaches, and what the connection has before and after.\<close>

lemma handling_ends:
  assumes "handling E u m s s1 s2 s'"
  shows "owner s1 u = owner s u" and "owner s' u = owner s2 u" and "rsp_of s' u = rsp_of s2 u"
    and "owner s u = Some q \<Longrightarrow> sv_resources s1 q = sv_resources s q"
    and "owner s2 u = Some q \<Longrightarrow> sv_resources s' q = sv_resources s2 q"
  using assms by (auto simp: handling_def undisturbed_def owner_def rsp_of_def)

lemma handling_handler:
  assumes x: "handling E u m s s1 s2 s'" and m: "wf_cmd m"
  shows "unit_ready (arrive u m s1) u" and "req_of (arrive u m s1) u = m"
    and "wire_opcode m = opcode_val RPMEM_MAP_REQ \<Longrightarrow> \<exists>ret. rpmem_handle_map E u (arrive u m s1) = Some (ret, s2)"
    and "wire_opcode m = opcode_val RPMEM_UNMAP_REQ \<Longrightarrow> \<exists>ret. rpmem_handle_unmap E u (arrive u m s1) = Some (ret, s2)"
    and "wire_opcode m = opcode_val RPMEM_COMMIT_REQ \<Longrightarrow> \<exists>ret. rpmem_handle_commit E u (arrive u m s1) = Some (ret, s2)"
proof -
  from x show r: "unit_ready (arrive u m s1) u" by (simp add: handling_def)
  have "sv_units s1 u \<noteq> None" using unit_ready_valid [OF r] by simp
  with r m show q: "req_of (arrive u m s1) u = m"
    by (auto simp: arrive_def req_of_def unit_ready_def wf_conn_def wf_cmd_def recv_into_def)
  from x obtain ret where d: "rpmem_rcv_completion E u (arrive u m s1) = Some (ret, s2)"
    by (auto simp: handling_def)
  show "wire_opcode m = opcode_val RPMEM_MAP_REQ \<Longrightarrow> \<exists>ret. rpmem_handle_map E u (arrive u m s1) = Some (ret, s2)"
    "wire_opcode m = opcode_val RPMEM_UNMAP_REQ \<Longrightarrow> \<exists>ret. rpmem_handle_unmap E u (arrive u m s1) = Some (ret, s2)"
    "wire_opcode m = opcode_val RPMEM_COMMIT_REQ \<Longrightarrow> \<exists>ret. rpmem_handle_commit E u (arrive u m s1) = Some (ret, s2)"
    using d unfolding rcv_completion_eq [OF r] q by (auto simp: reply_of_def)
qed

lemma serves_run_inv:
  "serves_run E u run ms \<Longrightarrow> server_inv (run ms) \<and> sv_units (run ms) u \<noteq> None"
proof (induction ms)
  case (Cons m ms)
  then have "handles E u m (run ms) (run (m # ms))" "server_inv (run ms)" "sv_units (run ms) u \<noteq> None"
    by simp_all
  then show ?case by (rule handlesE) (simp add: handling_def)
qed simp

text \<open>Messages that are neither map nor unmap requests leave the connection's resource as it is.\<close>

lemma handling_other:
  assumes x: "handling E u m s s1 s2 s'" and m: "wf_cmd m"
    "wire_opcode m \<noteq> opcode_val RPMEM_MAP_REQ" "wire_opcode m \<noteq> opcode_val RPMEM_UNMAP_REQ"
  shows "owner s' u = owner s u" and "owner s u = Some q \<Longrightarrow> sv_resources s' q = sv_resources s q"
proof -
  note r = handling_handler(1) [OF x m(1)] and rq = handling_handler(2) [OF x m(1)] and e = handling_ends [OF x]
  have "\<exists>ret. rpmem_rcv_completion E u (arrive u m s1) = Some (ret, s2)" using x by (simp add: handling_def)
  then have "abs_pool s2 = abs_pool (arrive u m s1) \<and> sv_resources s2 = sv_resources (arrive u m s1)"
    using m(2,3) skip_handlers_abs [OF r] handle_commit_writes [OF r] open_close_writes [OF r]
    unfolding rcv_completion_eq [OF r] rq by (auto simp: reply_of_def split: if_splits)
  then have o: "owner s2 = owner s1" "sv_resources s2 = sv_resources s1" by (simp_all add: abs_pool_def)
  then show "owner s' u = owner s u" using e(1,2) by simp
  show "owner s u = Some q \<Longrightarrow> sv_resources s' q = sv_resources s q" using e(1) e(4,5) [of q] o by simp
qed

lemma handling_map:
  assumes x: "handling E u m s s1 s2 s'" and m: "wf_cmd m" "wire_opcode m = opcode_val RPMEM_MAP_REQ"
    and o: "owner s u = None" "owner s' u = Some q" and mr: "res_mr (sv_resources s' q) = Some mr"
  shows "wire_word (rsp_of s' u) = mr_rkey mr \<and> wire_addr (rsp_of s' u) = res_addr (sv_resources s' q) \<and>
    res_map_len (sv_resources s' q) = wire_word m"
proof -
  obtain ret where h: "rpmem_handle_map E u (arrive u m s1) = Some (ret, s2)"
    using handling_handler(3) [OF x m] by blast
  from handle_map_reply [OF handling_handler(1) [OF x m(1)] h, of q mr] handling_ends(1-3) [OF x] handling_ends(5) [OF x, of q] o mr
  show ?thesis by (simp add: handling_handler(2) [OF x m(1)])
qed

text \<open>The server synchronised \<open>n\<close> bytes at \<open>a\<close> while it handled the message.\<close>

definition synced :: "env \<Rightarrow> uid \<Rightarrow> bytes \<Rightarrow> u64 \<Rightarrow> u64 \<Rightarrow> server_state \<Rightarrow> server_state \<Rightarrow> bool" where
  "synced E u m a n s s' \<longleftrightarrow>
     (\<exists>s1 s2 ret c t. others E u s s1 \<and> rpmem_rcv_completion E u (arrive u m s1) = Some (ret, s2) \<and>
       others E u s2 s' \<and> sv_trace s2 = c # Msync a n # t \<and> env_int E (Msync a n # t) = 0)"

lemma handling_commit:
  assumes x: "handling E u m s s1 s2 s'" and m: "wf_cmd m" "wire_opcode m = opcode_val RPMEM_COMMIT_REQ"
    and ok: "wire_word (rsp_of s' u) = 0"
  shows "synced E u m (wire_addr m) (scast (wire_word m)) s s'"
proof -
  obtain ret where h: "rpmem_handle_commit E u (arrive u m s1) = Some (ret, s2)"
    using handling_handler(5) [OF x m] by blast
  from handle_commit_success [OF handling_handler(1) [OF x m(1)] h] handling_ends(3) [OF x] ok
  obtain c t where "sv_trace s2 = c # Msync (wire_addr m) (scast (wire_word m)) # t"
    "env_int E (Msync (wire_addr m) (scast (wire_word m)) # t) = 0"
    by (auto simp: handling_handler(2) [OF x m(1)])
  with x show ?thesis unfolding synced_def handling_def by blast
qed

lemma handling_unmap:
  assumes x: "handling E u m s s1 s2 s'" and m: "wf_cmd m" "wire_opcode m = opcode_val RPMEM_UNMAP_REQ"
    and ok: "wire_word (rsp_of s' u) = 0"
  shows "\<exists>q mr. owner s u = Some q \<and> res_mr (sv_resources s q) = Some mr \<and> owner s' u = None"
proof -
  obtain ret where h: "rpmem_handle_unmap E u (arrive u m s1) = Some (ret, s2)"
    using handling_handler(4) [OF x m] by blast
  from handle_unmap_success [OF handling_handler(1) [OF x m(1)] h] handling_ends [OF x] ok
  show ?thesis by (auto simp: abs_pool_def)
qed

section \<open>The client's calls\<close>

lemma connected_answer:
  assumes "connected Ec Es u run" and "answers Ec ms m"
  shows "serves_run Es u run ms" and "m = rsp_of (run ms) u" and "wf_cmd m"
proof -
  from assms show s: "serves_run Es u run ms" and m: "m = rsp_of (run ms) u"
    by (auto simp: connected_def answers_def)
  from serves_run_inv [OF s] have "unit_ready (run ms) u" by (simp add: server_inv_def)
  then show "wf_cmd m" by (simp add: m)
qed

definition map_msg :: "env \<Rightarrow> priv_rpmem_file \<Rightarrow> u64 \<Rightarrow> bytes" where
  "map_msg E f len = pack_map_req (host E) (conn_req (pf_conn f)) (ucast len)"

definition unmap_msg :: "env \<Rightarrow> priv_rpmem_file \<Rightarrow> bytes" where
  "unmap_msg E f = pack_unmap_req (host E) (conn_req (pf_conn f))
     (ucast (rmr_len (pmr_rmr (pf_priv_mr f)))) (pmr_remote_addr (pf_priv_mr f))"

lemma connected_map:
  assumes c: "connected Ec Es u run" and f: "cl_files s p = Some f" "wf_conn (pf_conn f)" and p: "p \<noteq> NULL"
    and h: "rpmem_map Ec p len s = Some (p, s')"
  obtains f' where "cl_files s' p = Some f'" "wf_conn (pf_conn f')" "rmr_len (pmr_rmr (pf_priv_mr f')) = len"
    "sends (cl_trace s') = map_msg Ec f len # sends (cl_trace s)"
    "serves_run Es u run (map_msg Ec f len # sends (cl_trace s))"
    "pmr_rkey (pf_priv_mr f') = wire_word (rsp_of (run (map_msg Ec f len # sends (cl_trace s))) u)"
    "pmr_remote_addr (pf_priv_mr f') = wire_addr (rsp_of (run (map_msg Ec f len # sends (cl_trace s))) u)"
proof -
  let ?ms = "map_msg Ec f len # sends (cl_trace s)"
  obtain f' m where a: "cl_files s' p = Some f'" "answers Ec ?ms m" "pmr_rkey (pf_priv_mr f') = wire_word m"
    "pmr_remote_addr (pf_priv_mr f') = wire_addr m"
    using client_map_answer [OF f p h] connected_answer(3) [OF c] unfolding map_msg_def by blast
  note k = connected_answer [OF c a(2)]
  from client_map_result [OF f(1) p h] p a(1) have "rmr_len (pmr_rmr (pf_priv_mr f')) = len \<and> sends (cl_trace s') = ?ms"
    unfolding map_outcome_def by (auto simp: sends_posted map_msg_def)
  moreover have "wf_conn (pf_conn f')" using map_work [OF f p h p] a(1) by auto
  ultimately show thesis using a(1,3,4) k(1,2) by (intro that [of f']) simp_all
qed

lemma connected_commit:
  assumes c: "connected Ec Es u run" and f: "cl_files s p = Some f" "wf_conn (pf_conn f)"
    and h: "rpmem_commit Ec p s = Some (0, s')"
  obtains f' mr wr where "cl_files s' p = Some f'" "wf_conn (pf_conn f')" "pf_priv_mr f' = pf_priv_mr f"
    "posted (cl_trace s') = (wr, commit_msg Ec f) # (region_wr IBV_WR_RDMA_WRITE (pf_priv_mr f) mr, []) # posted (cl_trace s)"
    "sends (cl_trace s') = commit_msg Ec f # sends (cl_trace s)"
    "serves_run Es u run (commit_msg Ec f # sends (cl_trace s))"
    "wire_word (rsp_of (run (commit_msg Ec f # sends (cl_trace s))) u) = 0"
proof -
  let ?ms = "commit_msg Ec f # sends (cl_trace s)"
  obtain m where a: "answers Ec ?ms m" "wire_word m = 0"
    using client_commit_answer [OF f h] connected_answer(3) [OF c] unfolding commit_msg_def by blast
  note k = connected_answer [OF c a(1)]
  obtain f' t where o: "s' = put_file p f' t s" "same_file f f'"
    "(0::cint) = 0 \<longrightarrow> (\<exists>mr wr. pmr_mr (pf_priv_mr f) = Some mr \<and> swr_opcode wr = IBV_WR_SEND \<and>
       posted t = (wr, commit_msg Ec f) # (region_wr IBV_WR_RDMA_WRITE (pf_priv_mr f) mr, []) # posted (cl_trace s))"
    by (rule commit_result [OF f(1) h])
  then obtain mr wr where w: "swr_opcode wr = IBV_WR_SEND" "posted (cl_trace s') = (wr, commit_msg Ec f) #
      (region_wr IBV_WR_RDMA_WRITE (pf_priv_mr f) mr, []) # posted (cl_trace s)" by auto
  have f': "cl_files s' p = Some f'" by (simp add: o(1))
  moreover have "wf_conn (pf_conn f')" using commit_work [OF f h] f' by auto
  moreover have "pf_priv_mr f' = pf_priv_mr f" using o(2) by (simp add: same_file_def)
  moreover have "sends (cl_trace s') = ?ms" using w by (simp add: sends_posted)
  ultimately show thesis using that w(2) k(1,2) a(2) by blast
qed

lemma connected_unmap:
  assumes c: "connected Ec Es u run" and f: "cl_files s p = Some f" "wf_conn (pf_conn f)"
    and h: "rpmem_unmap Ec p s = Some (0, s')"
  obtains f' where "cl_files s' p = Some f'" "wf_conn (pf_conn f')"
    "sends (cl_trace s') = unmap_msg Ec f # sends (cl_trace s)"
    "serves_run Es u run (unmap_msg Ec f # sends (cl_trace s))"
    "wire_word (rsp_of (run (unmap_msg Ec f # sends (cl_trace s))) u) = 0"
proof -
  let ?ms = "unmap_msg Ec f # sends (cl_trace s)"
  obtain m where a: "answers Ec ?ms m" "wire_word m = 0"
    using client_unmap_answer [OF f h] connected_answer(3) [OF c] unfolding unmap_msg_def by blast
  note k = connected_answer [OF c a(1)]
  have "sends (cl_trace s') = ?ms"
    by (rule unmap_result [OF f(1) h]) (use f(2) in \<open>simp add: unmap_msg_def\<close>)
  moreover obtain f' where "cl_files s' p = Some f'" "wf_conn (pf_conn f')"
    using unmap_work [OF f h] by blast
  ultimately show thesis using that k(1,2) a(2) by blast
qed

lemma example_open_sends:
  assumes "example_open E argv ssin s = Some (Inr p, s')"
  obtains m where "sends (cl_trace s') = m # sends (cl_trace s)" "wf_cmd m" "wire_opcode m = opcode_val RPMEM_OPEN_REQ"
proof -
  obtain ret a t where g: "get_addr E (Some (argv ! 1)) ssin (example_port E argv) (cl_trace s) = (ret, a, t)"
    by (cases "get_addr E (Some (argv ! 1)) ssin (example_port E argv) (cl_trace s)")
  let ?s = "s\<lparr>cl_trace := t\<rparr>"
  from assms g have o: "rpmem_open E a ?s = Some (p, s')" "p \<noteq> NULL"
    by (auto simp: example_open_def bind_eq_Some_conv Let_def split: if_splits)
  have t: "sends t = sends (cl_trace s)" using get_addr_posted [OF g] by (simp add: sends_posted)
  obtain q ch cid t3 where st: "open_start E ?s = (q, ch, cid, t3)" by (cases "open_start E ?s") auto
  from o(1) st show thesis
  proof (cases rule: open_result)
    case (opened f1 t1 f' t')
    moreover from this have "wf_cmd (conn_req (pf_conn f1))" by auto
    ultimately show thesis
      using t by (intro that [of "pack_open_req (host E) (conn_req (pf_conn f1))"]) simp_all
  qed (use o(2) in simp)
qed

section \<open>A whole session\<close>

text \<open>
  What it means that a session was durable: after the map request the connection holds a resource
  \<open>q\<close> registered as \<open>mr\<close>; the client wrote its region to exactly that registration before it asked
  for the commit; the server synchronised exactly that mapping, of the length it had recorded; and
  after the unmap request the connection holds nothing.
\<close>

definition durable_session ::
  "env \<Rightarrow> uid \<Rightarrow> (bytes list \<Rightarrow> server_state) \<Rightarrow> (ibv_send_wr \<times> bytes) list \<Rightarrow> bytes \<Rightarrow> bytes \<Rightarrow> bytes \<Rightarrow> bytes \<Rightarrow> bool" where
  "durable_session E u run posts mo mm mc mu \<longleftrightarrow>
     (\<exists>q mr wr wc pre post. let res = sv_resources (run [mm, mo]) q in
       owner (run [mm, mo]) u = Some q \<and> res_mr res = Some mr \<and>
       posts = pre @ (wc, mc) # (wr, []) # post \<and> swr_opcode wr = IBV_WR_RDMA_WRITE \<and>
       swr_rkey wr = mr_rkey mr \<and> swr_remote_addr wr = res_addr res \<and>
       sge_length (swr_sge wr) = res_map_len res \<and>
       synced E u mc (res_addr res) (scast (res_map_len res)) (run [mm, mo]) (run [mc, mm, mo]) \<and>
       owner (run [mc, mm, mo]) u = Some q \<and> sv_resources (run [mc, mm, mo]) q = res \<and>
       owner (run [mu, mc, mm, mo]) u = None)"

text \<open>The server's side: four requests of these types, of which the last two were answered with 0.\<close>

lemma server_session:
  assumes r: "serves_run E u run [mu, mc, mm, mo]" and o: "owner (run []) u = None"
    and w: "wf_cmd mo" "wf_cmd mm" "wf_cmd mc" "wf_cmd mu"
    and oc: "wire_opcode mo = opcode_val RPMEM_OPEN_REQ" "wire_opcode mm = opcode_val RPMEM_MAP_REQ"
      "wire_opcode mc = opcode_val RPMEM_COMMIT_REQ" "wire_opcode mu = opcode_val RPMEM_UNMAP_REQ"
    and z: "wire_word (rsp_of (run [mc, mm, mo]) u) = 0" "wire_word (rsp_of (run [mu, mc, mm, mo]) u) = 0"
  obtains q mr where "owner (run [mm, mo]) u = Some q" "res_mr (sv_resources (run [mm, mo]) q) = Some mr"
    "wire_word (rsp_of (run [mm, mo]) u) = mr_rkey mr"
    "wire_addr (rsp_of (run [mm, mo]) u) = res_addr (sv_resources (run [mm, mo]) q)"
    "res_map_len (sv_resources (run [mm, mo]) q) = wire_word mm"
    "synced E u mc (wire_addr mc) (scast (wire_word mc)) (run [mm, mo]) (run [mc, mm, mo])"
    "owner (run [mc, mm, mo]) u = Some q" "sv_resources (run [mc, mm, mo]) q = sv_resources (run [mm, mo]) q"
    "owner (run [mu, mc, mm, mo]) u = None"
proof -
  have sr: "serves_run E u run [mc, mm, mo]" "serves_run E u run [mm, mo]" "serves_run E u run [mo]" "serves_run E u run []"
    using r by simp_all
  have step: "\<exists>s1 s2. handling E u m (run ms) s1 s2 (run (m # ms))" if "serves_run E u run (m # ms)" for m ms
  proof -
    from that have h: "handles E u m (run ms) (run (m # ms))" and i: "serves_run E u run ms" by simp_all
    from serves_run_inv [OF i] have a: "server_inv (run ms)" "sv_units (run ms) u \<noteq> None" by simp_all
    show ?thesis by (rule handlesE [OF h a]) blast
  qed
  from step [OF sr(3)] obtain s1 s2 where "handling E u mo (run []) s1 s2 (run [mo])" by blast
  from handling_other(1) [OF this w(1)] oc(1) o have o1: "owner (run [mo]) u = None" by simp
  from step [OF r] obtain s1 s2 where "handling E u mu (run [mc, mm, mo]) s1 s2 (run [mu, mc, mm, mo])" by blast
  from handling_unmap [OF this w(4) oc(4) z(2)] obtain q mr where
    u: "owner (run [mc, mm, mo]) u = Some q" "res_mr (sv_resources (run [mc, mm, mo]) q) = Some mr"
      "owner (run [mu, mc, mm, mo]) u = None" by blast
  from step [OF sr(1)] obtain s1 s2 where x: "handling E u mc (run [mm, mo]) s1 s2 (run [mc, mm, mo])" by blast
  have c: "owner (run [mm, mo]) u = Some q" "sv_resources (run [mc, mm, mo]) q = sv_resources (run [mm, mo]) q"
    using handling_other [OF x w(3)] oc(3) u(1) by simp_all
  note sy = handling_commit [OF x w(3) oc(3) z(1)]
  from step [OF sr(2)] obtain s1 s2 where m: "handling E u mm (run [mo]) s1 s2 (run [mm, mo])" by blast
  have "res_mr (sv_resources (run [mm, mo]) q) = Some mr" using u(2) c(2) by simp
  from handling_map [OF m w(2) oc(2) o1 c(1) this] this c u sy that show thesis by blast
qed

text \<open>The client's side: its four requests, the write it posted, and the answers it has accepted.\<close>

lemma client_session:
  assumes c: "connected Ec Es u run" and s: "sends (cl_trace s) = []"
    and h: "simple_commit Ec argv ssin s = Some (0, s')"
  obtains mo mm mc mu cls pm mr wc pre post where
    "sends (cl_trace s') = cls @ [mu, mc, mm, mo]" "length cls \<le> 1"
    "posted (cl_trace s') = pre @ (wc, mc) # (region_wr IBV_WR_RDMA_WRITE pm mr, []) # post"
    "wf_cmd mo" "wf_cmd mm" "wf_cmd mc" "wf_cmd mu"
    "wire_opcode mo = opcode_val RPMEM_OPEN_REQ" "wire_opcode mm = opcode_val RPMEM_MAP_REQ"
    "wire_opcode mc = opcode_val RPMEM_COMMIT_REQ" "wire_opcode mu = opcode_val RPMEM_UNMAP_REQ"
    "wire_word mm = ucast (rmr_len (pmr_rmr pm))" "wire_word mc = ucast (rmr_len (pmr_rmr pm))"
    "wire_addr mc = pmr_remote_addr pm" "pmr_rkey pm = wire_word (rsp_of (run [mm, mo]) u)"
    "pmr_remote_addr pm = wire_addr (rsp_of (run [mm, mo]) u)"
    "serves_run Es u run [mu, mc, mm, mo]" "wire_word (rsp_of (run [mc, mm, mo]) u) = 0"
    "wire_word (rsp_of (run [mu, mc, mm, mo]) u) = 0"
proof -
  obtain p s1 f1 s2 s3 s4 where st: "length argv = 3" "example_open Ec argv ssin s = Some (Inr p, s1)" "p \<noteq> NULL"
    "cl_files s1 p = Some f1" "wf_conn (pf_conn f1)"
    "rpmem_map Ec p (scast (example_map_size (rf_size (pf_rfile f1)))) s1 = Some (p, s2)"
    "rpmem_commit Ec p s2 = Some (0, s3)" "rpmem_unmap Ec p s3 = Some (0, s4)" "example_out Ec p 0 s4 = Some (0, s')"
    by (rule simple_commit_steps [OF h])
  obtain mo where o: "sends (cl_trace s1) = [mo]" "wf_cmd mo" "wire_opcode mo = opcode_val RPMEM_OPEN_REQ"
    using example_open_sends [OF st(2)] s by auto
  let ?len = "scast (example_map_size (rf_size (pf_rfile f1))) :: u64"
  let ?mm = "map_msg Ec f1 ?len"
  obtain f2 where m: "cl_files s2 p = Some f2" "wf_conn (pf_conn f2)" "rmr_len (pmr_rmr (pf_priv_mr f2)) = ?len"
    "sends (cl_trace s2) = [?mm, mo]" "pmr_rkey (pf_priv_mr f2) = wire_word (rsp_of (run [?mm, mo]) u)"
    "pmr_remote_addr (pf_priv_mr f2) = wire_addr (rsp_of (run [?mm, mo]) u)"
    by (rule connected_map [OF c st(4,5,3,6)]) (simp add: o(1))
  let ?mc = "commit_msg Ec f2"
  obtain f3 mr wc where k: "cl_files s3 p = Some f3" "wf_conn (pf_conn f3)" "pf_priv_mr f3 = pf_priv_mr f2"
    "posted (cl_trace s3) = (wc, ?mc) # (region_wr IBV_WR_RDMA_WRITE (pf_priv_mr f2) mr, []) # posted (cl_trace s2)"
    "sends (cl_trace s3) = [?mc, ?mm, mo]" "wire_word (rsp_of (run [?mc, ?mm, mo]) u) = 0"
    by (rule connected_commit [OF c m(1,2) st(7)]) (simp add: m(4))
  let ?mu = "unmap_msg Ec f3"
  obtain f4 where d: "cl_files s4 p = Some f4" "sends (cl_trace s4) = [?mu, ?mc, ?mm, mo]"
    "serves_run Es u run [?mu, ?mc, ?mm, mo]" "wire_word (rsp_of (run [?mu, ?mc, ?mm, mo]) u) = 0"
    by (rule connected_unmap [OF c k(1,2) st(8)]) (simp add: k(5))
  obtain rc where cl: "rpmem_close Ec p s4 = Some (rc, s')"
    using st(9) by (auto simp: example_out_def bind_eq_Some_conv split: if_splits)
  obtain pre where pre: "posted (cl_trace s') = pre @ posted (cl_trace s3)"
    using close_posted [OF d(1) cl] unmap_posted [OF k(1,2) st(8)] by (auto simp: Cons_eq_append_conv)
  have "\<exists>cls. sends (cl_trace s') = cls @ [?mu, ?mc, ?mm, mo] \<and> length cls \<le> 1"
    using close_posted [OF d(1) cl] d(2) by (auto simp: sends_posted)
  then obtain cls where cls: "sends (cl_trace s') = cls @ [?mu, ?mc, ?mm, mo]" "length cls \<le> 1" by blast
  have "wf_cmd (conn_req (pf_conn f1))" "wf_cmd (conn_req (pf_conn f2))" "wf_cmd (conn_req (pf_conn f3))"
    using st(5) m(2) k(2) by auto
  with that [of cls ?mu ?mc ?mm mo pre wc "pf_priv_mr f2" mr "posted (cl_trace s2)", OF cls] show thesis
    using pre o(2,3) m(3,5,6) k(4,6) d(3,4) by (simp add: map_msg_def commit_msg_def unmap_msg_def)
qed

text \<open>
  C1: a successful session is durable. Let the program \<^verbatim>\<open>simple_commit\<close> run against
  a server, in that whatever its device delivers is the reply of one connection to the messages
  sent so far, with any activity of other connections in between. If it exits with 0, it sent an
  open, a map, a commit and an unmap request (and then at most the close request), the map request
  gave the connection a registered resource, the client wrote its whole region to that registration
  before the commit request, the server then called \<open>msync\<close> successfully on exactly the mapping of
  that resource while the connection held it, and the resource was given back by the end.
\<close>
theorem commit_session_durable:
  assumes "connected Ec Es u run" and "sends (cl_trace s) = []" and "owner (run []) u = None"
    and "simple_commit Ec argv ssin s = Some (0, s')"
  shows "\<exists>mo mm mc mu cls. sends (cl_trace s') = cls @ [mu, mc, mm, mo] \<and> length cls \<le> 1 \<and>
    map wire_opcode [mo, mm, mc, mu] = map opcode_val [RPMEM_OPEN_REQ, RPMEM_MAP_REQ, RPMEM_COMMIT_REQ, RPMEM_UNMAP_REQ] \<and>
    durable_session Es u run (posted (cl_trace s')) mo mm mc mu"
proof -
  obtain mo mm mc mu cls pm mr0 wc pre post where
    c: "sends (cl_trace s') = cls @ [mu, mc, mm, mo]" "length cls \<le> 1"
    "posted (cl_trace s') = pre @ (wc, mc) # (region_wr IBV_WR_RDMA_WRITE pm mr0, []) # post"
    and w: "wf_cmd mo" "wf_cmd mm" "wf_cmd mc" "wf_cmd mu"
    and oc: "wire_opcode mo = opcode_val RPMEM_OPEN_REQ" "wire_opcode mm = opcode_val RPMEM_MAP_REQ"
    "wire_opcode mc = opcode_val RPMEM_COMMIT_REQ" "wire_opcode mu = opcode_val RPMEM_UNMAP_REQ"
    and l: "wire_word mm = ucast (rmr_len (pmr_rmr pm))" "wire_word mc = ucast (rmr_len (pmr_rmr pm))"
    "wire_addr mc = pmr_remote_addr pm" "pmr_rkey pm = wire_word (rsp_of (run [mm, mo]) u)"
    "pmr_remote_addr pm = wire_addr (rsp_of (run [mm, mo]) u)"
    and z: "serves_run Es u run [mu, mc, mm, mo]" "wire_word (rsp_of (run [mc, mm, mo]) u) = 0"
    "wire_word (rsp_of (run [mu, mc, mm, mo]) u) = 0"
    by (rule client_session [OF assms(1,2,4)])
  obtain q mr where q: "owner (run [mm, mo]) u = Some q" "res_mr (sv_resources (run [mm, mo]) q) = Some mr"
    "wire_word (rsp_of (run [mm, mo]) u) = mr_rkey mr"
    "wire_addr (rsp_of (run [mm, mo]) u) = res_addr (sv_resources (run [mm, mo]) q)"
    "res_map_len (sv_resources (run [mm, mo]) q) = wire_word mm"
    "synced Es u mc (wire_addr mc) (scast (wire_word mc)) (run [mm, mo]) (run [mc, mm, mo])"
    "owner (run [mc, mm, mo]) u = Some q" "sv_resources (run [mc, mm, mo]) q = sv_resources (run [mm, mo]) q"
    "owner (run [mu, mc, mm, mo]) u = None"
    by (rule server_session [OF z(1) assms(3) w oc z(2,3)])
  have "durable_session Es u run (posted (cl_trace s')) mo mm mc mu"
    unfolding durable_session_def Let_def
    by (rule exI [of _ q], rule exI [of _ mr], rule exI [of _ "region_wr IBV_WR_RDMA_WRITE pm mr0"],
        rule exI [of _ wc], rule exI [of _ pre], rule exI [of _ post])
      (use q c(3) l in \<open>simp add: region_wr_def\<close>)
  with c(1,2) oc show ?thesis
    by (intro exI [of _ mo] exI [of _ mm] exI [of _ mc] exI [of _ mu] exI [of _ cls]) simp
qed

section \<open>A concrete session\<close>

text \<open>
  The server of the earlier examples, with one resource of 8192 bytes, handles the messages of its
  one connection on a platform where every call succeeds; the client's device delivers its replies.
\<close>

primrec serve_msgs :: "bytes list \<Rightarrow> server_state option" where
  "serve_msgs [] = Some (demo_state zero_cmd)"
| "serve_msgs (m # ms) = do {
     s \<leftarrow> serve_msgs ms;
     (ret, s) \<leftarrow> rpmem_rcv_completion ok_env 1 (arrive 1 m s);
     Some s
   }"

definition demo_run :: "bytes list \<Rightarrow> server_state" where
  "demo_run ms = the (serve_msgs ms)"

definition demo_reply :: "bytes list \<Rightarrow> bytes option" where
  "demo_reply ms = map_option (\<lambda>s. rsp_of s 1) (serve_msgs ms)"

lemma serve_msgs_run: "serve_msgs ms = Some s \<Longrightarrow> serves_run ok_env 1 demo_run ms \<and> demo_run ms = s"
proof (induction ms arbitrary: s)
  case Nil
  then show ?case using demo_server_inv [of zero_cmd] by (auto simp: demo_run_def demo_state_def)
next
  case (Cons m ms)
  then obtain s0 ret where "serve_msgs ms = Some s0" "rpmem_rcv_completion ok_env 1 (arrive 1 m s0) = Some (ret, s)"
    by (auto simp: bind_eq_Some_conv)
  with Cons show ?case by (auto simp: demo_run_def handles_def intro: others.none)
qed

lemma demo_connected: "connected (session_env demo_reply) ok_env 1 demo_run"
  using serve_msgs_run by (fastforce simp: connected_def demo_reply_def)

lemma arrive_req: "unit_ready s u \<Longrightarrow> wf_cmd m \<Longrightarrow> req_of (arrive u m s) u = m"
  by (auto simp: arrive_def req_of_def wf_conn_def elim!: unit_readyE)

lemma arrive_rsp [simp]: "rsp_of (arrive u m s) u = rsp_of s u"
  by (auto simp: arrive_def rsp_of_def split: option.split)

lemma serve_next:
  assumes "serve_msgs ms = Some s" and "unit_ready s 1"
    and "rpmem_rcv_completion ok_env 1 (arrive 1 m s) = Some (ret, s')"
  shows "serve_msgs (m # ms) = Some s'" and "unit_ready s' 1" and "demo_reply (m # ms) = Some (rsp_of s' 1)"
  using assms rcv_completion_result(2) [OF arrive_ready [OF assms(2)] assms(3)] arrive_ready [OF assms(2), of 1 m]
  by (auto simp: demo_reply_def isolated_def)

lemma serve_open:
  assumes s: "serve_msgs ms = Some s" "unit_ready s 1" and m: "wf_cmd m" "wire_opcode m = opcode_val RPMEM_OPEN_REQ"
  obtains s' where "serve_msgs (m # ms) = Some s'" "unit_ready s' 1" "demo_reply (m # ms) = Some (rsp_of s' 1)"
    "rsp_of s' 1 = pack_open_rsp LE (srv_free_size (sv_server s)) (rsp_of s 1)"
    "avail s' = avail s" "owner s' = owner s" "sv_resources s' = sv_resources s"
proof -
  note r = arrive_ready [OF s(2), of 1 m] and rq = arrive_req [OF s(2) m(1)]
  obtain ret s' where h: "rpmem_handle_open ok_env 1 (arrive 1 m s) = Some (ret, s')"
    using handle_open_serves [OF r] by blast
  then have "rpmem_rcv_completion ok_env 1 (arrive 1 m s) = Some (0, s')"
    using m(2) unfolding rcv_completion_eq [OF r] rq by (simp add: reply_of_def)
  from serve_next [OF s this] handle_open_reply [OF r h] skip_handlers_abs(1) [OF r h] show thesis
    by (intro that [of s']) (simp_all add: abs_pool_def ok_env_def)
qed

lemma serve_map:
  assumes s: "serve_msgs ms = Some s" "unit_ready s 1" and m: "wf_cmd m" "wire_opcode m = opcode_val RPMEM_MAP_REQ"
    and q: "avail s = [0]" "wire_word m <s int_size (sv_resources s 0)"
  obtains s' where "serve_msgs (m # ms) = Some s'" "unit_ready s' 1" "demo_reply (m # ms) = Some (rsp_of s' 1)"
    "rsp_of s' 1 = pack_map_rsp LE (rsp_of s 1) 6 65536" "owner s' 1 = Some 0" "res_mr (sv_resources s' 0) = Some ok_mr"
proof -
  let ?s = "arrive 1 m s"
  note r = arrive_ready [OF s(2), of 1 m] and rq = arrive_req [OF s(2) m(1)]
  from r obtain un mq ms' where un: "sv_units ?s 1 = Some un" "wf_conn (unit_conn un)" "conn_req_mr (unit_conn un) = Some mq"
    by (rule unit_readyE)
  have len: "wire_word m = req_len (host ok_env) (conn_req (unit_conn un))"
    using rq un(1,2) by (auto simp: req_of_def)
  have fr: "find_res (sv_resources ?s) (wire_word m) (avail ?s) = Some 0" using q by simp
  have g: "map_granted ok_env (unit_conn un) (res_fd (sv_resources ?s 0)) (wire_word m) 65536 ok_mr
      (recv_call (unit_conn un) Conn_req mq) (sv_trace ?s)"
    by (simp add: map_granted_def ok_env_def MAP_FAILED_def Let_def)
  obtain ret s' where h: "rpmem_handle_map ok_env 1 ?s = Some (ret, s')"
    "rsp_of s' 1 = pack_map_rsp (host ok_env) (rsp_of ?s 1) (mr_rkey ok_mr) 65536"
    "res_mr (sv_resources s' 0) = Some ok_mr" "abs_pool s' = pool_apply (Take 0) 1 (abs_pool ?s)"
    using handle_map_grants [OF r un(1,3) len fr g] by auto
  then have "rpmem_rcv_completion ok_env 1 ?s = Some (0, s')"
    using m(2) unfolding rcv_completion_eq [OF r] rq by (simp add: reply_of_def)
  from serve_next [OF s this] h(2-4) show thesis
    by (intro that [of s']) (simp_all add: abs_pool_def ok_env_def ok_mr_def)
qed

lemma serve_commit:
  assumes s: "serve_msgs ms = Some s" "unit_ready s 1" and m: "wf_cmd m" "wire_opcode m = opcode_val RPMEM_COMMIT_REQ"
  obtains s' where "serve_msgs (m # ms) = Some s'" "unit_ready s' 1" "demo_reply (m # ms) = Some (rsp_of s' 1)"
    "rsp_of s' 1 = pack_commit_rsp LE (rsp_of s 1) 0" "owner s' = owner s" "sv_resources s' = sv_resources s"
proof -
  note r = arrive_ready [OF s(2), of 1 m] and rq = arrive_req [OF s(2) m(1)]
  obtain s' where h: "rpmem_handle_commit ok_env 1 (arrive 1 m s) = Some (0, s')"
    "rsp_of s' 1 = pack_commit_rsp (host ok_env) (rsp_of (arrive 1 m s) 1) 0"
    using handle_commit_replies [OF r, of ok_env] by (auto simp: ok_env_def)
  then have "rpmem_rcv_completion ok_env 1 (arrive 1 m s) = Some (0, s')"
    using m(2) unfolding rcv_completion_eq [OF r] rq by (simp add: reply_of_def)
  from serve_next [OF s this] h(2) handle_commit_writes [OF r h(1)] skip_handlers_abs(3) [OF r h(1)] show thesis
    by (intro that [of s']) (simp_all add: abs_pool_def ok_env_def)
qed

lemma serve_unmap:
  assumes s: "serve_msgs ms = Some s" "unit_ready s 1" and m: "wf_cmd m" "wire_opcode m = opcode_val RPMEM_UNMAP_REQ"
    and o: "owner s 1 = Some 0" "res_mr (sv_resources s 0) = Some ok_mr"
  obtains s' where "serve_msgs (m # ms) = Some s'" "unit_ready s' 1" "demo_reply (m # ms) = Some (rsp_of s' 1)"
    "rsp_of s' 1 = pack_unmap_rsp LE (rsp_of s 1) 0"
proof -
  let ?s = "arrive 1 m s"
  note r = arrive_ready [OF s(2), of 1 m] and rq = arrive_req [OF s(2) m(1)]
  from r obtain un mq ms' where un: "sv_units ?s 1 = Some un" "wf_conn (unit_conn un)" "conn_req_mr (unit_conn un) = Some mq"
    by (rule unit_readyE)
  have "owner ?s 1 = Some 0" using o(1) by simp
  then have q: "unit_res un = Some 0" using un(1) unfolding owner_def by simp
  have mr: "res_mr (sv_resources ?s 0) = Some ok_mr" using o(2) by simp
  have z: "env_int ok_env t = 0" for t by (simp add: ok_env_def)
  obtain ret s' where h: "rpmem_handle_unmap ok_env 1 ?s = Some (ret, s')"
    "rsp_of s' 1 = pack_unmap_rsp (host ok_env) (rsp_of ?s 1) 0"
    using handle_unmap_returns [OF r un(1,3) q mr refl refl z z] by auto
  then have "rpmem_rcv_completion ok_env 1 ?s = Some (0, s')"
    using m(2) unfolding rcv_completion_eq [OF r] rq by (simp add: reply_of_def)
  from serve_next [OF s this] h(2) show thesis by (intro that [of s']) (simp_all add: ok_env_def)
qed

lemma serve_close:
  assumes s: "serve_msgs ms = Some s" "unit_ready s 1" and m: "wf_cmd m" "wire_opcode m = opcode_val RPMEM_CLOSE_REQ"
  obtains x where "demo_reply (m # ms) = Some x" "wf_cmd x"
proof -
  note r = arrive_ready [OF s(2), of 1 m] and rq = arrive_req [OF s(2) m(1)]
  obtain ret s' where h: "rpmem_handle_close ok_env 1 (arrive 1 m s) = Some (ret, s')"
    using handle_close_serves [OF r] by blast
  then have "rpmem_rcv_completion ok_env 1 (arrive 1 m s) = Some (0, s')"
    using m(2) unfolding rcv_completion_eq [OF r] rq by (simp add: reply_of_def)
  from serve_next [OF s this] show thesis by (intro that [of "rsp_of s' 1"]) simp_all
qed

text \<open>Up to the mapping, and the rest.\<close>

lemma demo_mapped:
  obtains c1 f1 c2 f2 mm mo s2 where
    "example_open (session_env demo_reply) session_argv [] client_start = Some (Inr 65536, c1)"
    "cl_files c1 65536 = Some f1" "rf_size (pf_rfile f1) = 8192"
    "rpmem_map (session_env demo_reply) 65536 (scast (example_map_size 8192)) c1 = Some (65536, c2)"
    "cl_files c2 65536 = Some f2" "session_ready f2" "pmr_mr (pf_priv_mr f2) = Some ok_mr" "cl_file_list c2 = [65536]"
    "sends (cl_trace c2) = [mm, mo]" "serve_msgs [mm, mo] = Some s2" "unit_ready s2 1" "owner s2 1 = Some 0"
    "res_mr (sv_resources s2 0) = Some ok_mr"
proof -
  let ?E = "session_env demo_reply"
  have d: "serve_msgs [] = Some (demo_state zero_cmd)" "unit_ready (demo_state zero_cmd) 1"
    by (simp_all add: demo_ready)
  have fs: "srv_free_size (sv_server (demo_state zero_cmd)) = 8192" "int_size (sv_resources (demo_state zero_cmd) 0) = 8192"
    by (simp_all add: demo_state_def demo_server_def int_size_def)
  have op: "\<exists>x. demo_reply [m] = Some x \<and> wf_cmd x \<and> wire_opcode x = opcode_val RPMEM_OPEN_RSP \<and> wire_word x = 8192"
    if "wf_cmd m" "wire_opcode m = opcode_val RPMEM_OPEN_REQ" for m
    by (rule serve_open [OF d that]) (use d(2) fs in simp)
  obtain c1 f1 mo where 1: "example_open ?E session_argv [] client_start = Some (Inr 65536, c1)"
    "cl_files c1 65536 = Some f1" "session_ready f1" "cl_file_list c1 = [65536]" "rf_size (pf_rfile f1) = 8192"
    "sends (cl_trace c1) = [mo]" "wf_cmd mo" "wire_opcode mo = opcode_val RPMEM_OPEN_REQ"
    by (rule session_open [of demo_reply 8192]) (use op in simp_all)
  obtain s1 where v1: "serve_msgs [mo] = Some s1" "unit_ready s1 1" "avail s1 = [0]"
    "sv_resources s1 = sv_resources (demo_state zero_cmd)"
    by (rule serve_open [OF d 1(7,8)]) simp
  let ?len = "scast (example_map_size 8192) :: u64"
  let ?mm = "pack_map_req LE (conn_req (pf_conn f1)) (ucast ?len)"
  have mm: "wf_cmd ?mm" "wire_opcode ?mm = opcode_val RPMEM_MAP_REQ" "wire_word ?mm = ucast ?len" using 1(3) by simp_all
  have fit: "wire_word ?mm <s int_size (sv_resources s1 0)"
    unfolding mm(3) v1(4) fs(2) by (simp add: example_map_size_def cdiv_def word_sless_alt)
  obtain s2 where v2: "serve_msgs [?mm, mo] = Some s2" "unit_ready s2 1" "demo_reply [?mm, mo] = Some (rsp_of s2 1)"
    "rsp_of s2 1 = pack_map_rsp LE (rsp_of s1 1) 6 65536" "owner s2 1 = Some 0" "res_mr (sv_resources s2 0) = Some ok_mr"
    by (rule serve_map [OF v1(1,2) mm(1,2) v1(3) fit])
  have x2: "wf_cmd (rsp_of s2 1)" "wire_opcode (rsp_of s2 1) = opcode_val RPMEM_MAP_RSP" using v1(2) by (simp_all add: v2(4))
  obtain c2 f2 where 2: "rpmem_map ?E 65536 ?len c1 = Some (65536, c2)" "cl_files c2 65536 = Some f2" "session_ready f2"
    "pmr_mr (pf_priv_mr f2) = Some ok_mr" "cl_file_list c2 = cl_file_list c1" "sends (cl_trace c2) = [?mm, mo]"
    by (rule session_map [where r = demo_reply and x = "rsp_of s2 1" and len = ?len, OF 1(2,3)]) (use 1(6) v2(3) x2 in simp_all)
  show thesis
    by (rule that [of c1 f1 c2 f2 ?mm mo s2, OF 1(1,2,5) 2(1-4) _ 2(6) v2(1,2,5,6)]) (simp add: 1(4) 2(5))
qed

lemma demo_session:
  obtains s' where "simple_commit (session_env demo_reply) session_argv [] client_start = Some (0, s')"
proof -
  let ?E = "session_env demo_reply"
  obtain c1 f1 c2 f2 mm mo s2 where
    1: "example_open ?E session_argv [] client_start = Some (Inr 65536, c1)" "cl_files c1 65536 = Some f1"
      "rf_size (pf_rfile f1) = 8192"
    and 2: "rpmem_map ?E 65536 (scast (example_map_size 8192)) c1 = Some (65536, c2)" "cl_files c2 65536 = Some f2"
      "session_ready f2" "pmr_mr (pf_priv_mr f2) = Some ok_mr" "cl_file_list c2 = [65536]" "sends (cl_trace c2) = [mm, mo]"
    and v2: "serve_msgs [mm, mo] = Some s2" "unit_ready s2 1" "owner s2 1 = Some 0" "res_mr (sv_resources s2 0) = Some ok_mr"
    by (rule demo_mapped)
  let ?mc = "commit_msg ?E f2"
  have mc: "wf_cmd ?mc" "wire_opcode ?mc = opcode_val RPMEM_COMMIT_REQ" using 2(3) by (simp_all add: commit_msg_def)
  obtain s3 where v3: "serve_msgs [?mc, mm, mo] = Some s3" "unit_ready s3 1" "demo_reply [?mc, mm, mo] = Some (rsp_of s3 1)"
    "rsp_of s3 1 = pack_commit_rsp LE (rsp_of s2 1) 0" "owner s3 = owner s2" "sv_resources s3 = sv_resources s2"
    by (rule serve_commit [OF v2(1,2) mc])
  have x3: "wf_cmd (rsp_of s3 1)" "wire_opcode (rsp_of s3 1) = opcode_val RPMEM_COMMIT_RSP" "wire_word (rsp_of s3 1) = 0"
    using v2(2) by (simp_all add: v3(4))
  obtain c3 f3 where 3: "rpmem_commit ?E 65536 c2 = Some (0, c3)" "cl_files c3 65536 = Some f3" "session_ready f3"
    "pmr_mr (pf_priv_mr f3) = Some ok_mr" "cl_file_list c3 = cl_file_list c2" "sends (cl_trace c3) = [?mc, mm, mo]"
    by (rule session_commit [where r = demo_reply and x = "rsp_of s3 1", OF 2(2,3,4)]) (use 2(6) v3(3) x3 in simp_all)
  let ?mu = "pack_unmap_req LE (conn_req (pf_conn f3)) (ucast (rmr_len (pmr_rmr (pf_priv_mr f3)))) (pmr_remote_addr (pf_priv_mr f3))"
  have mu: "wf_cmd ?mu" "wire_opcode ?mu = opcode_val RPMEM_UNMAP_REQ" using 3(3) by simp_all
  obtain s4 where v4: "serve_msgs [?mu, ?mc, mm, mo] = Some s4" "unit_ready s4 1"
    "demo_reply [?mu, ?mc, mm, mo] = Some (rsp_of s4 1)" "rsp_of s4 1 = pack_unmap_rsp LE (rsp_of s3 1) 0"
    by (rule serve_unmap [OF v3(1,2) mu]) (use v2(3,4) v3(5,6) in simp_all)
  have x4: "wf_cmd (rsp_of s4 1)" "wire_opcode (rsp_of s4 1) = opcode_val RPMEM_UNMAP_RSP" "wire_word (rsp_of s4 1) = 0"
    using x3(1) by (simp_all add: v4(4))
  obtain c4 f4 where 4: "rpmem_unmap ?E 65536 c3 = Some (0, c4)" "cl_files c4 65536 = Some f4" "session_ready f4"
    "cl_file_list c4 = cl_file_list c3" "sends (cl_trace c4) = [?mu, ?mc, mm, mo]"
    by (rule session_unmap [where r = demo_reply and x = "rsp_of s4 1", OF 3(2,3,4)]) (use 3(6) v4(3) x4 in simp_all)
  let ?ml = "pack_close_req LE (conn_req (pf_conn f4))"
  obtain x where x: "demo_reply [?ml, ?mu, ?mc, mm, mo] = Some x" "wf_cmd x"
    by (rule serve_close [OF v4(1,2), of ?ml]) (use 4(3) in simp_all)
  obtain c5 where "rpmem_close ?E 65536 c4 = Some (0, c5)"
    by (rule session_close [where r = demo_reply and x = x, OF 4(2,3)]) (use 4(4,5) 3(5) 2(5) x in simp_all)
  then have "simple_commit ?E session_argv [] client_start = Some (0, c5)"
    using 1 2(1) 3(1) 4(1) by (simp add: simple_commit_def example_map_def example_out_def)
  then show thesis by (rule that)
qed

theorem commit_session_durable_witness:
  "\<exists>s' mo mm mc mu. simple_commit (session_env demo_reply) session_argv [] client_start = Some (0, s') \<and>
     wire_opcode mc = 8 \<and> durable_session ok_env 1 demo_run (posted (cl_trace s')) mo mm mc mu"
proof -
  obtain s' where h: "simple_commit (session_env demo_reply) session_argv [] client_start = Some (0, s')"
    by (rule demo_session)
  have o: "owner (demo_run []) 1 = None" by (simp add: demo_run_def)
  have "sends (cl_trace client_start) = []" by (simp add: client_start_def)
  from commit_session_durable [OF demo_connected this o h] h show ?thesis by auto
qed

end
