(* ===== verification/Server_Main.thy ===== *)
theory Server_Main
  imports Server_System C_Strings
begin

text \<open>
  How the server starts (\<^verbatim>\<open>rpmem_server.c\<close>): the command line, the resource file, the
  listening identifier and \<^verbatim>\<open>main\<close> with its cleanup labels. What
  \<^verbatim>\<open>getopt_long\<close> makes of the arguments is an argument here: the list of option
  characters it returned with their arguments, and the final \<^verbatim>\<open>optind\<close>.
\<close>

section \<open>Strings the program owns\<close>

text \<open>
  A \<^verbatim>\<open>char *\<close> member: what an uninitialised member happens to hold, or the result of
  \<^verbatim>\<open>strdup\<close>. Using an uninitialised pointer that is not null, as a string or as an
  argument of \<^verbatim>\<open>free\<close>, has no defined result (\<open>None\<close>).
\<close>

datatype cstr = Stray ptr | Heap ptr string

primrec cstr_ptr :: "cstr \<Rightarrow> ptr" where
  "cstr_ptr (Stray p) = p"
| "cstr_ptr (Heap p str) = p"

fun cstr_arg :: "cstr \<Rightarrow> string option option" where
  "cstr_arg (Stray p) = (if p = NULL then Some None else None)"
| "cstr_arg (Heap p str) = Some (if p = NULL then None else Some str)"

fun free_str :: "cstr \<Rightarrow> trace \<Rightarrow> trace option" where
  "free_str (Stray p) t = (if p = NULL then Some (Free p # t) else None)"
| "free_str (Heap p str) t = Some (Free p # t)"

section \<open>The command line\<close>

record inargs =
  in_server_addr :: cstr
  in_server_port :: u16
  in_resource :: cstr

text \<open>The process has ended by \<^verbatim>\<open>exit\<close>, or parsing returned 0.\<close>

datatype parsed = Exit cint | Parsed inargs

definition inargs_cleanup :: "cint \<Rightarrow> inargs \<Rightarrow> trace \<Rightarrow> (parsed \<times> trace) option" where
  "inargs_cleanup code inp t =
     (if cstr_ptr (in_server_addr inp) \<noteq> NULL then do {
        t \<leftarrow> free_str (in_server_addr inp) t;
        Some (Exit code, t)
      }
      else Some (Exit code, t))"

text \<open>The loop over the options, and the check for left-over arguments after it.\<close>

fun process_options ::
  "env \<Rightarrow> nat \<Rightarrow> nat \<Rightarrow> (char \<times> string) list \<Rightarrow> inargs \<Rightarrow> trace \<Rightarrow> (parsed \<times> trace) option" where
  "process_options E argc optind [] inp t =
     (if optind < argc then inargs_cleanup 1 inp t else Some (Parsed inp, t))"
| "process_options E argc optind ((c, optarg) # opts) inp t =
     (if c = CHR ''a'' then
        let (p, t) = call_ptr E (Strdup optarg) t in
        process_options E argc optind opts (inp\<lparr>in_server_addr := Heap p optarg\<rparr>) t
      else if c = CHR ''p'' then
        process_options E argc optind opts
          (inp\<lparr>in_server_port := htons (host E) (word_of_int (strtol optarg 0))\<rparr>) t
      else if c = CHR ''r'' then
        let (p, t) = call_ptr E (Strdup optarg) t in
        process_options E argc optind opts (inp\<lparr>in_resource := Heap p optarg\<rparr>) t
      else if c = CHR ''h'' then inargs_cleanup 0 inp t
      else inargs_cleanup 1 inp t)"

definition process_inargs ::
  "env \<Rightarrow> nat \<Rightarrow> nat \<Rightarrow> (char \<times> string) list \<Rightarrow> inargs \<Rightarrow> trace \<Rightarrow> (parsed \<times> trace) option" where
  "process_inargs E argc optind opts inp t = process_options E argc optind opts inp t"

section \<open>Binding\<close>

definition rpmem_bind_server ::
  "env \<Rightarrow> inargs \<Rightarrow> server_state \<Rightarrow> (cint \<times> server_state) option" where
  "rpmem_bind_server E inp s = do {
     name \<leftarrow> cstr_arg (in_server_addr inp);
     let (ret, ssin, t) = get_addr E name (srv_ssin (sv_server s)) (in_server_port inp) (sv_trace s);
     let s = upd_server (\<lambda>sv. sv\<lparr>srv_ssin := ssin\<rparr>) (set_trace t s);
     if ret \<noteq> 0 then Some (ret, s) else do {
     let (ret, s) = srv_int E (Rdma_bind_addr (srv_cma_id (sv_server s)) (srv_ssin (sv_server s))) s;
     if ret \<noteq> 0 then Some (ret, s) else do {
     let (ret, s) = srv_int E (Rdma_listen (srv_cma_id (sv_server s)) 3) s;
     if ret \<noteq> 0 then Some (ret, s) else Some (0, s)
     }}}"

section \<open>Main\<close>

text \<open>
  How far \<^verbatim>\<open>main\<close> gets: the process exits while parsing, \<^verbatim>\<open>main\<close>
  returns a status, or the server listens and \<^verbatim>\<open>main\<close> waits for the connection
  manager thread. \<open>self\<close> is the address of the server structure on the stack, \<open>res\<close> what the stack
  holds where the resource structure is. The locks and the semaphore are represented by the
  atomicity of the steps, so that the label \<^verbatim>\<open>free_inargs\<close>, which destroys them,
  goes on to \<^verbatim>\<open>close_fd\<close>.
\<close>

datatype startup = Exited cint trace | Returned cint trace | Listening server_state inargs

definition main_out :: "inargs \<Rightarrow> trace \<Rightarrow> startup option" where
  "main_out inp t = do {
     t \<leftarrow> free_str (in_resource inp) t;
     t \<leftarrow> free_str (in_server_addr inp) t;
     Some (Returned 1 t)
   }"

definition main_close_fd :: "inargs \<Rightarrow> cint \<Rightarrow> trace \<Rightarrow> startup option" where
  "main_close_fd inp fd t = main_out inp (Close_fd fd # t)"

definition main_free_inargs :: "inargs \<Rightarrow> cint \<Rightarrow> trace \<Rightarrow> startup option" where
  "main_free_inargs inp fd t = main_close_fd inp fd t"

definition main_destroy_event_channel :: "inargs \<Rightarrow> cint \<Rightarrow> ptr \<Rightarrow> trace \<Rightarrow> startup option" where
  "main_destroy_event_channel inp fd ch t = main_free_inargs inp fd (Rdma_destroy_event_channel ch # t)"

definition main_destroy_id :: "inargs \<Rightarrow> cint \<Rightarrow> ptr \<Rightarrow> ptr \<Rightarrow> trace \<Rightarrow> startup option" where
  "main_destroy_id inp fd ch cid t = main_destroy_event_channel inp fd ch (Rdma_destroy_id cid # t)"

definition main_destroy_thread :: "inargs \<Rightarrow> cint \<Rightarrow> ptr \<Rightarrow> ptr \<Rightarrow> ptr \<Rightarrow> trace \<Rightarrow> startup option" where
  "main_destroy_thread inp fd ch cid self t = main_destroy_id inp fd ch cid (Pthread_cancel CM_THREAD self # t)"

lemmas main_label_defs = main_out_def main_close_fd_def main_free_inargs_def
  main_destroy_event_channel_def main_destroy_id_def main_destroy_thread_def

text \<open>From the server structure on: lines 828 to 866 of \<^verbatim>\<open>main\<close>.\<close>

definition main_serve :: "env \<Rightarrow> ptr \<Rightarrow> inargs \<Rightarrow> rpmem_resource \<Rightarrow> trace \<Rightarrow> startup option" where
  "main_serve E self inp res t = do {
     let s = server_start res t;
     let (ch, s) = srv_ptr E Rdma_create_event_channel s;
     let s = upd_server (\<lambda>sv. sv\<lparr>srv_cma_channel := ch\<rparr>) s;
     if ch = NULL then main_free_inargs inp (res_fd res) (sv_trace s) else do {
     let (err, s) = srv_int E (Rdma_create_id ch) s;
     if err \<noteq> 0 then main_destroy_event_channel inp (res_fd res) ch (sv_trace s) else do {
     let cid = env_ptr E (sv_trace s);
     let s = upd_server (\<lambda>sv. sv\<lparr>srv_cma_id := cid\<rparr>) s;
     let (err, s) = srv_int E (Pthread_create CM_THREAD self) s;
     if err \<noteq> 0 then main_destroy_id inp (res_fd res) ch cid (sv_trace s) else do {
     (err, s) \<leftarrow> rpmem_bind_server E inp s;
     if err \<noteq> 0 then main_destroy_thread inp (res_fd res) ch cid self (sv_trace s)
     else Some (Listening s inp)
     }}}}"

definition main_resource ::
  "env \<Rightarrow> ptr \<Rightarrow> inargs \<Rightarrow> rpmem_resource \<Rightarrow> trace \<Rightarrow> startup option" where
  "main_resource E self inp res t = do {
     name \<leftarrow> cstr_arg (in_resource inp);
     let (fd, t) = call_int E (Open_file name) t;
     let res = res\<lparr>res_name := name, res_fd := fd\<rparr>;
     if fd = -1 then main_out inp t else do {
     let (err, t) = call_int E (Fstat64 fd) t;
     let st = env_stat E t;
     let res = res\<lparr>res_st_size := stat_size st\<rparr>;
     if err = 0 then
       if stat_isblk st then do {
         let (err, t) = call_int E (Ioctl_blkgetsize64 fd) t;
         let res = res\<lparr>res_st_size := stat_size (env_stat E t)\<rparr>;
         if err <s 0 then main_close_fd inp fd t else main_serve E self inp res t
       }
       else main_serve E self inp res t
     else main_close_fd inp fd t
     }}"

definition main_listen ::
  "env \<Rightarrow> ptr \<Rightarrow> nat \<Rightarrow> nat \<Rightarrow> (char \<times> string) list \<Rightarrow> inargs \<Rightarrow> rpmem_resource \<Rightarrow> trace \<Rightarrow> startup option" where
  "main_listen E self argc optind opts inp res t = do {
     (r, t) \<leftarrow> process_inargs E argc optind opts inp t;
     case r of Exit code \<Rightarrow> Some (Exited code t) | Parsed inp \<Rightarrow> main_resource E self inp res t
   }"

text \<open>
  \<^verbatim>\<open>main\<close> itself: once the server listens it waits for the connection manager thread,
  and returns 0 when that thread has ended.
\<close>

definition server_main ::
  "env \<Rightarrow> ptr \<Rightarrow> nat \<Rightarrow> nat \<Rightarrow> (char \<times> string) list \<Rightarrow> inargs \<Rightarrow> rpmem_resource \<Rightarrow> trace \<Rightarrow>
     (cint \<times> trace) option" where
  "server_main E self argc optind opts inp res t = do {
     r \<leftarrow> main_listen E self argc optind opts inp res t;
     case r of
       Exited code t \<Rightarrow> Some (code, t)
     | Returned code t \<Rightarrow> Some (code, t)
     | Listening s inp \<Rightarrow> do {
         let s = set_trace (Pthread_join CM_THREAD self # sv_trace s) s;
         (running, s) \<leftarrow> server_cm_thread E (env_rounds E (sv_trace s)) s;
         if running then None else Some (0, sv_trace s)
       }
   }"

section \<open>The command line, read\<close>

definition cstr_mem :: "cstr \<Rightarrow> handle multiset" where
  "cstr_mem c = (case c of Stray _ \<Rightarrow> {#} | Heap p _ \<Rightarrow> some_ptr H_mem p)"

lemma cstr_mem_simps [simp]: "cstr_mem (Stray p) = {#}" "cstr_mem (Heap p str) = some_ptr H_mem p"
  by (simp_all add: cstr_mem_def)

lemma free_str_live: "free_str c t = Some t' \<Longrightarrow> live E t' = live E t - cstr_mem c"
  by (cases c) (auto split: if_splits)

lemma main_out_live:
  "main_out inp t = Some r \<Longrightarrow>
     \<exists>t'. r = Returned 1 t' \<and> live E t' = live E t - cstr_mem (in_resource inp) - cstr_mem (in_server_addr inp)"
  by (cases "free_str (in_resource inp) t")
    (auto simp: main_out_def Option.bind_eq_Some_conv free_str_live [of _ _ _ E])

text \<open>Parsing returns only if all options are known and set a member, and no argument is left over.\<close>

lemma cleanup_exits: "inargs_cleanup code inp t \<noteq> Some (Parsed inp', t')"
  by (auto simp: inargs_cleanup_def Option.bind_eq_Some_conv)

lemma options_Nil:
  "process_options E argc optind [] inp t = Some (Parsed inp', t') \<longleftrightarrow> argc \<le> optind \<and> inp' = inp \<and> t' = t"
  by (auto simp: cleanup_exits)

lemma options_Cons:
  assumes "process_options E argc optind ((c, arg) # opts) inp t = Some (Parsed inp', t')"
  obtains (addr) p where "c = CHR ''a''" "p = env_ptr E (Strdup arg # t)"
      "process_options E argc optind opts (inp\<lparr>in_server_addr := Heap p arg\<rparr>) (Strdup arg # t) = Some (Parsed inp', t')"
  | (port) "c = CHR ''p''"
      "process_options E argc optind opts
         (inp\<lparr>in_server_port := htons (host E) (word_of_int (strtol arg 0))\<rparr>) t = Some (Parsed inp', t')"
  | (res) p where "c = CHR ''r''" "p = env_ptr E (Strdup arg # t)"
      "process_options E argc optind opts (inp\<lparr>in_resource := Heap p arg\<rparr>) (Strdup arg # t) = Some (Parsed inp', t')"
  using assms cleanup_exits by (auto simp: call_defs Let_def split: if_splits)

text \<open>
  Parsing that returns leaves the strings it duplicated in the arguments, and nothing else when no
  option comes twice.
\<close>

lemma process_options_live:
  assumes "process_options E argc optind opts inp t = Some (Parsed inp', t')"
    and "distinct (map fst opts)"
    and "CHR ''a'' \<in> fst ` set opts \<longrightarrow> cstr_mem (in_server_addr inp) = {#}"
    and "CHR ''r'' \<in> fst ` set opts \<longrightarrow> cstr_mem (in_resource inp) = {#}"
  shows "live E t' + cstr_mem (in_server_addr inp) + cstr_mem (in_resource inp) =
    live E t + cstr_mem (in_server_addr inp') + cstr_mem (in_resource inp')"
  using assms
proof (induction opts arbitrary: inp t)
  case Nil
  then show ?case by (simp only: options_Nil simp_thms)
next
  case (Cons o1 opts)
  obtain c arg where o1: "o1 = (c, arg)" by (cases o1)
  note d = Cons.prems(2-4) [unfolded o1]
  from Cons.prems(1) [unfolded o1] show ?case
  proof (cases rule: options_Cons)
    case (addr p)
    from Cons.IH [OF addr(3)] d addr(1,2) show ?thesis by (auto simp: algebra_simps)
  next
    case port
    from Cons.IH [OF port(2)] d port(1) show ?thesis by auto
  next
    case (res p)
    from Cons.IH [OF res(3)] d res(1,2) show ?thesis by (auto simp: algebra_simps)
  qed
qed

lemma process_options_stray:
  assumes "process_options E argc optind opts inp t = Some (r, t')" and "CHR ''a'' \<notin> fst ` set opts"
    and "in_server_addr inp = Stray p" and "p \<noteq> NULL"
  shows "\<exists>inp'. r = Parsed inp' \<and> in_server_addr inp' = Stray p"
  using assms
  by (induction E argc optind opts inp t rule: process_options.induct)
    (auto simp: inargs_cleanup_def call_defs Let_def split: if_splits)

lemma process_options_port:
  assumes "process_options E argc optind opts inp t = Some (Parsed inp', t')"
    and "\<forall>arg. (CHR ''p'', arg) \<in> set opts \<longrightarrow> arg = dec_string n" and "n < 65536"
    and "CHR ''p'' \<in> fst ` set opts \<or> in_server_port inp = htons (host E) (of_nat n)"
  shows "in_server_port inp' = htons (host E) (of_nat n)"
  using assms
proof (induction opts arbitrary: inp t)
  case Nil
  then show ?case by (simp add: options_Nil del: process_options.simps)
next
  case (Cons o1 opts)
  obtain c arg where o1: "o1 = (c, arg)" by (cases o1)
  note d = Cons.prems(2-4) [unfolded o1]
  from Cons.prems(1) [unfolded o1] show ?case
  proof (cases rule: options_Cons)
    case (addr p)
    from Cons.IH [OF addr(3)] d addr(1) show ?thesis by auto
  next
    case port
    then have "arg = dec_string n" using d(1) by simp
    with \<open>n < 65536\<close> have "word_of_int (strtol arg 0) = (of_nat n :: u16)" by (simp add: strtol_dec)
    with Cons.IH [OF port(2)] d show ?thesis by auto
  next
    case (res p)
    from Cons.IH [OF res(3)] d res(1) show ?thesis by auto
  qed
qed

section \<open>Starting and failing to start\<close>

text \<open>
  Binding changes the address and the trace only; when it succeeds, the last two calls bound the
  identifier to the resolved address and put it into the listening state.
\<close>

definition listens :: "env \<Rightarrow> u16 \<Rightarrow> server_state \<Rightarrow> bool" where
  "listens E port s \<longleftrightarrow>
     (\<exists>nm a t t'. get_addr E nm a port t = (0, srv_ssin (sv_server s), t') \<and>
        sv_trace s = Rdma_listen (srv_cma_id (sv_server s)) 3 #
          Rdma_bind_addr (srv_cma_id (sv_server s)) (srv_ssin (sv_server s)) # t' \<and>
        env_int E (sv_trace s) = 0 \<and> env_int E (tl (sv_trace s)) = 0)"

lemma bind_server_result:
  assumes "rpmem_bind_server E inp s = Some (ret, s')"
  shows "fresh_server s \<Longrightarrow> fresh_server s'" and "live E (sv_trace s') = live E (sv_trace s)"
    and "ret = 0 \<Longrightarrow> listens E (in_server_port inp) s'"
    and "srv_cma_id (sv_server s') = srv_cma_id (sv_server s)" and "sv_resources s' = sv_resources s"
proof -
  obtain name where n: "cstr_arg (in_server_addr inp) = Some name"
    using assms by (cases "cstr_arg (in_server_addr inp)") (auto simp: rpmem_bind_server_def)
  obtain r a t where g: "get_addr E name (srv_ssin (sv_server s)) (in_server_port inp) (sv_trace s) = (r, a, t)"
    by (cases "get_addr E name (srv_ssin (sv_server s)) (in_server_port inp) (sv_trace s)")
  let ?id = "srv_cma_id (sv_server s)"
  let ?t = "sv_trace s'"
  have s': "s' = set_trace ?t (upd_server (\<lambda>sv. sv\<lparr>srv_ssin := a\<rparr>) s)" "live E ?t = live E t"
    and ok: "ret = 0 \<longrightarrow> r = 0 \<and> ?t = Rdma_listen ?id 3 # Rdma_bind_addr ?id a # t \<and> env_int E ?t = 0 \<and> env_int E (tl ?t) = 0"
    using assms
    by (auto simp: rpmem_bind_server_def n g srv_int_def call_defs upd_server_def set_trace_def Let_def split: if_splits)
  have sv: "sv_server s' = (sv_server s)\<lparr>srv_ssin := a\<rparr>" "sv_units s' = sv_units s" "sv_resources s' = sv_resources s"
    by (subst s'(1), simp add: upd_server_def)+
  show "fresh_server s \<Longrightarrow> fresh_server s'" "srv_cma_id (sv_server s') = srv_cma_id (sv_server s)"
    "sv_resources s' = sv_resources s" "live E (sv_trace s') = live E (sv_trace s)"
    using s'(2) sv get_addr_live [OF g] by (auto simp: fresh_server_def avail_def)
  show "listens E (in_server_port inp) s'" if "ret = 0"
    using g ok that unfolding listens_def by (auto simp: sv)
qed

text \<open>What \<^verbatim>\<open>main\<close> returns with, and what it listens with.\<close>

definition strings_mem :: "inargs \<Rightarrow> handle multiset" where
  "strings_mem inp = cstr_mem (in_server_addr inp) + cstr_mem (in_resource inp)"

definition started :: "env \<Rightarrow> inargs \<Rightarrow> cint \<Rightarrow> u64 \<Rightarrow> trace \<Rightarrow> startup \<Rightarrow> bool" where
  "started E inp fd sz t r \<longleftrightarrow>
     (case r of
        Exited code t' \<Rightarrow> False
      | Returned code t' \<Rightarrow> code = 1 \<and> live E t' = live E t - {#H_fd fd#} - strings_mem inp
      | Listening s inp' \<Rightarrow> inp' = inp \<and> fresh_server s \<and> listens E (in_server_port inp) s \<and>
          res_st_size (sv_resources s 0) = sz)"

lemma close_fd_started:
  "main_close_fd inp fd t = Some r \<Longrightarrow> live E t = live E t0 \<Longrightarrow> started E inp fd sz t0 r"
  by (auto simp: main_close_fd_def started_def strings_mem_def add.commute dest!: main_out_live [of _ _ _ E])

text \<open>The server structure once the channel, the identifier and the thread exist.\<close>

lemma main_serve_eq:
  fixes E self res t
  defines "c \<equiv> Rdma_create_event_channel # t"
  defines "ch \<equiv> env_ptr E c"
  defines "i \<equiv> Rdma_create_id ch # c"
  defines "cid \<equiv> env_ptr E i"
  defines "p \<equiv> Pthread_create CM_THREAD self # i"
  shows "main_serve E self inp res t =
      (if ch = NULL then main_close_fd inp (res_fd res) c
       else if env_int E i \<noteq> 0 then main_close_fd inp (res_fd res) (Rdma_destroy_event_channel ch # i)
       else if env_int E p \<noteq> 0 then
         main_close_fd inp (res_fd res) (Rdma_destroy_event_channel ch # Rdma_destroy_id cid # p)
       else Option.bind (rpmem_bind_server E inp
           (upd_server (\<lambda>sv. sv\<lparr>srv_cma_channel := ch, srv_cma_id := cid\<rparr>) (server_start res p))) (\<lambda>(err, s).
         if err \<noteq> 0 then main_close_fd inp (res_fd res)
           (Rdma_destroy_event_channel ch # Rdma_destroy_id cid # Pthread_cancel CM_THREAD self # sv_trace s)
         else Some (Listening s inp)))"
  unfolding assms
  by (simp add: main_serve_def srv_ptr_def srv_int_def call_defs Let_def server_start_def
      upd_server_def set_trace_def main_label_defs cong: if_cong)

lemma serve_started:
  assumes "main_serve E self inp res t = Some r"
  shows "started E inp (res_fd res) (res_st_size res) t r"
proof -
  let ?c = "Rdma_create_event_channel # t"
  define ch where "ch = env_ptr E ?c"
  let ?i = "Rdma_create_id ch # ?c"
  define cid where "cid = env_ptr E ?i"
  let ?p = "Pthread_create CM_THREAD self # ?i"
  let ?s = "upd_server (\<lambda>sv. sv\<lparr>srv_cma_channel := ch, srv_cma_id := cid\<rparr>) (server_start res ?p)"
  have fs: "fresh_server ?s" "sv_resources ?s 0 = res" "sv_trace ?s = ?p"
    by (simp_all add: fresh_server_def server_start_def avail_def upd_server_def)
  note m = main_serve_eq [of E self inp res t, folded ch_def, folded cid_def]
  show ?thesis
  proof (cases "ch = NULL \<or> env_int E ?i \<noteq> 0 \<or> env_int E ?p \<noteq> 0")
    case True
    with assms m show ?thesis
      by (auto intro!: close_fd_started [of inp "res_fd res"] simp: ch_def [symmetric] cid_def [symmetric] split: if_splits)
  next
    case False
    with assms m obtain err s where b: "rpmem_bind_server E inp ?s = Some (err, s)"
      and r: "(if err \<noteq> 0 then main_close_fd inp (res_fd res)
           (Rdma_destroy_event_channel ch # Rdma_destroy_id cid # Pthread_cancel CM_THREAD self # sv_trace s)
         else Some (Listening s inp)) = Some r"
      by (auto simp: Option.bind_eq_Some_conv)
    note br = bind_server_result [OF b]
    have "live E (sv_trace s) = live E t + {#H_event_channel ch#} + {#H_cm_id cid#} + {#H_thread CM_THREAD self#}"
      using br(2) fs(3) False by (simp add: ch_def [symmetric] cid_def [symmetric])
    then have "live E (Rdma_destroy_event_channel ch # Rdma_destroy_id cid # Pthread_cancel CM_THREAD self # sv_trace s) = live E t"
      by simp
    note gives_back = close_fd_started [OF _ this, of inp "res_fd res" r]
    show ?thesis
    proof (cases "err = 0")
      case True
      with r br(1,3,5) fs show ?thesis by (auto simp: started_def)
    qed (use r gives_back in simp)
  qed
qed

lemma started_cong: "live E t = live E t0 \<Longrightarrow> started E inp fd sz t r \<Longrightarrow> started E inp fd sz t0 r"
  by (simp add: started_def split: startup.splits)

text \<open>The size of the resource: of the file, or what the device reports for a block device.\<close>

definition resource_size :: "env \<Rightarrow> cint \<Rightarrow> trace \<Rightarrow> u64" where
  "resource_size E fd t =
     (let st = env_stat E (Fstat64 fd # t) in
      if stat_isblk st then stat_size (env_stat E (Ioctl_blkgetsize64 fd # Fstat64 fd # t)) else stat_size st)"

lemma resource_result:
  assumes "main_resource E self inp res t = Some r"
  obtains (fail) t' where "r = Returned 1 t'" "live E t' = live E t - strings_mem inp"
  | (up) s fd nm where "r = Listening s inp" "fresh_server s" "listens E (in_server_port inp) s"
      "fd = env_int E (Open_file nm # t)" "res_st_size (sv_resources s 0) = resource_size E fd (Open_file nm # t)"
proof -
  obtain name where n: "cstr_arg (in_resource inp) = Some name"
    using assms by (cases "cstr_arg (in_resource inp)") (auto simp: main_resource_def)
  define fd where "fd = env_int E (Open_file name # t)"
  let ?o = "Open_file name # t"
  show thesis
  proof (cases "fd = -1")
    case True
    with assms n have "main_out inp ?o = Some r" by (simp add: main_resource_def call_defs fd_def)
    from main_out_live [OF this, of E] True show thesis
      by (auto simp: fd_def strings_mem_def add.commute intro: fail)
  next
    case False
    let ?f = "Fstat64 fd # ?o" and ?i = "Ioctl_blkgetsize64 fd # Fstat64 fd # ?o"
    let ?r = "res\<lparr>res_name := name, res_fd := fd, res_st_size := resource_size E fd ?o\<rparr>"
    have "main_close_fd inp fd ?f = Some r \<or> main_close_fd inp fd ?i = Some r \<or>
        main_serve E self inp ?r ?f = Some r \<or> main_serve E self inp ?r ?i = Some r"
      using assms n False
      by (auto simp: main_resource_def call_defs fd_def [symmetric] resource_size_def Let_def split: if_splits)
    moreover have "live E ?f = live E ?o" "live E ?i = live E ?o" by (simp_all only: live_calls)
    ultimately have "started E inp fd (resource_size E fd ?o) ?o r"
      using close_fd_started [of inp fd _ r E ?o] started_cong [OF _ serve_started, of E _ ?o self inp ?r r]
      by (elim disjE) (simp_all del: live_calls)
    moreover have "live E ?o = live E t + {#H_fd fd#}" using False by (simp add: fd_def)
    ultimately show thesis
      by (cases r) (auto simp: started_def fd_def intro: fail up)
  qed
qed

lemma listen_result:
  assumes "main_listen E self argc optind opts inp res t = Some r"
  obtains (exits) code t' where "r = Exited code t'"
  | (runs) inp1 t1 where "process_options E argc optind opts inp t = Some (Parsed inp1, t1)"
      "main_resource E self inp1 res t1 = Some r"
  using assms
  by (cases "process_options E argc optind opts inp t")
    (auto simp: main_listen_def process_inargs_def split: parsed.splits)

lemma listening_fresh:
  assumes "main_listen E self argc optind opts inp res t = Some (Listening s inp')"
  shows "fresh_server s" and "listens E (in_server_port inp') s"
    and "\<exists>t1. process_options E argc optind opts inp t = Some (Parsed inp', t1)"
proof -
  from assms obtain inp1 t1 where p: "process_options E argc optind opts inp t = Some (Parsed inp1, t1)"
    and r: "main_resource E self inp1 res t1 = Some (Listening s inp')"
    by (cases rule: listen_result) auto
  from r show "fresh_server s" "listens E (in_server_port inp') s"
    "\<exists>t1. process_options E argc optind opts inp t = Some (Parsed inp', t1)"
    using p by (cases rule: resource_result; auto)+
qed

lemma resource_stray:
  assumes "in_server_addr inp = Stray p" and "p \<noteq> NULL"
  shows "main_resource E self inp res t = None"
proof -
  have out: "main_out inp t1 = None" for t1
    using assms by (cases "free_str (in_resource inp) t1") (simp_all add: main_out_def)
  have bind: "rpmem_bind_server E inp s = None" for s using assms by (simp add: rpmem_bind_server_def)
  have "main_serve E self inp r t1 = None" for r t1
    by (simp add: main_serve_def bind main_close_fd_def main_free_inargs_def main_destroy_event_channel_def
        main_destroy_id_def out split_beta Let_def)
  then show ?thesis
    by (cases "cstr_arg (in_resource inp)") (simp_all add: main_resource_def main_close_fd_def out split_beta Let_def)
qed

text \<open>Only the help option ends the process with status 0, and only a failing call the manager thread.\<close>

lemma options_exit_code:
  assumes "process_options E argc optind opts inp t = Some (Exit code, t')" and "CHR ''h'' \<notin> fst ` set opts"
  shows "code = 1"
  using assms
  by (induction E argc optind opts inp t rule: process_options.induct)
    (auto simp: inargs_cleanup_def call_defs Let_def Option.bind_eq_Some_conv split: if_splits)

lemma exit_code:
  assumes "main_listen E self argc optind opts inp res t = Some (Exited code t')" and "CHR ''h'' \<notin> fst ` set opts"
  shows "code = 1"
proof -
  obtain r t1 where p: "process_options E argc optind opts inp t = Some (r, t1)"
    using assms(1) by (cases "process_options E argc optind opts inp t") (auto simp: main_listen_def process_inargs_def)
  show ?thesis
  proof (cases r)
    case (Exit c)
    with assms p options_exit_code [OF p [unfolded Exit]] show ?thesis
      by (simp add: main_listen_def process_inargs_def)
  next
    case (Parsed inp1)
    with assms(1) p have "main_resource E self inp1 res t1 = Some (Exited code t')"
      by (simp add: main_listen_def process_inargs_def)
    then show ?thesis by (cases rule: resource_result) auto
  qed
qed

lemma cm_thread_stops:
  assumes "server_cm_thread E n s = Some (False, s')"
  shows "\<exists>ch t. sv_trace s' = Rdma_get_cm_event ch # t \<and> env_int E (sv_trace s') \<noteq> 0"
  using assms
proof (induction n arbitrary: s)
  case (Suc n)
  then obtain b s1 where r: "server_cm_thread_round E s = Some (b, s1)"
    by (cases "server_cm_thread_round E s") auto
  show ?case
  proof (cases b)
    case True
    with Suc r show ?thesis by auto
  next
    case False
    with Suc.prems r have "server_cm_thread_round E s = Some (False, s')" by simp
    then show ?thesis
      by (auto simp: server_cm_thread_round_def srv_int_def call_defs Let_def rpmem_server_cma_handler_def
          Option.bind_eq_Some_conv split: if_splits rdma_cm_event_type.splits)
  qed
qed simp

section \<open>Properties\<close>

text \<open>
  The states of a running server. In every state the server can reach once \<^verbatim>\<open>main\<close>
  has made it listen, through requests on any connection in any order, connection requests and
  whatever the platform answers, the server invariant holds (every connection in memory can serve
  requests, the list holds connections in memory only, the pool accounts add up), and the resource
  is either free with all of its size advertised, or held by exactly one connection with nothing
  left to advertise.
\<close>
theorem reachable_server_states:
  assumes "main_listen E self argc optind opts inp res t = Some (Listening s0 inp')" and "srv_reach E s0 s"
  shows "server_inv s \<and>
    (avail s = [0] \<and> (\<forall>u. owner s u = None) \<and>
       srv_free_size (sv_server s) = srv_total_size (sv_server s) \<and> srv_in_use_size (sv_server s) = 0 \<or>
     (\<exists>u. avail s = [] \<and> owner s u = Some 0 \<and> (\<forall>v. v \<noteq> u \<longrightarrow> owner s v = None) \<and>
       srv_free_size (sv_server s) = 0 \<and> srv_in_use_size (sv_server s) = srv_total_size (sv_server s)))"
  using fresh_reach [OF listening_fresh(1) [OF assms(1)] assms(2)] by (simp add: one_holder_def)

abbreviation demo_opts :: "(char \<times> string) list" where
  "demo_opts \<equiv> [(CHR ''a'', ''10.0.0.1''), (CHR ''p'', ''7174''), (CHR ''r'', ''/dev/pmem0'')]"

abbreviation stray_args :: "ptr \<Rightarrow> inargs" where
  "stray_args p \<equiv> \<lparr>in_server_addr = Stray p, in_server_port = 0, in_resource = Stray p\<rparr>"

abbreviation demo_res :: rpmem_resource where
  "demo_res \<equiv> sv_resources (demo_state zero_cmd) 0"

lemmas main_eval = main_listen_def process_inargs_def main_resource_def main_serve_def call_defs srv_int_def srv_ptr_def
  rpmem_bind_server_def get_addr_def server_start_def upd_server_def set_trace_def Let_def

lemma demo_listen:
  "\<exists>s. main_listen ok_env 4096 7 7 demo_opts (stray_args 99) demo_res [] =
     Some (Listening s \<lparr>in_server_addr = Heap 65536 ''10.0.0.1'', in_server_port = htons LE (word_of_int (strtol ''7174'' 0)),
       in_resource = Heap 65536 ''/dev/pmem0''\<rparr>)"
  by (simp add: main_eval ok_env_def)

theorem reachable_server_states_witness:
  "\<exists>s0 s inp. main_listen ok_env 4096 7 7 demo_opts (stray_args 99) demo_res [] = Some (Listening s0 inp) \<and>
     rpmem_connect_request_handler ok_env \<lparr>ev_id = 9, ev_event = RDMA_CM_EVENT_CONNECT_REQUEST\<rparr> s0 = Some s \<and>
     server_inv s \<and> (avail s = [0] \<or> avail s = [])"
proof -
  let ?ev = "\<lparr>ev_id = 9, ev_event = RDMA_CM_EVENT_CONNECT_REQUEST\<rparr>"
  obtain s0 inp where s0: "main_listen ok_env 4096 7 7 demo_opts (stray_args 99) demo_res [] = Some (Listening s0 inp)"
    using demo_listen by blast
  obtain s where s: "rpmem_connect_request_handler ok_env ?ev s0 = Some s"
    using connect_request_effect [OF refl] by blast
  have "sv_units s0 = (\<lambda>_. None)" using listening_fresh(1) [OF s0] by (simp add: fresh_server_def)
  then have "srv_reach ok_env s0 s"
    by (intro srv_reach_step srv_step.connect [OF _ s]) simp
  with reachable_server_states [OF s0 this] s s0 show ?thesis by blast
qed

text \<open>
  A server that cannot start gives everything back. When \<^verbatim>\<open>main\<close> returns
  instead of listening, whichever step failed, its status is 1 and the event channel, the
  identifier, the thread, the file and the strings it had obtained are all given back, provided no
  option was given twice.
\<close>
theorem start_failure_gives_back:
  assumes "main_listen E self argc optind opts inp res t = Some (Returned code t')"
    and "distinct (map fst opts)" and "in_server_addr inp = Stray p" and "in_resource inp = Stray q"
  shows "code = 1 \<and> live E t' = live E t"
proof -
  from assms(1) obtain inp1 t1 where pr: "process_options E argc optind opts inp t = Some (Parsed inp1, t1)"
    and r: "main_resource E self inp1 res t1 = Some (Returned code t')"
    by (cases rule: listen_result) auto
  have "live E t1 = live E t + strings_mem inp1"
    using process_options_live [OF pr assms(2)] assms(3,4) by (simp add: strings_mem_def add.assoc)
  with r show ?thesis by (cases rule: resource_result) auto
qed

theorem start_failure_gives_back_witness:
  "let E = ok_env\<lparr>env_int := (\<lambda>t. case t of Rdma_listen _ _ # _ \<Rightarrow> -1 | _ \<Rightarrow> 0)\<rparr> in
   \<exists>t'. main_listen E 4096 7 7 demo_opts (stray_args 99) demo_res [] = Some (Returned 1 t') \<and> live E t' = {#} \<and>
     Rdma_destroy_id 65536 \<in> set t'"
proof -
  let ?E = "ok_env\<lparr>env_int := (\<lambda>t. case t of Rdma_listen _ _ # _ \<Rightarrow> -1 | _ \<Rightarrow> 0)\<rparr>"
  have "\<exists>t'. main_listen ?E 4096 7 7 demo_opts (stray_args 99) demo_res [] = Some (Returned 1 t') \<and>
      Rdma_destroy_id 65536 \<in> set t'"
    by (simp add: main_eval main_label_defs ok_env_def)
  then obtain t' where h: "main_listen ?E 4096 7 7 demo_opts (stray_args 99) demo_res [] = Some (Returned 1 t')"
    "Rdma_destroy_id 65536 \<in> set t'" by blast
  from start_failure_gives_back [OF h(1)] h show ?thesis by (simp add: Let_def)
qed

text \<open>
  The server needs its address option. The arguments structure is not initialised: when the
  command line has no address option and the stack happens to hold a pointer that is not null in
  its place, \<^verbatim>\<open>main\<close> uses that pointer, whatever the other options are and whatever
  the platform answers: to be freed by the help or the error exit, to be freed after a failure, or
  to be resolved as a host name.
\<close>
theorem missing_address_undefined:
  assumes "CHR ''a'' \<notin> fst ` set opts" and "in_server_addr inp = Stray p" and "p \<noteq> NULL"
  shows "main_listen E self argc optind opts inp res t = None"
proof (cases "process_options E argc optind opts inp t")
  case None
  then show ?thesis by (simp add: main_listen_def process_inargs_def)
next
  case (Some rt)
  obtain r t1 where rt: "rt = (r, t1)" by (cases rt)
  with process_options_stray [OF _ assms] Some obtain inp1 where "r = Parsed inp1" "in_server_addr inp1 = Stray p"
    by blast
  then show ?thesis using Some rt resource_stray assms(3) by (simp add: main_listen_def process_inargs_def)
qed

theorem missing_address_undefined_witness:
  "main_listen ok_env 4096 2 2 [(CHR ''h'', [])] (stray_args 99) demo_res [] = None \<and>
   main_listen ok_env 4096 5 5 [(CHR ''p'', ''7174''), (CHR ''r'', ''/dev/pmem0'')] (stray_args 99) demo_res [] = None"
  by (intro conjI; rule missing_address_undefined [of _ _ 99]) simp_all

text \<open>
  C39: the server listens on the port it was given. When the port option is the decimal number
  \<open>n\<close> and the server listens, the last two calls of \<^verbatim>\<open>main\<close> bound its identifier to
  the resolved address and started to listen, both successfully, and the port member of that address
  is \<open>n\<close> in network byte order, whatever the byte order of the host.
\<close>
theorem listens_on_given_port:
  assumes "main_listen E self argc optind opts inp res t = Some (Listening s inp')"
    and "(CHR ''p'', dec_string n) \<in> set opts" and "n < 65536"
    and "\<forall>arg. (CHR ''p'', arg) \<in> set opts \<longrightarrow> arg = dec_string n"
    and "\<And>h. 16 \<le> length (ai_addr (env_addrinfo E h))"
  shows "take 2 (drop 2 (srv_ssin (sv_server s))) = [of_nat (n div 256), of_nat (n mod 256)] \<and>
    (\<exists>t'. sv_trace s = Rdma_listen (srv_cma_id (sv_server s)) 3 #
        Rdma_bind_addr (srv_cma_id (sv_server s)) (srv_ssin (sv_server s)) # t' \<and>
      env_int E (sv_trace s) = 0 \<and> env_int E (tl (sv_trace s)) = 0)"
proof -
  note l = listening_fresh [OF assms(1)]
  from l(3) obtain t1 where "process_options E argc optind opts inp t = Some (Parsed inp', t1)" by blast
  then have p: "in_server_port inp' = htons (host E) (of_nat n)"
    by (rule process_options_port) (use assms(2-4) in force)+
  from l(2) obtain nm a h h' where g: "get_addr E nm a (in_server_port inp') h = (0, srv_ssin (sv_server s), h')"
    and t: "sv_trace s = Rdma_listen (srv_cma_id (sv_server s)) 3 #
        Rdma_bind_addr (srv_cma_id (sv_server s)) (srv_ssin (sv_server s)) # h'"
      "env_int E (sv_trace s) = 0" "env_int E (tl (sv_trace s)) = 0"
    unfolding listens_def by blast
  have "take 2 (drop 2 (srv_ssin (sv_server s))) = rev (le_bytes 2 (of_nat n :: u16))"
    using get_addr_port [OF g assms(5)] unfolding p store_htons .
  with t show ?thesis using port_bytes [OF assms(3)] by auto
qed

theorem listens_on_given_port_witness:
  "\<exists>s inp. main_listen ok_env 4096 7 7 demo_opts (stray_args 99) demo_res [] = Some (Listening s inp) \<and>
     take 2 (drop 2 (srv_ssin (sv_server s))) = [28, 6]"
proof -
  obtain s inp where h: "main_listen ok_env 4096 7 7 demo_opts (stray_args 99) demo_res [] = Some (Listening s inp)"
    using demo_listen by blast
  have d: "dec_string 7174 = ''7174''" by (simp add: dec_string.simps)
  from listens_on_given_port [OF h, of 7174] h show ?thesis by (auto simp: d ok_env_def)
qed

text \<open>
  The server runs until its event channel fails. When \<^verbatim>\<open>main\<close> returns 0 and the
  help option was not given, its last call was \<^verbatim>\<open>rdma_get_cm_event\<close>, which failed: no
  request, connection or refused connection ends the server.
\<close>
theorem server_runs_until_event_error:
  assumes "server_main E self argc optind opts inp res t = Some (0, t')" and "CHR ''h'' \<notin> fst ` set opts"
  shows "\<exists>ch t1. t' = Rdma_get_cm_event ch # t1 \<and> env_int E t' \<noteq> 0"
proof -
  obtain r where r: "main_listen E self argc optind opts inp res t = Some r"
    using assms(1) by (cases "main_listen E self argc optind opts inp res t") (auto simp: server_main_def)
  note m = assms(1) [unfolded server_main_def r]
  show ?thesis
  proof (cases r)
    case (Exited code t1)
    with m r exit_code assms(2) show ?thesis by fastforce
  next
    case (Returned code t1)
    with r have "code = 1" by (cases rule: listen_result) (auto elim: resource_result)
    with m Returned show ?thesis by simp
  next
    case (Listening s inp1)
    with m obtain n s1 s2 where "server_cm_thread E n s1 = Some (False, s2)" "t' = sv_trace s2"
      by (auto simp: Let_def Option.bind_eq_Some_conv split: if_splits)
    with cm_thread_stops show ?thesis by blast
  qed
qed

theorem server_runs_until_event_error_witness:
  "let E = ok_env\<lparr>env_int := (\<lambda>t. case t of Rdma_get_cm_event _ # _ \<Rightarrow> -1 | _ \<Rightarrow> 0)\<rparr> in
   \<exists>t1. server_main E 4096 7 7 demo_opts (stray_args 99) demo_res [] = Some (0, Rdma_get_cm_event 65536 # t1)"
proof -
  let ?E = "ok_env\<lparr>env_int := (\<lambda>t. case t of Rdma_get_cm_event _ # _ \<Rightarrow> -1 | _ \<Rightarrow> 0)\<rparr>"
  have "\<exists>t'. server_main ?E 4096 7 7 demo_opts (stray_args 99) demo_res [] = Some (0, t') \<and>
      (\<forall>ch t1. t' = Rdma_get_cm_event ch # t1 \<longrightarrow> ch = 65536)"
    by (simp add: server_main_def main_eval ok_env_def server_cm_thread_round_def)
  then obtain t' where h: "server_main ?E 4096 7 7 demo_opts (stray_args 99) demo_res [] = Some (0, t')"
    "\<forall>ch t1. t' = Rdma_get_cm_event ch # t1 \<longrightarrow> ch = 65536" by blast
  from server_runs_until_event_error [OF h(1)] h show ?thesis by (auto simp: Let_def)
qed

end
