(* ===== verification/Server_Calls.thy ===== *)
theory Server_Calls
  imports Server_Spec
begin

text \<open>
  What a request may make the server call. Every call a handler makes is one of a short list, with
  arguments from the connection, the resource it works on and the request itself: the handlers of one
  connection never post on the queue pair of another, and files are mapped privately. The last section
  is about the addresses the handlers take over from the request.
\<close>

section \<open>The calls of a request\<close>

text \<open>
  A call \<open>c\<close> after the history \<open>t\<close> that handling the request in the buffer of the connection \<open>u\<close> may
  make in the state \<open>s\<close>.
\<close>

definition request_call :: "server_state \<Rightarrow> uid \<Rightarrow> call \<Rightarrow> trace \<Rightarrow> bool" where
  "request_call s u c t =
     (case sv_units s u of
        None \<Rightarrow> False
      | Some un \<Rightarrow>
          let opc = wire_opcode (req_of s u); n = scast (wire_word (req_of s u)) in
          case c of
            Ibv_post_recv qp wr \<Rightarrow> qp = conn_qp (unit_conn un)
          | Ibv_post_send qp wr m \<Rightarrow> qp = conn_qp (unit_conn un) \<and> swr_opcode wr = IBV_WR_SEND
          | Posix_fallocate fd k \<Rightarrow> opc = opcode_val RPMEM_MAP_REQ \<and> k = n \<and> fd \<in> (\<lambda>q. res_fd (sv_resources s q)) ` set (avail s)
          | Mmap fd k fl \<Rightarrow> opc = opcode_val RPMEM_MAP_REQ \<and> k = n \<and> fl = MAP_PRIVATE \<and>
              fd \<in> (\<lambda>q. res_fd (sv_resources s q)) ` set (avail s)
          | Ibv_reg_mr pd a k fs \<Rightarrow> opc = opcode_val RPMEM_MAP_REQ \<and> k = n \<and> pd = conn_pd (unit_conn un)
          | Ibv_dereg_mr mr \<Rightarrow> opc = opcode_val RPMEM_UNMAP_REQ \<and> (\<exists>q. unit_res un = Some q \<and> res_mr (sv_resources s q) = Some mr)
          | Munmap a k \<Rightarrow> k = n \<and>
              (opc = opcode_val RPMEM_UNMAP_REQ \<and> a = wire_addr (req_of s u) \<or>
               opc = opcode_val RPMEM_MAP_REQ \<and> t \<noteq> [] \<and> (\<exists>pd fs. hd t = Ibv_reg_mr pd (Vaddr a) k fs))
          | Msync a k \<Rightarrow> opc = opcode_val RPMEM_COMMIT_REQ \<and> k = n \<and> a = wire_addr (req_of s u)
          | _ \<Rightarrow> False)"

primrec request_calls :: "server_state \<Rightarrow> uid \<Rightarrow> trace \<Rightarrow> bool" where
  "request_calls s u [] \<longleftrightarrow> True"
| "request_calls s u (c # cs) \<longleftrightarrow> request_call s u c (cs @ sv_trace s) \<and> request_calls s u cs"

text \<open>A state reached from \<open>s\<close> by such calls, with the queue pair of the connection unchanged.\<close>

definition confined :: "uid \<Rightarrow> server_state \<Rightarrow> server_state \<Rightarrow> bool" where
  "confined u s s' \<longleftrightarrow>
     (\<exists>cs. sv_trace s' = cs @ sv_trace s \<and> request_calls s u cs) \<and>
     map_option (conn_qp \<circ> unit_conn) (sv_units s' u) = map_option (conn_qp \<circ> unit_conn) (sv_units s u) \<and>
     map_option (conn_pd \<circ> unit_conn) (sv_units s' u) = map_option (conn_pd \<circ> unit_conn) (sv_units s u)"

lemma confined_refl [intro]: "confined u s s"
  by (auto simp: confined_def intro: exI [of _ "[]"])

lemma confined_call:
  assumes "confined u s s1" and "request_call s u c (sv_trace s1)"
  shows "confined u s (set_trace (c # sv_trace s1) s1)"
proof -
  from assms(1) obtain cs where "sv_trace s1 = cs @ sv_trace s" "request_calls s u cs" by (auto simp: confined_def)
  with assms show ?thesis by (auto simp: confined_def intro!: exI [of _ "c # cs"])
qed

lemma confined_upd [simp]:
  "confined u s (upd_res q g s1) = confined u s s1" "confined u s (taken u q s1) = confined u s s1"
  "confined u s (pool_give u q s1) = confined u s s1"
  by (auto simp: confined_def option.map_comp comp_def)

section \<open>The handlers\<close>

text \<open>The members of the request the handlers read.\<close>

lemma ready_request:
  assumes "unit_ready s u"
  obtains un where "sv_units s u = Some un" "req_len (host E) (conn_req (unit_conn un)) = wire_word (req_of s u)"
    "req_addr (host E) (conn_req (unit_conn un)) = wire_addr (req_of s u)"
proof -
  from assms obtain un where "sv_units s u = Some un" "wf_conn (unit_conn un)" by (auto elim: unit_readyE)
  then show thesis by (intro that [of un]) (auto simp: req_of_def wf_conn_def)
qed

lemma post_req_recv_confined:
  assumes "unit_ready s u" and "post_req_recv E u s = Some (err, s1)"
  shows "confined u s s1" and "unit_ready s1 u" and "sv_resources s1 = sv_resources s" and "avail s1 = avail s"
proof -
  from assms(1) obtain un mq ms where un: "sv_units s u = Some un" "conn_req_mr (unit_conn un) = Some mq"
    by (rule unit_readyE)
  let ?c = "recv_call (unit_conn un) Conn_req mq"
  have s1: "s1 = rearmed u ?c s" using assms(2) un by (auto simp: post_req_recv_eq Let_def)
  show "unit_ready s1 u" "sv_resources s1 = sv_resources s" "avail s1 = avail s" using assms(1) by (simp_all add: s1)
  have "request_call s u ?c (sv_trace s)" by (simp add: request_call_def un recv_call_def Let_def)
  then show "confined u s s1" unfolding s1 confined_def
    by (auto simp: un rearmed_def intro!: exI [of _ "[?c]"])
qed

lemma send_rsp_confined:
  assumes c: "confined u s s1" and r: "unit_ready s1 u" and h: "send_rsp E u f ret s1 = Some (ret', s')"
  shows "confined u s s'"
proof -
  from r obtain un1 mq ms where un1: "sv_units s1 u = Some un1" "conn_rsp_mr (unit_conn un1) = Some ms"
    by (rule unit_readyE)
  let ?c = "send_call ((unit_conn un1)\<lparr>conn_rsp := f (conn_rsp (unit_conn un1))\<rparr>) Conn_rsp ms"
  have s': "s' = replied u f ?c s1" using h un1 by (auto simp: send_rsp_eq Let_def)
  from c un1(1) obtain un where "sv_units s u = Some un" "conn_qp (unit_conn un1) = conn_qp (unit_conn un)"
    by (cases "sv_units s u") (auto simp: confined_def)
  then have "request_call s u ?c (sv_trace s1)" by (simp add: request_call_def send_call_def Let_def)
  from confined_call [OF c this] un1(1) show ?thesis by (simp add: s' replied_def confined_def)
qed

text \<open>The requests that only reply, and those that make one system call.\<close>

lemma open_close_confined:
  assumes r: "unit_ready s u"
  shows "rpmem_handle_open E u s = Some (ret, s') \<Longrightarrow> confined u s s'"
    and "rpmem_handle_close E u s = Some (ret, s') \<Longrightarrow> confined u s s'"
proof -
  assume h: "rpmem_handle_open E u s = Some (ret, s')"
  obtain err s1 where p: "post_req_recv E u s = Some (err, s1)"
    using h by (cases "post_req_recv E u s") (auto simp: rpmem_handle_open_def Let_def)
  have "send_rsp E u (pack_open_rsp (host E) (srv_free_size (sv_server s))) (if err \<noteq> 0 then -1 else 0) s1 = Some (ret, s')"
    using h by (simp add: rpmem_handle_open_def send_rsp_def p Let_def)
  with post_req_recv_confined(1,2) [OF r p] show "confined u s s'" by (rule send_rsp_confined)
next
  assume h: "rpmem_handle_close E u s = Some (ret, s')"
  then have "send_rsp E u (pack_close_rsp (host E) 0) 0 s = Some (ret, s')"
    using r by (auto simp: rpmem_handle_close_def send_rsp_def post_rsp_send_def post_simps Let_def elim!: unit_readyE)
  with confined_refl r show "confined u s s'" by (rule send_rsp_confined)
qed

lemma handle_commit_confined:
  assumes r: "unit_ready s u" and h: "rpmem_handle_commit E u s = Some (ret, s')"
    and opc: "wire_opcode (req_of s u) = opcode_val RPMEM_COMMIT_REQ"
  shows "confined u s s'"
proof -
  obtain un where un: "sv_units s u = Some un" "req_len (host E) (conn_req (unit_conn un)) = wire_word (req_of s u)"
    "req_addr (host E) (conn_req (unit_conn un)) = wire_addr (req_of s u)" by (rule ready_request [OF r])
  obtain err s1 where p: "post_req_recv E u s = Some (err, s1)"
    using h un by (cases "post_req_recv E u s") (auto simp: rpmem_handle_commit_def Let_def)
  note c = post_req_recv_confined [OF r p]
  let ?c = "Msync (wire_addr (req_of s u)) (scast (wire_word (req_of s u)))"
  let ?s = "set_trace (?c # sv_trace s1) s1"
  have "request_call s u ?c (sv_trace s1)" using un(1) opc by (simp add: request_call_def Let_def)
  note m = confined_call [OF c(1) this]
  have "(if err \<noteq> 0 then handle_commit_out E u (-1) s1
      else handle_commit_out E u (env_int E (?c # sv_trace s1)) ?s) = Some (ret, s')"
    using h un by (auto simp: rpmem_handle_commit_def p srv_call_eq Let_def split: if_splits)
  then show ?thesis
    using send_rsp_confined [OF c(1,2)] send_rsp_confined [OF m] c(2) by (simp add: handle_out_eq split: if_splits)
qed

lemma handle_unmap_confined:
  assumes r: "unit_ready s u" and h: "rpmem_handle_unmap E u s = Some (ret, s')"
    and opc: "wire_opcode (req_of s u) = opcode_val RPMEM_UNMAP_REQ"
  shows "confined u s s'"
proof -
  obtain un where un: "sv_units s u = Some un" "req_len (host E) (conn_req (unit_conn un)) = wire_word (req_of s u)"
    "req_addr (host E) (conn_req (unit_conn un)) = wire_addr (req_of s u)" by (rule ready_request [OF r])
  obtain err s1 where p: "post_req_recv E u s = Some (err, s1)"
    using h un by (cases "post_req_recv E u s") (auto simp: rpmem_handle_unmap_def Let_def)
  note c = post_req_recv_confined [OF r p]
  show ?thesis
  proof (cases "err = 0")
    case False
    with h un p have "handle_unmap_out E u (-1) s1 = Some (ret, s')" by (simp add: rpmem_handle_unmap_def Let_def)
    then show ?thesis unfolding handle_out_eq by (rule send_rsp_confined [OF c(1,2)])
  next
    case True
    with h un p c(3) obtain q mr where q: "unit_res un = Some q" "res_mr (sv_resources s q) = Some mr"
      by (auto simp: rpmem_handle_unmap_def Let_def bind_eq_Some_conv)
    let ?d = "Ibv_dereg_mr mr" and ?m = "Munmap (wire_addr (req_of s u)) (scast (wire_word (req_of s u)))"
    let ?s2 = "upd_res q (\<lambda>r. r\<lparr>res_map_len := 0, res_addr := 0\<rparr>) (set_trace (?d # sv_trace s1) s1)"
    let ?s3 = "set_trace (?m # sv_trace ?s2) ?s2"
    have rq: "request_call s u ?d t" "request_call s u ?m t" for t
      using un(1) q opc by (simp_all add: request_call_def Let_def)
    have "confined u s ?s2" using confined_call [OF c(1) rq(1)] by simp
    note c3 = confined_call [OF this rq(2)]
    have "\<exists>v. handle_unmap_out E u v ?s3 = Some (ret, s') \<or> handle_unmap_out E u v (pool_give u q ?s3) = Some (ret, s')"
      using h un p True q c(3)
      by (auto simp: rpmem_handle_unmap_def srv_call_eq Let_def split: if_splits)
    then obtain v s4 where "send_rsp E u (\<lambda>m. pack_unmap_rsp (host E) m v) v s4 = Some (ret, s')"
      "s4 = ?s3 \<or> s4 = pool_give u q ?s3"
      unfolding handle_out_eq by blast
    moreover from this(2) c3 c(2) have "confined u s s4" "unit_ready s4 u" by auto
    ultimately show ?thesis by (blast intro: send_rsp_confined)
  qed
qed

lemma handle_map_res_confined:
  assumes c: "confined u s s1" and r: "unit_ready s1 u" and h: "handle_map_res E u len q s1 = Some (ret, s')"
    and opc: "wire_opcode (req_of s u) = opcode_val RPMEM_MAP_REQ" and len: "len = wire_word (req_of s u)"
    and fd: "res_fd (sv_resources s1 q) \<in> (\<lambda>q. res_fd (sv_resources s q)) ` set (avail s)"
  shows "confined u s s'"
proof -
  from r obtain un1 where un1: "sv_units s1 u = Some un1" by (auto elim: unit_readyE)
  from c un1 obtain un where un: "sv_units s u = Some un" "conn_pd (unit_conn un1) = conn_pd (unit_conn un)"
    by (cases "sv_units s u") (auto simp: confined_def)
  let ?n = "scast len :: u64" and ?fd = "res_fd (sv_resources s1 q)"
  let ?f = "Posix_fallocate ?fd ?n" and ?m = "Mmap ?fd ?n MAP_PRIVATE"
  let ?a = "let a = env_ptr E (?m # ?f # sv_trace s1) in if a = MAP_FAILED then NULL else a"
  let ?r = "Ibv_reg_mr (conn_pd (unit_conn un1)) (Vaddr ?a) ?n [IBV_ACCESS_LOCAL_WRITE, IBV_ACCESS_REMOTE_WRITE, IBV_ACCESS_REMOTE_READ]"
  let ?s2 = "set_trace (?m # ?f # sv_trace s1) s1"
  let ?s3 = "upd_res q (\<lambda>r. r\<lparr>res_addr := ?a, res_map_len := len\<rparr>) ?s2"
  let ?s4 = "\<lambda>mr. upd_res q (\<lambda>r. r\<lparr>res_mr := mr\<rparr>) (set_trace (?r # sv_trace ?s3) ?s3)"
  let ?s5 = "\<lambda>mr. set_trace (Munmap ?a ?n # sv_trace (?s4 mr)) (?s4 mr)"
  have rq: "request_call s u ?f t" "request_call s u ?m t" "request_call s u ?r t" "request_call s u (Munmap ?a ?n) (?r # t)" for t
    using un opc len fd by (simp_all add: request_call_def Let_def)
  have "confined u s ?s2" using confined_call [OF confined_call [OF c rq(1)] rq(2)] by (simp add: set_trace_def)
  then have c4: "confined u s (?s4 mr)" for mr using confined_call [of u s ?s3 ?r] rq(3) by simp
  then have c5: "confined u s (?s5 mr)" for mr using confined_call [OF c4, of "Munmap ?a ?n" mr] rq(4) by simp
  have "\<exists>mr k a v. handle_map_out E u k a v (?s4 mr) = Some (ret, s') \<or> handle_map_out E u k a v (?s5 mr) = Some (ret, s')"
    using h un1 unfolding handle_map_res_def
    by (simp add: srv_call_eq Let_def set_trace_def) (auto simp: srv_call_eq set_trace_def split: if_splits option.splits)
  then show ?thesis using send_rsp_confined [OF c4] send_rsp_confined [OF c5] r by (auto simp: handle_out_eq)
qed

lemma handle_map_confined:
  assumes r: "unit_ready s u" and h: "rpmem_handle_map E u s = Some (ret, s')"
    and opc: "wire_opcode (req_of s u) = opcode_val RPMEM_MAP_REQ"
  shows "confined u s s'"
proof -
  obtain un where un: "sv_units s u = Some un" "req_len (host E) (conn_req (unit_conn un)) = wire_word (req_of s u)"
    by (rule ready_request [OF r])
  let ?len = "wire_word (req_of s u)"
  obtain err s1 where p: "post_req_recv E u s = Some (err, s1)"
    using h un by (cases "post_req_recv E u s") (auto simp: rpmem_handle_map_def Let_def)
  note c = post_req_recv_confined [OF r p]
  have out: "confined u s s'" if "handle_map_out E u k a v s1 = Some (ret, s')" for k a v
    using send_rsp_confined [OF c(1,2)] that by (simp add: handle_out_eq)
  show ?thesis
  proof (cases "err = 0 \<and> find_res (sv_resources s) ?len (avail s) \<noteq> None")
    case True
    then obtain q where q: "find_res (sv_resources s) ?len (avail s) = Some q" by blast
    have u1: "sv_units s1 u \<noteq> None" by (rule unit_ready_valid [OF c(2)])
    from q have fd: "res_fd (sv_resources (taken u q s1) q) \<in> (\<lambda>q. res_fd (sv_resources s q)) ` set (avail s)"
      using find_res_in [OF q] c(3) by simp
    have "handle_map_res E u ?len q (taken u q s1) = Some (ret, s')"
      using h un p True q c(3,4) u1 by (auto simp: rpmem_handle_map_def pool_take_eq Let_def)
    then show ?thesis
      by (rule handle_map_res_confined [OF _ _ _ opc refl fd, rotated 2]) (use c in simp_all)
  next
    case False
    have "\<exists>k a v. handle_map_out E u k a v s1 = Some (ret, s')"
      using h un p False c(3,4) by (auto simp: rpmem_handle_map_def pool_take_eq Let_def bind_eq_Some_conv split: if_splits)
    then show ?thesis using out by blast
  qed
qed

text \<open>The dispatcher.\<close>

lemma rcv_completion_confined:
  assumes r: "unit_ready s u" and h: "rpmem_rcv_completion E u s = Some (ret, s')"
  shows "confined u s s'"
  using h handle_map_confined [OF r] handle_unmap_confined [OF r] handle_commit_confined [OF r] open_close_confined [OF r]
  unfolding rcv_completion_eq [OF r] by (auto simp: reply_of_def split: if_splits)

section \<open>Mapped memory\<close>

text \<open>
  The pages that contain a part of an address range, for a page size \<open>ps\<close> of the platform. A
  successful \<^verbatim>\<open>mmap\<close> maps the pages of its range; \<^verbatim>\<open>munmap\<close>,
  when it returns 0, removes all pages that contain a part of the range it is given, whoever mapped
  them, and when it fails it removes nothing.
\<close>

definition pages :: "nat \<Rightarrow> u64 \<Rightarrow> u64 \<Rightarrow> nat set" where
  "pages ps a n = (\<lambda>x. x div ps) ` {unat a ..< unat a + unat n}"

primrec mapped_pages :: "nat \<Rightarrow> env \<Rightarrow> trace \<Rightarrow> nat set" where
  "mapped_pages ps E [] = {}"
| "mapped_pages ps E (c # t) =
     (case c of
        Mmap fd n fl \<Rightarrow>
          if env_ptr E (c # t) = MAP_FAILED then mapped_pages ps E t
          else mapped_pages ps E t \<union> pages ps (env_ptr E (c # t)) n
      | Munmap a n \<Rightarrow>
          if env_int E (c # t) = 0 then mapped_pages ps E t - pages ps a n else mapped_pages ps E t
      | _ \<Rightarrow> mapped_pages ps E t)"

text \<open>
  An unmap request on a connection with a registered resource, whose receive is posted again: the
  registration is removed, then the range of the request is unmapped, and the result of that is the
  answer and decides whether the resource goes back.
\<close>

lemma unmap_request_runs:
  assumes r: "unit_ready s u" and opc: "wire_opcode (req_of s u) = opcode_val RPMEM_UNMAP_REQ"
    and o: "owner s u = Some q" and mr: "res_mr (sv_resources s q) = Some mr" and p: "recv_ok E u s"
  obtains c qp wr s' rc t where
    "t = Munmap (wire_addr (req_of s u)) (scast (wire_word (req_of s u))) # Ibv_dereg_mr mr # Ibv_post_recv qp wr # sv_trace s"
    "rc = env_int E t" "rpmem_rcv_completion E u s = Some (0, s')" "sv_trace s' = c # t" "payload c \<noteq> None"
    "wire_word (rsp_of s' u) = rc" "abs_pool s' = (if rc = 0 then pool_apply (Give q) u (abs_pool s) else abs_pool s)"
    "res_mr (sv_resources s' q) = Some mr"
proof -
  obtain un where un: "sv_units s u = Some un" "req_len (host E) (conn_req (unit_conn un)) = wire_word (req_of s u)"
    "req_addr (host E) (conn_req (unit_conn un)) = wire_addr (req_of s u)" by (rule ready_request [OF r])
  obtain mq where mq: "conn_req_mr (unit_conn un) = Some mq" using r un(1) by (auto elim: unit_readyE)
  have q: "unit_res un = Some q" using o un(1) by (simp add: owner_def)
  obtain qp wr where d: "recv_call (unit_conn un) Conn_req mq = Ibv_post_recv qp wr" by (simp add: recv_call_def)
  let ?t = "Munmap (wire_addr (req_of s u)) (scast (wire_word (req_of s u))) # Ibv_dereg_mr mr # Ibv_post_recv qp wr # sv_trace s"
  have ok: "env_int E (recv_call (unit_conn un) Conn_req mq # sv_trace s) = 0"
    using p un mq by (auto simp: recv_ok_def post_req_recv_eq Let_def split: if_splits)
  obtain ret' s' c where h: "rpmem_handle_unmap E u s = Some (ret', s')"
    "rsp_of s' u = pack_unmap_rsp (host E) (rsp_of s u) (env_int E ?t)"
    "abs_pool s' = (if env_int E ?t = 0 then pool_apply (Give q) u (abs_pool s) else abs_pool s)"
    "res_mr (sv_resources s' q) = Some mr" "payload c \<noteq> None" "sv_trace s' = c # ?t"
    using handle_unmap_returns [OF r un(1) mq q mr un(2) [symmetric] un(3) [symmetric] ok refl] unfolding d by blast
  moreover have "rpmem_rcv_completion E u s = Some (0, s')"
    using h(1) opc unfolding rcv_completion_eq [OF r] by (simp add: reply_of_def)
  moreover have "wire_word (rsp_of s' u) = env_int E ?t" using r by (simp add: h(2))
  ultimately show thesis by (intro that [OF refl refl])
qed

section \<open>Properties\<close>

text \<open>
  C11: a request makes the server call nothing but its share. Whatever a connection sends and the
  platform answers, the calls made while its request is handled are posts on its own queue pair, for a
  map request the allocation, the private mapping and the registration of the requested length of a
  free resource (and the removal of that mapping when the registration fails), for an unmap request the
  removal of the connection's own registration and of the mapping at the requested address, and for a
  commit request the synchronisation of the requested range.
\<close>
theorem request_calls_confined:
  assumes "unit_ready s u" and "rpmem_rcv_completion E u s = Some (ret, s')"
  shows "\<exists>cs. sv_trace s' = cs @ sv_trace s \<and> request_calls s u cs"
  using rcv_completion_confined [OF assms] by (simp add: confined_def)

theorem request_calls_confined_witness:
  "\<exists>s' cs. rpmem_rcv_completion ok_env 1 (demo_state (pack_map_req BE zero_cmd 1024)) = Some (0, s') \<and>
     sv_trace s' = cs \<and> request_calls (demo_state (pack_map_req BE zero_cmd 1024)) 1 cs"
proof -
  let ?m = "pack_map_req BE zero_cmd 1024"
  obtain s' where s': "rpmem_rcv_completion ok_env 1 (demo_state ?m) = Some (0, s')"
    by (rule demo_serves [of ?m]) simp_all
  have "sv_trace (demo_state ?m) = []" by (simp add: demo_state_def)
  with request_calls_confined [OF demo_ready s'] s' show ?thesis by auto
qed

text \<open>
  C36: an unmap request decides alone what is unmapped. When the connection holds a registered
  resource and \<^verbatim>\<open>munmap\<close> returns 0 for the address and the length in the request,
  whatever they are, the answer is 0 and the resource is back in the free list and no longer the
  connection's; the pages that are mapped afterwards are those from before less the pages of the
  range in the request. The address and the length of the resource play no part: pages of its
  mapping outside that range stay mapped for ever, and pages of any other mapping inside it are gone.
\<close>
theorem unmap_trusts_request:
  assumes "unit_ready s u" and "wire_opcode (req_of s u) = opcode_val RPMEM_UNMAP_REQ"
    and "owner s u = Some q" and "res_mr (sv_resources s q) = Some mr" and "recv_ok E u s"
    and "a = wire_addr (req_of s u)" and "n = scast (wire_word (req_of s u))"
    and "\<And>t. env_int E (Munmap a n # t) = 0"
  shows "\<exists>s'. rpmem_rcv_completion E u s = Some (0, s') \<and> wire_word (rsp_of s' u) = 0 \<and>
    owner s' u = None \<and> avail s' = q # avail s \<and>
    mapped_pages ps E (sv_trace s') = mapped_pages ps E (sv_trace s) - pages ps a n"
proof (rule unmap_request_runs [OF assms(1-5)], goal_cases)
  case (1 c qp wr s' rc t)
  have rc: "rc = 0" using 1(1,2) assms(6-8) by simp
  have "mapped_pages ps E (c # t) = mapped_pages ps E t"
    using 1(5) by (cases c) simp_all
  moreover have "mapped_pages ps E t = mapped_pages ps E (sv_trace s) - pages ps a n"
    unfolding 1(1) assms(6,7) [symmetric] using assms(8) by simp
  ultimately show ?case using 1(3,4,6,7) rc by (auto simp: abs_pool_def)
qed

text \<open>A connection with a mapped resource.\<close>

definition mapped_state :: "bytes \<Rightarrow> server_state" where
  "mapped_state m = set_trace [Mmap 3 512 MAP_PRIVATE]
     (upd_res 0 (\<lambda>r. r\<lparr>res_addr := 65536, res_map_len := 512, res_mr := Some ok_mr\<rparr>) (taken 1 0 (demo_state m)))"

lemma mapped_state_simps [simp]:
  "sv_units (mapped_state m) 1 = Some \<lparr>unit_conn = demo_conn m, unit_res = Some 0\<rparr>"
  "res_mr (sv_resources (mapped_state m) 0) = Some ok_mr" "req_of (mapped_state m) 1 = m"
  "owner (mapped_state m) 1 = Some 0" "sv_trace (mapped_state m) = [Mmap 3 512 MAP_PRIVATE]"
  by (simp_all add: mapped_state_def demo_state_def req_of_def demo_conn_def owner_def)

text \<open>
  The same on a server that has made another mapping before, on a page of its own; the request will be for that
  page.
\<close>

definition two_mappings :: "bytes \<Rightarrow> server_state" where
  "two_mappings m = set_trace [Mmap 3 512 MAP_PRIVATE, Mmap 4 512 MAP_PRIVATE] (mapped_state m)"

definition two_env :: env where
  "two_env = ok_env\<lparr>env_ptr := (\<lambda>t. if length t = 1 then 8192 else 65536)\<rparr>"

lemma two_pages: "mapped_pages 4096 two_env (sv_trace (two_mappings m)) = {2, 16}" "pages 4096 8192 512 = {2}"
proof -
  have "(\<lambda>x. x div 4096) ` {k * 4096 ..< k * 4096 + 512} = {k}" for k :: nat
  proof (rule set_eqI, rule iffI)
    fix x assume "x \<in> (\<lambda>x. x div 4096) ` {k * 4096 ..< k * 4096 + 512}"
    then obtain y where "x = y div 4096" "k * 4096 \<le> y" "y < k * 4096 + 512" by auto
    then show "x \<in> {k}" by auto
  qed (auto intro!: image_eqI [of _ _ "k * 4096"])
  from this [of 2] this [of 16] show "mapped_pages 4096 two_env (sv_trace (two_mappings m)) = {2, 16}"
    "pages 4096 8192 512 = {2}"
    by (simp_all add: two_mappings_def two_env_def MAP_FAILED_def pages_def)
qed

theorem unmap_trusts_request_witness:
  "\<exists>s'. rpmem_rcv_completion two_env 1 (two_mappings (pack_unmap_req BE zero_cmd 512 8192)) = Some (0, s') \<and>
     res_addr (sv_resources (two_mappings (pack_unmap_req BE zero_cmd 512 8192)) 0) = 65536 \<and>
     owner s' 1 = None \<and> avail s' = [0] \<and> mapped_pages 4096 two_env (sv_trace s') = {16}"
proof -
  let ?m = "pack_unmap_req BE zero_cmd 512 8192"
  let ?s = "two_mappings ?m"
  have r: "unit_ready ?s 1" by (simp add: two_mappings_def mapped_state_def demo_ready)
  have z: "env_int two_env t = 0" for t by (simp add: two_env_def ok_env_def)
  have av: "avail ?s = []" by (simp add: two_mappings_def mapped_state_def demo_avail)
  have a: "res_addr (sv_resources ?s 0) = 65536" "res_mr (sv_resources ?s 0) = Some ok_mr"
    "owner ?s 1 = Some 0" "req_of ?s 1 = ?m"
    by (simp_all add: two_mappings_def mapped_state_def demo_state_def owner_def req_of_def demo_conn_def)
  have p: "recv_ok two_env 1 ?s"
    by (simp add: recv_ok_def post_req_recv_eq two_mappings_def demo_conn_def z Let_def)
  have w: "8192 = wire_addr (req_of ?s 1)" "512 = scast (wire_word (req_of ?s 1))" "wire_opcode (req_of ?s 1) = opcode_val RPMEM_UNMAP_REQ"
    by (simp_all add: a)
  obtain s' where s': "rpmem_rcv_completion two_env 1 ?s = Some (0, s')" "owner s' 1 = None" "avail s' = 0 # avail ?s"
    "mapped_pages 4096 two_env (sv_trace s') = mapped_pages 4096 two_env (sv_trace ?s) - pages 4096 8192 512"
    using unmap_trusts_request [OF r w(3) a(3,2) p w(1,2) z, of 4096] by blast
  have "{2, 16} - {2} = {16 :: nat}" by auto
  with s' av a(1) show ?thesis by (simp add: two_pages)
qed

end
