(* ===== verification/Lost_Resources.thy ===== *)
theory Lost_Resources
  imports Sessions Server_Main Server_Calls
begin

text \<open>
  What becomes of a resource whose client goes away. The close handler only replies, and the
  connection manager ignores the disconnect event, so a client that closes, or is cut off, without
  unmapping leaves its resource with the connection. The server was started with one resource and
  has nothing left for anyone else from then on.
\<close>

section \<open>The holder stays the holder\<close>

lemma owner_valid: "owner s u = Some q \<Longrightarrow> sv_units s u \<noteq> None"
  by (auto simp: owner_def Option.bind_eq_Some_conv)

lemma holder_is_only:
  assumes "one_holder s" and "owner s u = Some q"
  shows "avail s = []" and "v \<noteq> u \<Longrightarrow> owner s v = None" and "srv_free_size (sv_server s) = 0"
proof -
  from assms obtain w where w: "avail s = []" "srv_free_size (sv_server s) = 0" "\<And>x. x \<noteq> w \<Longrightarrow> owner s x = None"
    by (auto simp: one_holder_def)
  with assms(2) have "w = u" by fastforce
  with w show "avail s = []" "v \<noteq> u \<Longrightarrow> owner s v = None" "srv_free_size (sv_server s) = 0" by simp_all
qed

text \<open>As long as the holder itself sends nothing, no step of the server takes its resource away.\<close>

lemma others_keep_holder:
  assumes s: "server_inv s" "single_server s" and o: "owner s u = Some q" and h: "others E u s s'"
  shows "owner s' u = Some q" and "one_holder s'"
proof -
  note v = owner_valid [OF o]
  note k = others_keep [OF h s(1) v]
  from undisturbed_owner [of u s s'] k o show "owner s' u = Some q" by simp
  have "single_server s'" using others_reach [OF h] s by (rule single_server_reach)
  with k show "one_holder s'" by (simp add: single_one_holder server_inv_def)
qed

section \<open>Closing\<close>

lemma handle_close_calls:
  assumes "unit_ready s u" and "rpmem_handle_close E u s = Some (ret, s')"
  shows "\<exists>qp wr buf. sv_trace s' = Ibv_post_send qp wr buf # sv_trace s"
  using assms
  by (auto simp: rpmem_handle_close_def post_rsp_send_def post_simps send_call_def Let_def elim!: unit_readyE)

text \<open>A close request from the holder, seen in a state the server can be in when it arrives.\<close>

lemma close_keeps_holder:
  assumes s: "server_inv s" "single_server s" and o: "owner s u = Some q"
    and m: "wf_cmd m" "wire_opcode m = opcode_val RPMEM_CLOSE_REQ"
    and h: "rpmem_rcv_completion E u (arrive u m s) = Some (ret, s')"
  shows "owner s' u = Some q" and "server_inv s'" and "single_server s'"
    and "\<exists>qp wr buf. sv_trace s' = Ibv_post_send qp wr buf # sv_trace s"
proof -
  note v = owner_valid [OF o]
  have r: "unit_ready (arrive u m s) u" using s(1) v by (simp add: server_inv_def arrive_ready)
  have rq: "req_of (arrive u m s) u = m" using s(1) v m(1) by (simp add: server_inv_def arrive_req)
  obtain ret1 where c: "rpmem_handle_close E u (arrive u m s) = Some (ret1, s')"
    using h m(2) unfolding rcv_completion_eq [OF r] rq by (auto simp: reply_of_def)
  have a: "abs_pool s' = abs_pool (arrive u m s)" by (rule skip_handlers_abs(2) [OF r c])
  then show "owner s' u = Some q" using o by (simp add: abs_pool_def)
  show "server_inv s'" by (rule arrive_request_inv(1) [OF s(1) v h])
  show "single_server s'" using s(2) a open_close_writes(2) [OF r c] rcv_completion_result(2) [OF r h]
    by (simp add: single_server_def abs_pool_def isolated_def)
  show "\<exists>qp wr buf. sv_trace s' = Ibv_post_send qp wr buf # sv_trace s" using handle_close_calls [OF r c] by simp
qed

section \<open>Mappings that could not be registered or removed\<close>

text \<open>An unmap request that arrives at a connection with a resource.\<close>

lemma unmap_arrives:
  assumes inv: "server_inv s" and o: "owner s u = Some q" and m: "wf_cmd m" "wire_opcode m = opcode_val RPMEM_UNMAP_REQ"
  shows "unit_ready (arrive u m s) u" and "owner (arrive u m s) u = Some q"
    and "rpmem_rcv_completion E u (arrive u m s) = Some (ret, s') \<Longrightarrow> \<exists>r. rpmem_handle_unmap E u (arrive u m s) = Some (r, s')"
    and "rpmem_rcv_completion E u (arrive u m s) = None \<longleftrightarrow> unmap_crash E u (arrive u m s)"
proof -
  have v: "unit_ready s u" using owner_valid [OF o] inv by (simp add: server_inv_def)
  then show r: "unit_ready (arrive u m s) u" by (rule arrive_ready)
  have rq: "req_of (arrive u m s) u = m" using v m(1) by (rule arrive_req)
  show "owner (arrive u m s) u = Some q" using o by simp
  show "rpmem_rcv_completion E u (arrive u m s) = Some (ret, s') \<Longrightarrow> \<exists>r. rpmem_handle_unmap E u (arrive u m s) = Some (r, s')"
    using m(2) unfolding rcv_completion_eq [OF r] rq by (auto simp: reply_of_def)
  show "rpmem_rcv_completion E u (arrive u m s) = None \<longleftrightarrow> unmap_crash E u (arrive u m s)"
    using m(2) unfolding rcv_completion_None [OF r] request_crash_def rq by simp
qed


section \<open>Properties\<close>

text \<open>
  C35: a client that closes without unmapping takes the resource with it. Whatever state the server
  has reached since it started to listen, a close request of the connection that holds the resource
  is answered (with one send, and no receive for a further request), and in every state the server
  reaches afterwards, whatever its other connections ask for and whoever connects, the closed
  connection still holds the resource, no other connection holds one, no request for any length
  finds a free one and the size an open reports is 0; a disconnect event of the connection manager
  changes nothing of it.
\<close>
theorem close_loses_resource:
  assumes "main_listen E self argc optind opts inp res t = Some (Listening s0 inp')" and "srv_reach E s0 s"
    and "owner s u = Some q" and "wf_cmd m" and "wire_opcode m = opcode_val RPMEM_CLOSE_REQ"
    and "rpmem_rcv_completion E u (arrive u m s) = Some (ret, s1)" and "others E u s1 s2"
  shows "(\<exists>qp wr buf. sv_trace s1 = Ibv_post_send qp wr buf # sv_trace s) \<and>
    owner s2 u = Some q \<and> (\<forall>v. v \<noteq> u \<longrightarrow> owner s2 v = None) \<and> srv_free_size (sv_server s2) = 0 \<and>
    (\<forall>len. find_res (sv_resources s2) len (avail s2) = None) \<and>
    (\<forall>ev. ev_event ev = RDMA_CM_EVENT_DISCONNECTED \<longrightarrow> rpmem_server_cma_handler E ev s2 = Some (0, s2))"
proof -
  note l = fresh_server_inv [OF listening_fresh(1) [OF assms(1)]]
  note i = srv_reach_inv [OF assms(2) l(1)] single_server_reach [OF assms(2) l]
  note c = close_keeps_holder [OF i assms(3-6)]
  note k = others_keep_holder [OF c(2,3,1) assms(7)]
  note only = holder_is_only [OF k(2,1)]
  have "find_res (sv_resources s2) len (avail s2) = None" for len by (simp add: only(1))
  moreover have "rpmem_server_cma_handler E ev s2 = Some (0, s2)" if "ev_event ev = RDMA_CM_EVENT_DISCONNECTED" for ev
    using that by (simp add: rpmem_server_cma_handler_def)
  ultimately show ?thesis using c(4) k(1) only(2,3) by blast
qed

text \<open>
  A connection that could not be given a mapping cannot return the resource. When a map request takes
  a resource whose registration fails, then whatever the other connections do meanwhile, the next unmap
  request of the connection that the server can receive makes it dereference a null pointer.
\<close>
theorem unregistered_resource_crashes:
  assumes "server_inv s" and "sv_units s u \<noteq> None" and "wf_cmd m" and "rpmem_rcv_completion E u (arrive u m s) = Some (ret, s1)"
    and "owner s1 u = Some q" and "res_mr (sv_resources s1 q) = None" and "others E u s1 s2"
    and "wf_cmd m'" and "wire_opcode m' = opcode_val RPMEM_UNMAP_REQ" and "recv_ok E u (arrive u m' s2)"
  shows "rpmem_rcv_completion E u (arrive u m' s2) = None"
proof -
  note i1 = arrive_request_inv(1) [OF assms(1,2,4)]
  have k: "server_inv s2" "undisturbed u s1 s2" using others_keep [OF assms(7) i1 owner_valid [OF assms(5)]] by simp_all
  have o: "owner s2 u = Some q" "res_mr (sv_resources s2 q) = None"
    using k(2) undisturbed_owner [OF k(2)] assms(5,6) by (simp_all add: undisturbed_def)
  show ?thesis using unmap_arrives(4) [OF k(1) o(1) assms(8,9)] assms(10) o by (simp add: unmap_crash_def)
qed







text \<open>A server on a platform where every call succeeds and every message is a map request.\<close>

definition map_env :: env where
  "map_env = ok_env\<lparr>env_inbox := (\<lambda>_. Some (pack_map_req LE zero_cmd 1024))\<rparr>"

lemma map_env_simps [simp]:
  "host map_env = LE" "env_int map_env t = 0" "env_ptr map_env t = 65536" "env_mr map_env t = Some ok_mr"
  "env_inbox map_env t = Some (pack_map_req LE zero_cmd 1024)"
  by (simp_all add: map_env_def ok_env_def)

lemma map_env_listens:
  obtains s inp where "main_listen map_env 4096 7 7 demo_opts (stray_args 99) demo_res [] = Some (Listening s inp)"
    "int_size (sv_resources s 0) = 8192"
proof -
  have "\<exists>s inp. main_listen map_env 4096 7 7 demo_opts (stray_args 99) demo_res [] = Some (Listening s inp) \<and>
      int_size (sv_resources s 0) = 8192"
    by (simp add: main_eval map_env_def ok_env_def int_size_def)
  then show thesis using that by blast
qed

lemma map_env_connects:
  obtains s' where "rpmem_connect_request_handler map_env ev s = Some s'" "sv_units s' 65536 \<noteq> None"
proof -
  have "\<exists>s'. rpmem_connect_request_handler map_env ev s = Some s' \<and> sv_units s' 65536 \<noteq> None"
    by (simp add: rpmem_connect_request_handler_def rpmem_conn_init_def rpmem_create_qp_def call_defs ci_defs
        srv_call_eq post_req_recv_def post_simps upd_server_def Let_def)
  then show thesis using that by blast
qed

lemma map_env_maps:
  assumes inv: "server_inv s" and u: "sv_units s u \<noteq> None" and a: "avail s = [0]" and z: "int_size (sv_resources s 0) = 8192"
  obtains s' where "srv_step map_env s s'" "owner s' u = Some 0"
proof -
  let ?wc = "\<lparr>wc_status = IBV_WC_SUCCESS, wc_opcode = IBV_WC_RECV\<rparr>" and ?m = "pack_map_req LE zero_cmd 1024"
  let ?s = "arrive u ?m s"
  have d: "deliver map_env ?wc u s = ?s" by (simp add: deliver_def arrive_def)
  have r: "unit_ready ?s u" using inv u by (simp add: server_inv_def arrive_ready)
  have rq: "req_of ?s u = ?m" using inv u by (simp add: server_inv_def arrive_req)
  from r obtain un mq ms where un: "sv_units ?s u = Some un" "wf_conn (unit_conn un)" "conn_req_mr (unit_conn un) = Some mq"
    by (rule unit_readyE)
  have len: "1024 = req_len (host map_env) (conn_req (unit_conn un))"
    using rq un(1,2) by (auto simp: req_of_def)
  have fr: "find_res (sv_resources ?s) 1024 (avail ?s) = Some 0" using a z by simp
  have g: "map_granted map_env (unit_conn un) (res_fd (sv_resources ?s 0)) 1024 65536 ok_mr
      (recv_call (unit_conn un) Conn_req mq) (sv_trace ?s)"
    by (simp add: map_granted_def MAP_FAILED_def Let_def)
  obtain ret s' where h: "rpmem_handle_map map_env u ?s = Some (ret, s')"
    "abs_pool s' = pool_apply (Take 0) u (abs_pool ?s)"
    using handle_map_grants [OF r un(1,3) len fr g] by auto
  then have "rpmem_rcv_completion map_env u ?s = Some (0, s')"
    unfolding rcv_completion_eq [OF r] rq by (simp add: reply_of_def)
  then have "server_handle_wc map_env ?wc u (deliver map_env ?wc u s) = Some s'"
    by (simp add: d server_handle_wc_def)
  then have "srv_step map_env s s'" using u by (rule srv_step.completion)
  then show thesis by (rule that) (use h(2) in \<open>simp add: abs_pool_def\<close>)
qed

theorem close_loses_resource_witness:
  "\<exists>s0 s s1 inp. main_listen map_env 4096 7 7 demo_opts (stray_args 99) demo_res [] = Some (Listening s0 inp) \<and>
     srv_reach map_env s0 s \<and> owner s 65536 = Some 0 \<and>
     rpmem_rcv_completion map_env 65536 (arrive 65536 (pack_close_req LE zero_cmd) s) = Some (0, s1) \<and>
     owner s1 65536 = Some 0 \<and> (\<forall>v. v \<noteq> 65536 \<longrightarrow> owner s1 v = None) \<and> srv_free_size (sv_server s1) = 0"
proof -
  let ?ev = "\<lparr>ev_id = 9, ev_event = RDMA_CM_EVENT_CONNECT_REQUEST\<rparr>" and ?m = "pack_close_req LE zero_cmd"
  obtain s0 inp where s0: "main_listen map_env 4096 7 7 demo_opts (stray_args 99) demo_res [] = Some (Listening s0 inp)"
    and z: "int_size (sv_resources s0 0) = 8192" by (rule map_env_listens)
  note f = listening_fresh(1) [OF s0]
  obtain sc where sc: "rpmem_connect_request_handler map_env ?ev s0 = Some sc" "sv_units sc 65536 \<noteq> None"
    by (rule map_env_connects)
  have n: "sv_units s0 (env_ptr map_env (Calloc_struct Rpmem_server_unit # sv_trace s0)) = None"
    using f by (simp add: fresh_server_def)
  note e = connect_handler_effect [OF sc(1)]
  have rc: "srv_reach map_env s0 sc" by (rule srv_reach_step, rule srv_step.connect [OF n sc(1)])
  have "avail sc = [0]" using connect_effect_abs [OF e n] f by (simp add: abs_pool_def fresh_server_def)
  moreover have "int_size (sv_resources sc 0) = 8192" using e z by (simp add: connect_effect_def)
  ultimately obtain s where s: "srv_step map_env sc s" "owner s 65536 = Some 0"
    by (rule map_env_maps [OF fresh_reach(1) [OF f rc] sc(2)])
  have rs: "srv_reach map_env s0 s" using rc s(1) by (rule srv_reach.step)
  have r: "unit_ready (arrive 65536 ?m s) 65536" "req_of (arrive 65536 ?m s) 65536 = ?m"
    using fresh_reach(1) [OF f rs] owner_valid [OF s(2)] by (simp_all add: server_inv_def arrive_ready arrive_req)
  obtain ret s1 where "rpmem_handle_close map_env 65536 (arrive 65536 ?m s) = Some (ret, s1)"
    using handle_close_serves [OF r(1)] by blast
  then have c: "rpmem_rcv_completion map_env 65536 (arrive 65536 ?m s) = Some (0, s1)"
    unfolding rcv_completion_eq [OF r(1)] r(2) by (simp add: reply_of_def)
  from close_loses_resource [OF s0 rs s(2) _ _ c others.none] s0 rs s(2) c show ?thesis by auto
qed

end
