(* ===== verification/Client_Semaphores.thy ===== *)
theory Client_Semaphores
  imports Example_Clients
begin

text \<open>
  The command semaphore of a file. The completion thread posts it for every response and every
  finished read it polls, the calls of the library wait on it once for every request and every read
  they have handed to the device. The count therefore always is the number of completions polled less
  the number of requests and reads accepted, and a call that returns has waited for its own response.
\<close>

section \<open>Counting\<close>

definition wakes :: "ibv_wc \<Rightarrow> bool" where
  "wakes wc \<longleftrightarrow> wc_status wc = IBV_WC_SUCCESS \<and> wc_opcode wc \<in> {IBV_WC_RECV, IBV_WC_RDMA_READ}"

text \<open>
  The completions of responses and reads that the last call of a history, a poll of the queue, has
  returned, and whether it was a request or read the device accepted on the queue pair; a write is
  not waited for. Then both over the whole history.
\<close>

definition woken :: "env \<Rightarrow> ptr \<Rightarrow> trace \<Rightarrow> nat" where
  "woken E cq t =
     (case t of
        Ibv_poll_cq q _ # _ \<Rightarrow> if q = cq then length (filter wakes (map (env_wc E t) [0..<unat (env_int E t)])) else 0
      | _ \<Rightarrow> 0)"

definition accepted :: "env \<Rightarrow> ptr \<Rightarrow> trace \<Rightarrow> nat" where
  "accepted E qp t =
     (case t of
        Ibv_post_send q wr _ # _ \<Rightarrow>
          if q = qp \<and> swr_opcode wr \<in> {IBV_WR_SEND, IBV_WR_RDMA_READ} \<and> env_int E t = 0 then 1 else 0
      | _ \<Rightarrow> 0)"

primrec reported :: "env \<Rightarrow> ptr \<Rightarrow> trace \<Rightarrow> nat" where
  "reported E cq [] = 0"
| "reported E cq (c # t) = woken E cq (c # t) + reported E cq t"

primrec asked :: "env \<Rightarrow> ptr \<Rightarrow> trace \<Rightarrow> nat" where
  "asked E qp [] = 0"
| "asked E qp (c # t) = accepted E qp (c # t) + asked E qp t"

lemmas count_defs = woken_def accepted_def

definition balanced :: "env \<Rightarrow> priv_rpmem_file \<Rightarrow> trace \<Rightarrow> bool" where
  "balanced E f t \<longleftrightarrow>
     pf_sem_command f + asked E (conn_qp (pf_conn f)) t = reported E (conn_cq (pf_conn f)) t"

text \<open>The balance depends on the count and the two handles only.\<close>

definition same_handles :: "priv_rpmem_file \<Rightarrow> priv_rpmem_file \<Rightarrow> bool" where
  "same_handles f f' \<longleftrightarrow> conn_qp (pf_conn f') = conn_qp (pf_conn f) \<and> conn_cq (pf_conn f') = conn_cq (pf_conn f)"

lemma same_file_handles: "same_file f f' \<Longrightarrow> same_handles f f'"
  by (simp add: same_file_def same_handles_def)

lemma balanced_frame:
  assumes "balanced E f t" and "pf_sem_command f' = pf_sem_command f" and "same_handles f f'"
    and "\<And>q. asked E q t' = asked E q t" and "\<And>q. reported E q t' = reported E q t"
  shows "balanced E f' t'"
  using assms by (simp add: balanced_def same_handles_def)

lemma count_posts [simp]:
  "accepted E q (recv_call c cmd mr # t) = 0" "woken E q (recv_call c cmd mr # t) = 0"
  "woken E q (send_call c cmd mr # t) = 0" "woken E q (rdma_call c rk lk ra la n opc # t) = 0"
  "accepted E (conn_qp c) (send_call c cmd mr # t) = (if env_int E (send_call c cmd mr # t) = 0 then 1 else 0)"
  "accepted E (conn_qp c) (rdma_call c rk lk ra la n IBV_WR_RDMA_READ # t) =
     (if env_int E (rdma_call c rk lk ra la n IBV_WR_RDMA_READ # t) = 0 then 1 else 0)"
  "accepted E q (rdma_call c rk lk ra la n IBV_WR_RDMA_WRITE # t) = 0"
  by (simp_all add: recv_call_def send_call_def rdma_call_def count_defs)

section \<open>The completion thread\<close>

text \<open>What the thread adds to the count is what its polls reported.\<close>

definition counts_up :: "env \<Rightarrow> priv_rpmem_file \<Rightarrow> trace \<Rightarrow> priv_rpmem_file \<Rightarrow> trace \<Rightarrow> bool" where
  "counts_up E f t f' t' \<longleftrightarrow>
     same_handles f f' \<and> (\<forall>q. asked E q t' = asked E q t) \<and>
     pf_sem_command f' + reported E (conn_cq (pf_conn f)) t = pf_sem_command f + reported E (conn_cq (pf_conn f)) t'"

lemma counts_up_refl: "counts_up E f t f t"
  by (simp add: counts_up_def same_handles_def)

lemma counts_up_trans: "counts_up E f t f' t' \<Longrightarrow> counts_up E f' t' f'' t'' \<Longrightarrow> counts_up E f t f'' t''"
  by (auto simp: counts_up_def same_handles_def)

lemma counts_up_balanced: "counts_up E f t f' t' \<Longrightarrow> balanced E f t \<Longrightarrow> balanced E f' t'"
  by (auto simp: counts_up_def same_handles_def balanced_def)

lemma handle_wc_sem:
  "pf_sem_command (client_handle_wc wc (client_deliver E t wc f)) = pf_sem_command f + (if wakes wc then 1 else 0)"
  by (auto simp: client_handle_wc_def client_deliver_def wakes_def upd_file_defs split: option.split ibv_wc_opcode.split)

lemma handle_wcs_sem: "pf_sem_command (wcs_done E t wcs f) = pf_sem_command f + length (filter wakes wcs)"
  unfolding wcs_done_def by (induction wcs arbitrary: f) (simp_all add: handle_wc_sem)

lemma poll_counts_up:
  assumes "c = Ibv_poll_cq (conn_cq (pf_conn f)) 16"
  shows "counts_up E f t (wcs_done E (c # t) (map (env_wc E (c # t)) [0..<unat (env_int E (c # t))]) f) (c # t)"
proof -
  let ?f = "wcs_done E (c # t) (map (env_wc E (c # t)) [0..<unat (env_int E (c # t))]) f"
  have "same_handles f ?f" using handle_wcs_ok by (auto simp: cq_ok_def intro: same_file_handles)
  then show ?thesis by (simp add: counts_up_def handle_wcs_sem assms count_defs)
qed

interpretation cq_count: completion_thread counts_up
proof (unfold_locales, goal_cases)
  case (3 c f E t)
  then show ?case by (rule poll_counts_up)
qed (auto simp: counts_up_def same_handles_def count_defs)

section \<open>Waiting and exchanging messages\<close>

text \<open>A wait takes one off the balance; a request the device accepts has added one before.\<close>

definition owes :: "env \<Rightarrow> priv_rpmem_file \<Rightarrow> trace \<Rightarrow> bool" where
  "owes E f t \<longleftrightarrow>
     pf_sem_command f + asked E (conn_qp (pf_conn f)) t = reported E (conn_cq (pf_conn f)) t + 1"

lemma wait_command_balances:
  assumes "wait_command E p f t = Some (f', t')" and "owes E f t"
  shows "balanced E f' t'" and "same_handles f f'"
proof -
  let ?t = "Sem_wait_command p # t"
  obtain b f1 t1 where r: "run_cq_thread E f ?t = Some (b, f1, t1)"
    using assms(1) by (cases "run_cq_thread E f ?t") (auto simp: wait_command_def)
  have up: "counts_up E f ?t f1 t1"
    using r by (cases "pf_cq_running f") (auto simp: run_cq_thread_def counts_up_refl intro: cq_count.runs_ok)
  have f': "f' = f1\<lparr>pf_cq_running := b, pf_sem_command := pf_sem_command f1 - 1\<rparr>" "t' = t1" "pf_sem_command f1 \<noteq> 0"
    using assms(1) r by (auto simp: wait_command_def Let_def split: if_splits)
  with up assms(2) show "balanced E f' t'" "same_handles f f'"
    by (auto simp: counts_up_def same_handles_def owes_def balanced_def count_defs)
qed

lemma post_rsp_recv_balanced:
  assumes "post_rsp_recv E f t = Some (ret, f', t')" and "balanced E f t"
  shows "balanced E f' t'" and "same_handles f f'"
proof -
  have sh: "same_handles f f'" using post_rsp_recv_ok(1) [OF assms(1)] by (simp add: same_handles_def)
  moreover have "pf_sem_command f' = pf_sem_command f" using post_rsp_recv_ok(1) [OF assms(1)] by simp
  moreover have "\<exists>c cmd mr. t' = recv_call c cmd mr # t"
    using assms(1) by (cases "conn_rsp_mr (pf_conn f)") (auto simp: post_rsp_recv_def post_simps)
  ultimately show "balanced E f' t'" "same_handles f f'" using assms(2) by (auto intro: balanced_frame)
qed

lemma send_req_owes:
  assumes "send_req E g f t = Some (ret, f', t')" and "balanced E f t"
  shows "if ret = 0 then owes E f' t' else balanced E f' t'" and "same_handles f f'"
proof -
  obtain mr where mr: "conn_req_mr (pf_conn f) = Some mr"
    using send_req_ok(4) [OF assms(1)] by blast
  let ?c = "(pf_conn f)\<lparr>conn_req := g (conn_req (pf_conn f))\<rparr>"
  have eq: "send_req E g f t = Some (if env_int E (send_call ?c Conn_req mr # t) \<noteq> 0 then -1 else 0,
      f\<lparr>pf_conn := ?c\<rparr>, send_call ?c Conn_req mr # t)"
    using mr by (simp add: send_req_def post_simps Let_def)
  have n: "accepted E (conn_qp (pf_conn f)) (send_call ?c Conn_req mr # t) =
      (if env_int E (send_call ?c Conn_req mr # t) = 0 then 1 else 0)"
    using count_posts(5) [of E ?c Conn_req mr t] by simp
  show "same_handles f f'" using assms(1) unfolding eq by (auto simp: same_handles_def)
  show "if ret = 0 then owes E f' t' else balanced E f' t'"
    using assms unfolding eq by (auto simp: balanced_def owes_def n split: if_splits)
qed

lemma same_handles_trans [trans]: "same_handles f f' \<Longrightarrow> same_handles f' f'' \<Longrightarrow> same_handles f f''"
  by (simp add: same_handles_def)

lemma exchange_balanced:
  assumes "exchange E p g f t = Some (ret, f', t')" and b: "balanced E f t"
  shows "balanced E f' t' \<and> same_handles f f'"
  using assms(1)
proof (cases rule: exchange_cases)
  case no_recv
  with post_rsp_recv_balanced [OF no_recv(2) b] show ?thesis by simp
next
  case (no_send f1 t1)
  note b1 = post_rsp_recv_balanced [OF no_send(2) b]
  from send_req_owes [OF no_send(3) b1(1)] b1(2) no_send(1) show ?thesis by (auto intro: same_handles_trans)
next
  case (waited f1 t1 f2 t2)
  note b1 = post_rsp_recv_balanced [OF waited(2) b]
  note b2 = send_req_owes [OF waited(3) b1(1)]
  from wait_command_balances [OF waited(4)] b2 b1(2) show ?thesis by (auto intro: same_handles_trans)
qed

text \<open>Whether the wait ends is whether the polls have caught up with the requests.\<close>

lemma wait_command_iff:
  assumes o: "owes E f t" and r: "run_cq_thread E f (Sem_wait_command p # t) = Some (b, f1, t1)"
  shows "wait_command E p f t = None \<longleftrightarrow> reported E (conn_cq (pf_conn f)) t1 < asked E (conn_qp (pf_conn f)) t"
proof -
  have "counts_up E f (Sem_wait_command p # t) f1 t1"
    using r by (cases "pf_cq_running f") (auto simp: run_cq_thread_def counts_up_refl intro: cq_count.runs_ok)
  then have "pf_sem_command f1 + reported E (conn_cq (pf_conn f)) t = pf_sem_command f + reported E (conn_cq (pf_conn f)) t1"
    by (simp add: counts_up_def count_defs)
  with o have "pf_sem_command f1 = 0 \<longleftrightarrow> reported E (conn_cq (pf_conn f)) t1 < asked E (conn_qp (pf_conn f)) t"
    by (auto simp: owes_def)
  then show ?thesis using r by (simp add: wait_command_def Let_def)
qed

section \<open>Queues of other files\<close>

text \<open>The calls made for a file only count on its own queue and queue pair.\<close>

definition own_counts :: "env \<Rightarrow> priv_rpmem_file \<Rightarrow> trace \<Rightarrow> trace \<Rightarrow> bool" where
  "own_counts E f t t' \<longleftrightarrow>
     (\<forall>q. q \<noteq> conn_cq (pf_conn f) \<longrightarrow> reported E q t' = reported E q t) \<and>
     (\<forall>q. q \<noteq> conn_qp (pf_conn f) \<longrightarrow> asked E q t' = asked E q t)"

definition own_thread :: "env \<Rightarrow> priv_rpmem_file \<Rightarrow> trace \<Rightarrow> priv_rpmem_file \<Rightarrow> trace \<Rightarrow> bool" where
  "own_thread E f t f' t' \<longleftrightarrow> same_handles f f' \<and> own_counts E f t t'"

lemma own_thread_trans: "own_thread E f t f' t' \<Longrightarrow> own_thread E f' t' f'' t'' \<Longrightarrow> own_thread E f t f'' t''"
  by (simp add: own_thread_def own_counts_def same_handles_def)

interpretation cq_own: completion_thread own_thread
proof (unfold_locales, goal_cases)
  case (2 E f t f' t' f'' t'')
  then show ?case by (rule own_thread_trans)
next
  case (3 c f E t)
  then show ?case using poll_counts_up [OF 3, of E t]
    by (simp add: own_thread_def own_counts_def counts_up_def count_defs)
qed (simp_all add: own_thread_def own_counts_def same_handles_def count_defs)

lemma wait_command_own:
  assumes "wait_command E p f t = Some (f', t')"
  shows "own_thread E f t f' t'"
proof -
  let ?t = "Sem_wait_command p # t"
  obtain b f1 t1 where r: "run_cq_thread E f ?t = Some (b, f1, t1)"
    and f': "f' = f1\<lparr>pf_cq_running := b, pf_sem_command := pf_sem_command f1 - 1\<rparr>" "t' = t1"
    using assms by (cases "run_cq_thread E f ?t") (auto simp: wait_command_def Let_def split: if_splits)
  have "own_thread E f ?t f1 t1"
    using r by (cases "pf_cq_running f") (auto simp: run_cq_thread_def cq_own.none intro: cq_own.runs_ok)
  then show ?thesis by (simp add: f' own_thread_def own_counts_def same_handles_def count_defs)
qed

lemma count_posts_other [simp]:
  "q \<noteq> conn_qp c \<Longrightarrow> accepted E q (send_call c cmd mr # t) = 0"
  "q \<noteq> conn_qp c \<Longrightarrow> accepted E q (rdma_call c rk lk ra la n opc # t) = 0"
  by (simp_all add: send_call_def rdma_call_def count_defs)

lemma post_rsp_recv_own: "post_rsp_recv E f t = Some (ret, f', t') \<Longrightarrow> own_thread E f t f' t'"
  by (cases "conn_rsp_mr (pf_conn f)")
    (auto simp: post_rsp_recv_def post_simps own_thread_def own_counts_def same_handles_def)

lemma send_req_own: "send_req E g f t = Some (ret, f', t') \<Longrightarrow> own_thread E f t f' t'"
  by (cases "conn_req_mr (pf_conn f)")
    (auto simp: send_req_def post_simps own_thread_def own_counts_def same_handles_def Let_def)

lemma exchange_own:
  assumes "exchange E p g f t = Some (ret, f', t')"
  shows "own_thread E f t f' t'"
  using assms by (cases rule: exchange_cases)
    (blast intro: post_rsp_recv_own send_req_own wait_command_own own_thread_trans)+

lemma label_own:
  "map_destroy_mr p f t s = Some (r, s') \<Longrightarrow> own_counts E f t (cl_trace s')"
  "map_destroy_rkey p f t s = Some (r, s') \<Longrightarrow> own_counts E f t (cl_trace s')"
  "unmap_destroy_mr p rt f t s = Some (rt', s') \<Longrightarrow> own_counts E f t (cl_trace s')"
  by (auto simp: map_label_defs unmap_destroy_mr_def bind_eq_Some_conv Let_def own_counts_def count_defs)

lemma own_counts_after: "own_thread E f t f' t' \<Longrightarrow> own_counts E f' t' t'' \<Longrightarrow> own_counts E f t t''"
  by (simp add: own_thread_def own_counts_def same_handles_def)

lemma region_call_own: "conn_qp c = conn_qp (pf_conn f) \<Longrightarrow> own_thread E f t f (region_call opc c pm mr # t)"
  by (simp add: own_thread_def own_counts_def same_handles_def)

lemma map_read_own:
  assumes "map_read E p f t s = Some (r, s')"
  shows "own_counts E f t (cl_trace s')"
  using assms
proof (cases rule: map_read_cases)
  case (no_read mr)
  then show ?thesis by (blast intro: own_counts_after region_call_own label_own(2))
next
  case (waited mr f1 t1)
  then have "own_thread E f t f1 t1" by (blast intro: own_thread_trans region_call_own wait_command_own)
  with waited(5) show ?thesis by (simp add: own_thread_def)
qed

lemma commit_request_own:
  assumes "commit_request E p f t s = Some (r, s')"
  shows "own_counts E f t (cl_trace s')"
  using assms
proof (cases rule: commit_request_cases)
  case (no_send f2 t2)
  with send_req_own [OF no_send(2)] show ?thesis by (simp add: own_thread_def)
next
  case (waited f2 t2 f3 t3)
  then have "own_thread E f t f3 t3" by (blast intro: own_thread_trans send_req_own wait_command_own)
  with waited(4) show ?thesis by (simp add: own_thread_def)
qed

lemma map_own:
  assumes h: "rpmem_map E p len s = Some (r, s')" and f: "cl_files s p = Some f"
  shows "own_counts E f (cl_trace s) (cl_trace s')"
proof (cases "env_ptr E (Calloc len # cl_trace s) = NULL \<or> env_mr E (map_local_trace E len s f) = None")
  case True
  with h f show ?thesis
    by (cases "env_ptr E (Calloc len # cl_trace s) = NULL")
      (auto simp: rpmem_map_def call_defs map_label_defs Let_def map_local_trace_def own_counts_def count_defs)
next
  case False
  then obtain mr where a: "env_ptr E (Calloc len # cl_trace s) \<noteq> NULL" "env_mr E (map_local_trace E len s f) = Some mr" by auto
  obtain ret f2 t2 where x: "exchange E p (\<lambda>m. pack_map_req (host E) m (ucast len)) (map_local E len s f mr)
      (map_local_trace E len s f) = Some (ret, f2, t2)"
    "ret \<noteq> 0 \<longrightarrow> map_destroy_mr p f2 t2 s = Some (r, s')"
    "ret = 0 \<longrightarrow> (let (ret, rkey, ra) = unpack_map_rsp (host E) (conn_rsp (pf_conn f2))
       (pmr_rkey (pf_priv_mr f2)) (pmr_remote_addr (pf_priv_mr f2));
     f3 = upd_pmr (\<lambda>m. m\<lparr>pmr_rkey := rkey, pmr_remote_addr := ra\<rparr>) f2
     in (if ret \<noteq> 0 then map_destroy_mr p f3 t2 s else map_read E p f3 t2 s)) = Some (r, s')"
    by (rule map_exchange [OF f a h])
  have "own_thread E f (cl_trace s) f2 t2"
    using exchange_own [OF x(1)] by (simp add: own_thread_def own_counts_def same_handles_def map_local_trace_def count_defs)
  moreover have up: "own_counts E (upd_pmr g f2) t2 t' = own_counts E f2 t2 t'" for g t'
    by (simp add: own_counts_def upd_pmr_def)
  have "own_counts E f2 t2 (cl_trace s')"
    using x(2,3) label_own(1) [of p f2 t2 s r s' E] label_own(1) [of p "upd_pmr _ f2" t2 s r s' E]
      map_read_own [of E p "upd_pmr _ f2" t2 s r s']
    by (cases "ret = 0") (auto simp: Let_def up split_beta split: if_splits)
  ultimately show ?thesis by (blast intro: own_counts_after)
qed

section \<open>The calls\<close>

text \<open>
  Whatever happens between the calls on a file: rounds of its completion thread, and anything that
  leaves its semaphore and its handles alone and neither polls its queue nor posts on its queue pair
  (events of the connection manager, calls for other files, calls of the program).
\<close>

definition leaves :: "env \<Rightarrow> ptr \<Rightarrow> client_state \<Rightarrow> client_state \<Rightarrow> bool" where
  "leaves E p s s' \<longleftrightarrow>
     (\<exists>f f'. cl_files s p = Some f \<and> cl_files s' p = Some f' \<and> same_handles f f' \<and>
        pf_sem_command f' = pf_sem_command f \<and>
        asked E (conn_qp (pf_conn f)) (cl_trace s') = asked E (conn_qp (pf_conn f)) (cl_trace s) \<and>
        reported E (conn_cq (pf_conn f)) (cl_trace s') = reported E (conn_cq (pf_conn f)) (cl_trace s))"

text \<open>An operation on an open file that keeps the balance of the file.\<close>

definition balanced_at :: "env \<Rightarrow> ptr \<Rightarrow> client_state \<Rightarrow> bool" where
  "balanced_at E p s \<longleftrightarrow> (\<exists>f. cl_files s p = Some f \<and> balanced E f (cl_trace s))"

definition all_balanced :: "env \<Rightarrow> client_state \<Rightarrow> bool" where
  "all_balanced E s \<longleftrightarrow>
     (\<forall>p f. cl_files s p = Some f \<longrightarrow> balanced E f (cl_trace s)) \<and>
     (\<forall>p q f g. cl_files s p = Some f \<longrightarrow> cl_files s q = Some g \<longrightarrow> p \<noteq> q \<longrightarrow>
        conn_cq (pf_conn f) \<noteq> conn_cq (pf_conn g) \<and> conn_qp (pf_conn f) \<noteq> conn_qp (pf_conn g))"

text \<open>A state in which the file at \<open>p\<close> is balanced, with the handles \<open>f\<close> had.\<close>

definition back_in_step :: "env \<Rightarrow> ptr \<Rightarrow> priv_rpmem_file \<Rightarrow> client_state \<Rightarrow> bool" where
  "back_in_step E p f s \<longleftrightarrow> (\<exists>f'. cl_files s p = Some f' \<and> balanced E f' (cl_trace s) \<and> same_handles f f')"

lemma back_in_step_trans: "same_handles f f' \<Longrightarrow> back_in_step E p f' s \<Longrightarrow> back_in_step E p f s"
  by (auto simp: back_in_step_def intro: same_handles_trans)

lemma put_in_step: "balanced E f' t \<Longrightarrow> same_handles f f' \<Longrightarrow> back_in_step E p f (put_file p f' t s)"
  by (simp add: back_in_step_def)

locale balanced_op = file_op opn for opn :: "env \<Rightarrow> ptr \<Rightarrow> client_state \<Rightarrow> ('r \<times> client_state) option" +
  assumes keeps: "opn E p s = Some (r, s') \<Longrightarrow> cl_files s p = Some f \<Longrightarrow> balanced E f (cl_trace s) \<Longrightarrow>
    back_in_step E p f s'"
    and stays: "opn E p s = Some (r, s') \<Longrightarrow> cl_files s p = Some f \<Longrightarrow> own_counts E f (cl_trace s) (cl_trace s')"
begin

text \<open>A call on one file leaves a file with other handles alone.\<close>

lemma leaves_others:
  assumes "opn E q s = Some (r, s')" and "q \<noteq> p" and "cl_files s q = Some g" and "cl_files s p = Some f"
    and "conn_cq (pf_conn f) \<noteq> conn_cq (pf_conn g)" and "conn_qp (pf_conn f) \<noteq> conn_qp (pf_conn g)"
  shows "leaves E p s s'"
  using stays [OF assms(1,3)] others(1) [OF assms(1), of p] assms(2-6)
  by (simp add: leaves_def own_counts_def same_handles_def)

lemma keeps_balance: "opn E p s = Some (r, s') \<Longrightarrow> balanced_at E p s \<Longrightarrow> balanced_at E p s'"
  using keeps by (fastforce simp: balanced_at_def back_in_step_def)

text \<open>With all files balanced and no handle shared, a call on any of them keeps it that way.\<close>

lemma keeps_all:
  assumes h: "opn E p s = Some (r, s')" and b: "all_balanced E s"
  shows "all_balanced E s'"
proof -
  obtain f f' t where f: "cl_files s p = Some f" "s' = put_file p f' t s" using stores [OF h] by blast
  have k: "back_in_step E p f s'" using b f(1) by (intro keeps [OF h]) (auto simp: all_balanced_def)
  have o: "cl_files s' q = cl_files s q" if "q \<noteq> p" for q using others(1) [OF h that] .
  have "balanced E g (cl_trace s')" if "cl_files s' q = Some g" for q g
  proof (cases "q = p")
    case False
    with that o b f(1) have "conn_cq (pf_conn g) \<noteq> conn_cq (pf_conn f)" "conn_qp (pf_conn g) \<noteq> conn_qp (pf_conn f)"
      "balanced E g (cl_trace s)" by (auto simp: all_balanced_def)
    with stays [OF h f(1)] show ?thesis by (simp add: own_counts_def balanced_def)
  qed (use k that in \<open>auto simp: back_in_step_def\<close>)
  moreover have "conn_cq (pf_conn g) \<noteq> conn_cq (pf_conn g') \<and> conn_qp (pf_conn g) \<noteq> conn_qp (pf_conn g')"
    if "cl_files s' q = Some g" "cl_files s' q' = Some g'" "q \<noteq> q'" for q q' g g'
    using that k o [of q] o [of q'] b f(1)
    by (cases "q = p"; cases "q' = p") (auto simp: all_balanced_def back_in_step_def same_handles_def)
  ultimately show ?thesis unfolding all_balanced_def by blast
qed

end

lemma label_in_step:
  assumes "balanced E f t"
  shows "map_destroy_mr p f t s = Some (r, s') \<Longrightarrow> back_in_step E p f s'"
    and "map_destroy_rkey p f t s = Some (r, s') \<Longrightarrow> back_in_step E p f s'"
    and "unmap_destroy_mr p rt f t s = Some (rt', s') \<Longrightarrow> back_in_step E p f s'"
  using assms
  by (auto simp: map_label_defs unmap_destroy_mr_def bind_eq_Some_conv Let_def balanced_def same_handles_def count_defs
      back_in_step_def)

lemma map_read_in_step:
  assumes h: "map_read E p f t s = Some (r, s')" and b: "balanced E f t"
  shows "back_in_step E p f s'"
  using h
proof (cases rule: map_read_cases)
  case (no_read mr)
  then have "balanced E f (region_call IBV_WR_RDMA_READ (pf_conn f) (pf_priv_mr f) mr # t)"
    using b by (simp add: balanced_def)
  then show ?thesis by (rule label_in_step(2) [OF _ no_read(3)])
next
  case (waited mr f1 t1)
  then have "owes E f (region_call IBV_WR_RDMA_READ (pf_conn f) (pf_priv_mr f) mr # t)"
    using b by (simp add: balanced_def owes_def)
  with waited(5) wait_command_balances [OF waited(3)] show ?thesis by (simp add: put_in_step)
qed

lemma commit_request_in_step:
  assumes h: "commit_request E p f t s = Some (r, s')" and b: "balanced E f t"
  shows "back_in_step E p f s'"
  using h
proof (cases rule: commit_request_cases)
  case (no_send f2 t2)
  with send_req_owes [OF no_send(2) b] show ?thesis by (simp add: put_in_step)
next
  case (waited f2 t2 f3 t3)
  with send_req_owes [OF waited(1) b] wait_command_balances [OF waited(2)] show ?thesis
    by (auto intro: put_in_step same_handles_trans)
qed

interpretation unmap_bal: balanced_op rpmem_unmap
proof (unfold_locales, goal_cases)
  case (1 E p s r s' f)
  from 1(2,1) show ?case
  proof (cases rule: unmap_cases)
    case u: (1 r1 f1 t1)
    note e = exchange_balanced [OF u(1) 1(3)]
    with label_in_step(3) [OF _ u(2)] show ?thesis by (blast intro: back_in_step_trans)
  qed
next
  case (2 E p s r s' f)
  from 2(2,1) show ?case
    by (cases rule: unmap_cases) (blast intro: own_counts_after exchange_own label_own(3))
qed

interpretation commit_bal: balanced_op rpmem_commit
proof (unfold_locales, goal_cases)
  case (1 E p s r s' f)
  note b = post_rsp_recv_balanced [OF _ 1(3)]
  have w: "balanced E f1 (rdma_call c rk lk ra la n IBV_WR_RDMA_WRITE # t1)" if "balanced E f1 t1" for f1 c rk lk ra la n t1
    using that by (simp add: balanced_def)
  from 1(2,1) show ?case
  proof (cases rule: commit_cases)
    case (no_recv f1 t1)
    with b [OF no_recv(2)] show ?thesis by (simp add: put_in_step)
  next
    case (no_write f1 t1 mr)
    with b [OF no_write(2)] w show ?thesis by (simp add: put_in_step)
  next
    case (requested f1 t1 mr)
    from commit_request_in_step [OF requested(3) w] b [OF requested(1)] show ?thesis by (blast intro: back_in_step_trans)
  qed
next
  case (2 E p s r s' f)
  have w: "own_thread E f1 t1 f1 (region_call opc (pf_conn f1) pm mr # t1)" for f1 t1 opc pm mr
    by (rule region_call_own) simp
  from 2(2,1) show ?case
  proof (cases rule: commit_cases)
    case (no_recv f1 t1)
    with post_rsp_recv_own [OF no_recv(2)] show ?thesis by (simp add: own_thread_def)
  next
    case (no_write f1 t1 mr)
    with own_thread_trans [OF post_rsp_recv_own [OF no_write(2)] w] show ?thesis by (simp add: own_thread_def)
  next
    case (requested f1 t1 mr)
    then show ?thesis by (blast intro: own_counts_after post_rsp_recv_own w commit_request_own)
  qed
qed

interpretation map_bal: balanced_op "\<lambda>E p. rpmem_map E p len" for len
proof (unfold_locales, goal_cases)
  case (1 E p s r s' f)
  let ?a = "env_ptr E (Calloc len # cl_trace s)"
  show ?case
  proof (cases "?a = NULL \<or> env_mr E (map_local_trace E len s f) = None")
    case True
    with 1 show ?thesis
      by (cases "?a = NULL")
        (auto simp: rpmem_map_def call_defs map_label_defs Let_def map_local_trace_def balanced_def same_handles_def
          count_defs back_in_step_def)
  next
    case False
    then obtain mr where a: "?a \<noteq> NULL" "env_mr E (map_local_trace E len s f) = Some mr" by auto
    obtain ret f2 t2 where x: "exchange E p (\<lambda>m. pack_map_req (host E) m (ucast len)) (map_local E len s f mr)
        (map_local_trace E len s f) = Some (ret, f2, t2)"
      "ret \<noteq> 0 \<longrightarrow> map_destroy_mr p f2 t2 s = Some (r, s')"
      "ret = 0 \<longrightarrow> (let (ret, rkey, ra) = unpack_map_rsp (host E) (conn_rsp (pf_conn f2))
         (pmr_rkey (pf_priv_mr f2)) (pmr_remote_addr (pf_priv_mr f2));
       f3 = upd_pmr (\<lambda>m. m\<lparr>pmr_rkey := rkey, pmr_remote_addr := ra\<rparr>) f2
       in (if ret \<noteq> 0 then map_destroy_mr p f3 t2 s else map_read E p f3 t2 s)) = Some (r, s')"
      by (rule map_exchange [OF 1(2) a 1(1)])
    have "balanced E (map_local E len s f mr) (map_local_trace E len s f)"
      using 1(3) by (simp add: balanced_def map_local_def map_local_trace_def upd_rmr_def upd_pmr_def count_defs)
    note e = exchange_balanced [OF x(1) this]
    have sh: "same_handles f f2" using e by (simp add: same_handles_def)
    have up: "balanced E (upd_pmr g f2) t2" "same_handles f2 (upd_pmr g f2)" for g
      using e by (auto simp: balanced_def same_handles_def upd_pmr_def)
    have ends: "map_destroy_mr p (upd_pmr g f2) t2 s = Some (r, s') \<Longrightarrow> back_in_step E p f2 s'"
      "map_read E p (upd_pmr g f2) t2 s = Some (r, s') \<Longrightarrow> back_in_step E p f2 s'" for g
      by (rule back_in_step_trans [OF up(2)], erule label_in_step(1) [OF up(1)] map_read_in_step [OF _ up(1)])+
    have "back_in_step E p f2 s'"
      using x(2,3) e label_in_step(1) [of E f2 t2] ends
      by (cases "ret = 0") (auto simp: Let_def split_beta split: if_splits)
    with sh show ?thesis by (rule back_in_step_trans)
  qed
next
  case (2 E p s r s' f)
  then show ?case by (rule map_own)
qed

interpretation cq_bal: balanced_op cq_round_between
proof (unfold_locales, goal_cases)
  case (1 E p s r s' f)
  then obtain f' t where s': "s' = put_file p (f'\<lparr>pf_cq_running := r\<rparr>) t s"
    and c: "(if pf_cq_running f then client_cq_thread_round E f (cl_trace s) else Some (False, f, cl_trace s)) = Some (r, f', t)"
    by (auto simp: cq_round_between_def bind_eq_Some_conv)
  have up: "counts_up E f (cl_trace s) f' t"
    using c cq_count.cq_round by (auto simp: counts_up_refl split: if_splits)
  with counts_up_balanced [OF up 1(3)] show ?case unfolding s'
    by (intro put_in_step) (auto simp: balanced_def counts_up_def same_handles_def)
next
  case (2 E p s r s' f)
  then show ?case using cq_own.cq_round cq_own.none
    by (fastforce simp: cq_round_between_def bind_eq_Some_conv own_thread_def split: if_splits)
qed

section \<open>Opening\<close>

text \<open>The connection manager thread neither polls nor posts, and leaves the count alone.\<close>

definition quiet :: "env \<Rightarrow> priv_rpmem_file \<Rightarrow> trace \<Rightarrow> priv_rpmem_file \<Rightarrow> trace \<Rightarrow> bool" where
  "quiet E f t f' t' \<longleftrightarrow> pf_sem_command f' = pf_sem_command f \<and>
     (\<forall>q. asked E q t' = asked E q t \<and> reported E q t' = reported E q t)"

lemma cma_handler_quiet:
  assumes "rpmem_cma_handler E p ev f t = Some (ret, f', t')"
  shows "quiet E f t f' t'"
proof (cases "ev_event ev = RDMA_CM_EVENT_ADDR_RESOLVED")
  case True
  with assms show ?thesis
    by (auto simp: rpmem_cma_handler_def rpmem_addr_handler_def call_defs ah_defs upd_file_defs quiet_def count_defs Let_def
        split: if_splits)
next
  case False
  with assms show ?thesis
    by (auto simp: rpmem_cma_handler_def rpmem_route_handler_def call_defs upd_file_defs quiet_def count_defs Let_def
        split: rdma_cm_event_type.splits if_splits)
qed

lemma cm_round_quiet: "client_cm_thread_round E p f t = Some (b, f', t') \<Longrightarrow> quiet E f t f' t'"
  by (auto simp: client_cm_thread_round_def quiet_def call_defs Let_def bind_eq_Some_conv count_defs
      split: if_splits dest!: cma_handler_quiet)

interpretation cm_quiet: helper_thread client_cm_thread_round client_cm_thread quiet
  by unfold_locales (auto simp: quiet_def dest: cm_round_quiet split: option.splits)

lemma wait_connect_quiet:
  assumes "wait_connect E p f t = Some (f', t')"
  shows "quiet E f t f' t'"
proof -
  let ?t = "Sem_wait_connect p # t"
  obtain b f1 t1 where r: "client_cm_thread E p (env_rounds E ?t) f ?t = Some (b, f1, t1)"
    and f': "f' = f1\<lparr>pf_sem_connect := pf_sem_connect f1 - 1\<rparr>" "t' = t1"
    using assms by (auto simp: wait_connect_def Let_def bind_eq_Some_conv split: if_splits)
  from cm_quiet.runs_ok [OF r] show ?thesis by (simp add: f' quiet_def count_defs)
qed

text \<open>
  A file that has been opened is balanced, if its queue and its queue pair have no history.
\<close>

lemma open_in_step:
  assumes h: "rpmem_open E dst s = Some (p, s')" and p: "p \<noteq> NULL" and f: "cl_files s' p = Some f"
    and new: "reported E (conn_cq (pf_conn f)) (cl_trace s) = 0" "asked E (conn_qp (pf_conn f)) (cl_trace s) = 0"
  shows "balanced E f (cl_trace s')"
proof -
  obtain q ch cid t3 where st: "open_start E s = (q, ch, cid, t3)" by (cases "open_start E s") auto
  let ?f = "open_file ch cid" and ?t = "Rdma_resolve_addr cid dst 2000 # t3"
  have ok: "\<not> (q = NULL \<or> ch = NULL \<or> env_int E (tl t3) \<noteq> 0 \<or> env_int E t3 \<noteq> 0 \<or> env_int E ?t \<noteq> 0)"
    using h st p by (auto simp: rpmem_open_def open_start_def call_defs Let_def open_label_defs upd_pconn_def split: if_splits)
  then obtain f1 t1 where w: "wait_connect E q ?f ?t = Some (f1, t1)" "open_handshake E q f1 t1 s = Some (p, s')"
    using h open_go [OF st, of dst] p
    by (cases "wait_connect E q ?f ?t") (auto simp: open_label_defs split: if_splits)
  have z: "asked E q' ?t = asked E q' (cl_trace s)" "reported E q' ?t = reported E q' (cl_trace s)" for q'
    using st by (auto simp: open_start_def Let_def count_defs)
  obtain f2 where x: "exchange E q (pack_open_req (host E)) f1 t1 = Some (0, f2, cl_trace s')"
    and ff: "pf_sem_command f = pf_sem_command f2" "pf_conn f = pf_conn f2"
    using w(2) f p
    by (auto simp: open_handshake_def Let_def bind_eq_Some_conv split_beta open_label_defs split: if_splits)
  have sh: "same_handles f1 f2" using exchange_ok(1) [OF x] by (rule same_file_handles)
  have "balanced E f1 t1"
    using wait_connect_quiet [OF w(1)] z new sh ff
    by (simp add: balanced_def quiet_def same_handles_def open_file_def upd_pconn_def file_zero_def)
  from exchange_balanced [OF x this] ff show ?thesis by (simp add: balanced_def)
qed

section \<open>Runs on one file\<close>

text \<open>
  Calls on the file, rounds of its completion thread, and anything that leaves it alone.
\<close>

inductive file_run :: "env \<Rightarrow> ptr \<Rightarrow> client_state \<Rightarrow> client_state \<Rightarrow> bool" for E p s where
  opened: "file_run E p s s"
| map_call: "file_run E p s s1 \<Longrightarrow> rpmem_map E p len s1 = Some (r, s2) \<Longrightarrow> file_run E p s s2"
| unmap_call: "file_run E p s s1 \<Longrightarrow> rpmem_unmap E p s1 = Some (ret, s2) \<Longrightarrow> file_run E p s s2"
| commit_call: "file_run E p s s1 \<Longrightarrow> rpmem_commit E p s1 = Some (ret, s2) \<Longrightarrow> file_run E p s s2"
| completions: "file_run E p s s1 \<Longrightarrow> cq_round_between E p s1 = Some (running, s2) \<Longrightarrow> file_run E p s s2"
| other: "file_run E p s s1 \<Longrightarrow> leaves E p s1 s2 \<Longrightarrow> file_run E p s s2"

lemma file_run_in_step:
  "file_run E p s s' \<Longrightarrow> balanced_at E p s \<Longrightarrow> balanced_at E p s'"
proof (induction rule: file_run.induct)
  case (other s1 s2)
  then show ?case by (auto simp: balanced_at_def leaves_def balanced_def same_handles_def)
qed (auto intro: map_bal.keeps_balance unmap_bal.keeps_balance commit_bal.keeps_balance cq_bal.keeps_balance)

text \<open>Any sequence of calls on any files that are open.\<close>

inductive files_run :: "env \<Rightarrow> client_state \<Rightarrow> client_state \<Rightarrow> bool" for E s where
  start: "files_run E s s"
| map_call: "files_run E s s1 \<Longrightarrow> rpmem_map E p len s1 = Some (r, s2) \<Longrightarrow> files_run E s s2"
| unmap_call: "files_run E s s1 \<Longrightarrow> rpmem_unmap E p s1 = Some (ret, s2) \<Longrightarrow> files_run E s s2"
| commit_call: "files_run E s s1 \<Longrightarrow> rpmem_commit E p s1 = Some (ret, s2) \<Longrightarrow> files_run E s s2"
| completions: "files_run E s s1 \<Longrightarrow> cq_round_between E p s1 = Some (running, s2) \<Longrightarrow> files_run E s s2"

theorem all_files_balanced: "files_run E s s' \<Longrightarrow> all_balanced E s \<Longrightarrow> all_balanced E s'"
  by (induction rule: files_run.induct)
    (auto intro: map_bal.keeps_all unmap_bal.keeps_all commit_bal.keeps_all cq_bal.keeps_all)

section \<open>Properties\<close>

text \<open>
  C18: no call of the client returns before its own response. On a file that was opened on a fresh
  queue and queue pair, through any sequence of calls, successful or not, and any completions and
  events between them, the semaphore counts the responses and finished reads that were polled less the
  requests and reads the device accepted: when a call has returned, all of them have been answered,
  and unless the connection delivers more than was asked for, nothing is left over that would wake up
  the next call before its own response.
\<close>
theorem responses_awaited:
  assumes "rpmem_open E dst s = Some (p, s0)" and "p \<noteq> NULL" and "cl_files s0 p = Some f0"
    and "reported E (conn_cq (pf_conn f0)) (cl_trace s) = 0" and "asked E (conn_qp (pf_conn f0)) (cl_trace s) = 0"
    and "file_run E p s0 s'" and "cl_files s' p = Some f"
  shows "asked E (conn_qp (pf_conn f)) (cl_trace s') \<le> reported E (conn_cq (pf_conn f)) (cl_trace s') \<and>
    pf_sem_command f = reported E (conn_cq (pf_conn f)) (cl_trace s') - asked E (conn_qp (pf_conn f)) (cl_trace s')"
proof -
  have "balanced_at E p s0"
    using open_in_step [OF assms(1-5)] assms(3) by (simp add: balanced_at_def)
  from file_run_in_step [OF assms(6) this] assms(7) show ?thesis
    by (auto simp: balanced_at_def balanced_def)
qed

text \<open>
  C19: a call returns exactly when its response has been polled. On a balanced file whose receive and
  request the device has accepted, the exchange blocks if and only if the completion thread, in the
  rounds it makes during the wait, has not polled as many responses and finished reads as the device
  has accepted requests and reads, this request included.
\<close>
theorem exchange_returns_iff_answered:
  assumes "balanced E f t" and "post_rsp_recv E f t = Some (0, f1, t1)" and "send_req E g f1 t1 = Some (0, f2, t2)"
    and "run_cq_thread E f2 (Sem_wait_command p # t2) = Some (b, f3, t3)"
  shows "exchange E p g f t = None \<longleftrightarrow>
    reported E (conn_cq (pf_conn f)) t3 < asked E (conn_qp (pf_conn f)) t2"
proof -
  have b1: "balanced E f1 t1" "same_handles f f1" by (rule post_rsp_recv_balanced [OF assms(2,1)])+
  have o: "owes E f2 t2" "same_handles f1 f2" using send_req_owes [OF assms(3) b1(1)] by simp_all
  have "exchange E p g f t = None \<longleftrightarrow> wait_command E p f2 t2 = None"
    using assms(2,3) by (auto simp: exchange_def split: bind_splits)
  with wait_command_iff [OF o(1) assms(4)] b1(2) o(2) show ?thesis by (simp add: same_handles_def)
qed

text \<open>The session of the example client, up to its mapping.\<close>

lemma example_open_call:
  assumes "example_open E argv a s = Some (Inr p, s')" and "cl_trace s = []"
  obtains dst s1 where "rpmem_open E dst s1 = Some (p, s')" "\<And>q. reported E q (cl_trace s1) = 0" "\<And>q. asked E q (cl_trace s1) = 0"
proof -
  obtain ret b t where g: "get_addr E (Some (argv ! 1)) a (example_port E argv) (cl_trace s) = (ret, b, t)"
    by (cases "get_addr E (Some (argv ! 1)) a (example_port E argv) (cl_trace s)") auto
  then have "reported E q t = 0" "asked E q t = 0" for q
    using assms(2) by (auto simp: get_addr_def call_defs Let_def count_defs split: if_splits ai_family.splits)
  moreover have "rpmem_open E b (s\<lparr>cl_trace := t\<rparr>) = Some (p, s')"
    using assms(1) g by (auto simp: example_open_def Let_def bind_eq_Some_conv split: if_splits)
  ultimately show thesis using that [of b "s\<lparr>cl_trace := t\<rparr>"] by simp
qed

theorem responses_awaited_witness:
  "\<exists>dst s s0 s1 f. rpmem_open (session_env granting) dst s = Some (65536, s0) \<and>
     rpmem_map (session_env granting) 65536 1024 s0 = Some (65536, s1) \<and> cl_files s1 65536 = Some f \<and>
     asked (session_env granting) (conn_qp (pf_conn f)) (cl_trace s1) \<le>
       reported (session_env granting) (conn_cq (pf_conn f)) (cl_trace s1)"
proof -
  let ?E = "session_env granting"
  obtain s0 f0 where 1: "example_open ?E session_argv [] client_start = Some (Inr 65536, s0)"
    "cl_files s0 65536 = Some f0" "session_ready f0"
    by (rule session_open [of granting 8192]) simp_all
  obtain dst s where o: "rpmem_open ?E dst s = Some (65536, s0)" "\<And>q. reported ?E q (cl_trace s) = 0"
    "\<And>q. asked ?E q (cl_trace s) = 0"
    by (rule example_open_call [OF 1(1)]) (simp_all add: client_start_def)
  obtain s1 f1 where 2: "rpmem_map ?E 65536 1024 s0 = Some (65536, s1)" "cl_files s1 65536 = Some f1"
    by (rule session_map [where r = granting and x = "pack_map_rsp BE zero_cmd 7 9", OF 1(2,3)]) (use 1(3) in simp_all)
  have r: "file_run ?E 65536 s0 s1" by (rule file_run.map_call [OF file_run.opened 2(1)])
  have p: "(65536 :: ptr) \<noteq> NULL" by simp
  from responses_awaited [OF o(1) p 1(2) o(2,3) r 2(2)] o(1) 2 show ?thesis by blast
qed

theorem exchange_returns_iff_answered_witness:
  "\<exists>f1 t1 f2 t2 b f3 t3. post_rsp_recv (cl_env zero_cmd) demo_file [] = Some (0, f1, t1) \<and>
     send_req (cl_env zero_cmd) (pack_close_req LE) f1 t1 = Some (0, f2, t2) \<and>
     run_cq_thread (cl_env zero_cmd) f2 (Sem_wait_command 4096 # t2) = Some (b, f3, t3) \<and>
     asked (cl_env zero_cmd) 65536 t2 \<le> reported (cl_env zero_cmd) 65536 t3"
proof -
  let ?E = "cl_env zero_cmd"
  obtain f1 t1 where 1: "post_rsp_recv ?E demo_file [] = Some (0, f1, t1)" "pf_cq_running f1" "conn_cq (pf_conn f1) = 65536"
    "conn_req_mr (pf_conn f1) = Some ok_mr"
    by (simp add: post_rsp_recv_def post_simps)
  obtain f2 t2 where 2: "send_req ?E (pack_close_req LE) f1 t1 = Some (0, f2, t2)" "pf_cq_running f2" "conn_cq (pf_conn f2) = 65536"
    using 1(2-4) by (simp add: send_req_def post_simps Let_def)
  obtain b f3 t3 where 3: "run_cq_thread ?E f2 (Sem_wait_command 4096 # t2) = Some (b, f3, t3)"
    using cl_wait [OF 2(2,3), of "[]" zero_cmd 4096 t2]
    by (cases "run_cq_thread ?E f2 (Sem_wait_command 4096 # t2)") (auto simp: wait_command_def)
  have b: "balanced ?E demo_file []" by (simp add: balanced_def demo_file_def file_zero_def)
  have h: "conn_qp (pf_conn demo_file) = 65536" by (simp add: demo_file_def)
  have "exchange ?E 4096 (pack_close_req LE) demo_file [] \<noteq> None" by (simp add: cl_exchange)
  with exchange_returns_iff_answered [OF b 1(1) 2(1) 3] 1(1) 2(1) 3 h show ?thesis by (auto simp: not_less)
qed

end
