(* ===== verification/Server_Threads.thy ===== *)
theory Server_Threads
  imports Server_Main
begin

text \<open>
  The request handlers of \<^verbatim>\<open>rpmem_server.c\<close> as the threads execute them, step by step,
  with the spin lock of the pool. A step is one access to shared memory or one external call, or
  several that no other thread can tell apart: the search of the list together with the write of
  \<^verbatim>\<open>unit->res\<close> and the update of a counter, both under the lock, and the registration of
  a mapping together with the members of the resource, which the connection holds. This theory has
  the steps of a thread and the proof that a thread which is left alone does what the handlers of
  \<open>Server_Handlers\<close> do; \<open>Server_Interleaving\<close> lets the threads of all connections run at once.
\<close>

section \<open>Where a thread is\<close>

text \<open>
  What the completion thread of a connection does next, with the local variables it still needs:
  \<^verbatim>\<open>len\<close> and \<^verbatim>\<open>addr\<close> of the request, the resource
  \<^verbatim>\<open>res\<close>, and what the reply will carry. \<open>Idle\<close> is outside every handler.
\<close>

datatype hpc =
    Idle
  | Open_read | Open_recv cint | Open_reply cint
  | Close_reply
  | Map_recv
  | Map_lock cint | Map_search cint | Map_free rid cint | Map_use rid cint | Map_remove rid cint
  | Map_unlock "rid option" cint
  | Map_check "rid option" cint | Map_alloc rid cint | Map_mmap rid cint | Map_reg rid cint u64
  | Map_undo cint u64 | Map_reply u32 u64
  | Unmap_recv | Unmap_dereg "rid option" cint u64 | Unmap_munmap rid cint u64
  | Unmap_lock rid | Unmap_insert rid | Unmap_clear rid | Unmap_free rid | Unmap_use rid
  | Unmap_unlock | Unmap_reply cint
  | Commit_recv | Commit_sync cint u64 | Commit_reply cint

text \<open>The switch on the opcode of \<^verbatim>\<open>rpmem_rcv_completion\<close>.\<close>

definition hdispatch :: "env \<Rightarrow> uid \<Rightarrow> server_state \<Rightarrow> hpc option" where
  "hdispatch E u s = do {
     un \<leftarrow> sv_units s u;
     let opcode = req_opcode (host E) (conn_req (unit_conn un));
     Some (if opcode = opcode_val RPMEM_OPEN_REQ then Open_read
       else if opcode = opcode_val RPMEM_CLOSE_REQ then Close_reply
       else if opcode = opcode_val RPMEM_MAP_REQ then Map_recv
       else if opcode = opcode_val RPMEM_UNMAP_REQ then Unmap_recv
       else if opcode = opcode_val RPMEM_COMMIT_REQ then Commit_recv
       else Idle)
   }"

section \<open>The steps of a thread\<close>

text \<open>Packing the response and sending it, the end of every handler.\<close>

definition hreply :: "env \<Rightarrow> uid \<Rightarrow> (bytes \<Rightarrow> bytes) \<Rightarrow> server_state \<Rightarrow> (hpc \<times> server_state) option" where
  "hreply E u pack s = do {
     let s = upd_conn u (\<lambda>c. c\<lparr>conn_rsp := pack (conn_rsp c)\<rparr>) s;
     (err, s) \<leftarrow> post_rsp_send E u s;
     Some (Idle, s)
   }"

text \<open>
  One step of the thread of connection \<open>u\<close>; none is possible outside the handlers, and a null
  pointer dereference has no result. Reading or writing a counter is one access; the update of one
  under the lock is one step, since nobody else writes it meanwhile, and nobody else changes the list
  between the lock and the unlock, so the search is one step too. What the handlers return is ignored by their caller and left out. The
  steps that take and release the lock are \<open>Map_lock\<close>, \<open>Unmap_lock\<close>, \<open>Map_unlock\<close> and
  \<open>Unmap_unlock\<close>.
\<close>

fun hstep :: "env \<Rightarrow> uid \<Rightarrow> hpc \<Rightarrow> server_state \<Rightarrow> (hpc \<times> server_state) option" where
  "hstep E u Idle s = None"
| "hstep E u Open_read s = Some (Open_recv (srv_free_size (sv_server s)), s)"
| "hstep E u (Open_recv sz) s = do {
     (err, s) \<leftarrow> post_req_recv E u s;
     Some (Open_reply sz, s)
   }"
| "hstep E u (Open_reply sz) s = hreply E u (pack_open_rsp (host E) sz) s"
| "hstep E u Close_reply s = hreply E u (pack_close_rsp (host E) 0) s"
| "hstep E u Map_recv s = do {
     un \<leftarrow> sv_units s u;
     let len = req_len (host E) (conn_req (unit_conn un));
     (err, s) \<leftarrow> post_req_recv E u s;
     Some (if err \<noteq> 0 then Map_reply (env_junk32 E (sv_trace s)) (env_junk64 E (sv_trace s))
       else Map_lock len, s)
   }"
| "hstep E u (Map_lock len) s = Some (Map_search len, s)"
| "hstep E u (Map_search len) s =
     (case find_res (sv_resources s) len (srv_res_list (sv_server s)) of
        None \<Rightarrow> Some (Map_unlock None len, s)
      | Some res \<Rightarrow> Some (Map_free res len, upd_unit u (\<lambda>un. un\<lparr>unit_res := Some res\<rparr>) s))"
| "hstep E u (Map_free res len) s =
     Some (Map_use res len,
       upd_server (\<lambda>sv. sv\<lparr>srv_free_size := srv_free_size sv - int_size (sv_resources s res)\<rparr>) s)"
| "hstep E u (Map_use res len) s =
     Some (Map_remove res len,
       upd_server (\<lambda>sv. sv\<lparr>srv_in_use_size := srv_in_use_size sv + int_size (sv_resources s res)\<rparr>) s)"
| "hstep E u (Map_remove res len) s = do {
     rest \<leftarrow> slist_remove res (srv_res_list (sv_server s));
     Some (Map_unlock (Some res) len, upd_server (\<lambda>sv. sv\<lparr>srv_res_list := rest\<rparr>) s)
   }"
| "hstep E u (Map_unlock res len) s = Some (Map_check res len, s)"
| "hstep E u (Map_check res len) s = do {
     un \<leftarrow> sv_units s u;
     if unit_res un = None
     then Some (Map_reply (env_junk32 E (sv_trace s)) (env_junk64 E (sv_trace s)), s)
     else do { res \<leftarrow> res; Some (Map_alloc res len, s) }
   }"
| "hstep E u (Map_alloc res len) s =
     (let (rc, s) = srv_int E (Posix_fallocate (res_fd (sv_resources s res)) (scast len)) s
      in Some (Map_mmap res len, s))"
| "hstep E u (Map_mmap res len) s =
     (let (addr, s) = srv_ptr E (Mmap (res_fd (sv_resources s res)) (scast len) MAP_PRIVATE) s
      in Some (Map_reg res len (if addr = MAP_FAILED then NULL else addr), s))"
| "hstep E u (Map_reg res len addr) s = do {
     let s = upd_res res (\<lambda>r. r\<lparr>res_addr := addr, res_map_len := len\<rparr>) s;
     un \<leftarrow> sv_units s u;
     let (mr, s) = srv_mr E (Ibv_reg_mr (conn_pd (unit_conn un)) (Vaddr addr) (scast len)
           [IBV_ACCESS_LOCAL_WRITE, IBV_ACCESS_REMOTE_WRITE, IBV_ACCESS_REMOTE_READ]) s;
     let s = upd_res res (\<lambda>r. r\<lparr>res_mr := mr\<rparr>) s;
     Some (case mr of None \<Rightarrow> Map_undo len addr | Some mr \<Rightarrow> Map_reply (mr_rkey mr) addr, s)
   }"
| "hstep E u (Map_undo len addr) s =
     (let (rc, s) = srv_int E (Munmap addr (scast len)) s
      in Some (Map_reply (env_junk32 E (sv_trace s)) NULL, s))"
| "hstep E u (Map_reply rkey addr) s = hreply E u (\<lambda>m. pack_map_rsp (host E) m rkey addr) s"
| "hstep E u Unmap_recv s = do {
     un \<leftarrow> sv_units s u;
     let len = req_len (host E) (conn_req (unit_conn un));
     let addr = req_addr (host E) (conn_req (unit_conn un));
     (err, s) \<leftarrow> post_req_recv E u s;
     Some (if err \<noteq> 0 then Unmap_reply (-1) else Unmap_dereg (unit_res un) len addr, s)
   }"
| "hstep E u (Unmap_dereg res len addr) s = do {
     res \<leftarrow> res;
     mr \<leftarrow> res_mr (sv_resources s res);
     let (rc, s) = srv_int E (Ibv_dereg_mr mr) s;
     let s = upd_res res (\<lambda>r. r\<lparr>res_map_len := 0, res_addr := 0\<rparr>) s;
     Some (Unmap_munmap res len addr, s)
   }"
| "hstep E u (Unmap_munmap res len addr) s =
     (let (ret, s) = srv_int E (Munmap addr (scast len)) s
      in Some (if ret \<noteq> 0 then Unmap_reply ret else Unmap_lock res, s))"
| "hstep E u (Unmap_lock res) s = Some (Unmap_insert res, s)"
| "hstep E u (Unmap_insert res) s =
     Some (Unmap_clear res, upd_server (\<lambda>sv. sv\<lparr>srv_res_list := res # srv_res_list sv\<rparr>) s)"
| "hstep E u (Unmap_clear res) s = Some (Unmap_free res, upd_unit u (\<lambda>un. un\<lparr>unit_res := None\<rparr>) s)"
| "hstep E u (Unmap_free res) s =
     Some (Unmap_use res,
       upd_server (\<lambda>sv. sv\<lparr>srv_free_size := srv_free_size sv + int_size (sv_resources s res)\<rparr>) s)"
| "hstep E u (Unmap_use res) s =
     Some (Unmap_unlock,
       upd_server (\<lambda>sv. sv\<lparr>srv_in_use_size := srv_in_use_size sv - int_size (sv_resources s res)\<rparr>) s)"
| "hstep E u Unmap_unlock s = Some (Unmap_reply 0, s)"
| "hstep E u (Unmap_reply ret) s = hreply E u (\<lambda>m. pack_unmap_rsp (host E) m ret) s"
| "hstep E u Commit_recv s = do {
     un \<leftarrow> sv_units s u;
     let len = req_len (host E) (conn_req (unit_conn un));
     let addr = req_addr (host E) (conn_req (unit_conn un));
     (err, s) \<leftarrow> post_req_recv E u s;
     Some (if err \<noteq> 0 then Commit_reply (-1) else Commit_sync len addr, s)
   }"
| "hstep E u (Commit_sync len addr) s =
     (let (ret, s) = srv_int E (Msync addr (scast len)) s in Some (Commit_reply ret, s))"
| "hstep E u (Commit_reply ret) s = hreply E u (\<lambda>m. pack_commit_rsp (host E) m ret) s"

section \<open>A thread left alone\<close>

text \<open>At most \<open>n\<close> steps, until the handler is done. No handler takes more than 15.\<close>

primrec hrun :: "env \<Rightarrow> uid \<Rightarrow> nat \<Rightarrow> hpc \<Rightarrow> server_state \<Rightarrow> (hpc \<times> server_state) option" where
  "hrun E u 0 pc s = Some (pc, s)"
| "hrun E u (Suc n) pc s =
     (if pc = Idle then Some (pc, s) else do { (pc, s) \<leftarrow> hstep E u pc s; hrun E u n pc s })"

definition finished :: "(cint \<times> server_state) option \<Rightarrow> (hpc \<times> server_state) option" where
  "finished r = map_option (\<lambda>(_, s). (Idle, s)) r"

lemma finished_simps [simp]:
  "finished None = None" "finished (Some (v, s)) = Some (Idle, s)"
  "finished (Option.bind x f) = Option.bind x (\<lambda>y. finished (f y))"
  "finished (if b then x else y) = (if b then finished x else finished y)"
  by (simp_all add: finished_def map_option_bind comp_def)

lemma hrun_Idle [simp]: "hrun E u n Idle s = Some (Idle, s)"
  by (cases n) simp_all

lemma hreply_send: "hreply E u f s = finished (send_rsp E u f ret s)"
  by (auto simp: hreply_def send_rsp_def Let_def split: bind_splits)

lemma hrun_step [simp]:
  "pc \<noteq> Idle \<Longrightarrow> hrun E u (Suc n) pc s = Option.bind (hstep E u pc s) (\<lambda>(pc, s). hrun E u n pc s)"
  by simp

declare hrun.simps(2) [simp del]

lemma hreply_run [simp]: "Option.bind (hreply E u f s) (\<lambda>(pc, s). hrun E u n pc s) = hreply E u f s"
  by (auto simp: hreply_def Let_def split: bind_splits)

lemma hrun_reply:
  assumes "0 < n"
  shows "hrun E u n (Map_reply k a) s = hreply E u (\<lambda>m. pack_map_rsp (host E) m k a) s"
    and "hrun E u n (Unmap_reply ret) s = hreply E u (\<lambda>m. pack_unmap_rsp (host E) m ret) s"
  using assms by (cases n; simp)+

lemma hrun_open: "n = 3 + k \<Longrightarrow> hrun E u n Open_read s = finished (rpmem_handle_open E u s)"
  by (auto simp: eval_nat_numeral rpmem_handle_open_def hreply_def Let_def split: bind_splits)

lemma hrun_close: "n = 1 + k \<Longrightarrow> hrun E u n Close_reply s = finished (rpmem_handle_close E u s)"
  by (auto simp: rpmem_handle_close_def hreply_def Let_def split: bind_splits)

lemma hrun_commit: "n = 3 + k \<Longrightarrow> hrun E u n Commit_recv s = finished (rpmem_handle_commit E u s)"
  by (auto simp: eval_nat_numeral rpmem_handle_commit_def handle_commit_out_def hreply_def srv_call_eq Let_def
      split: bind_splits)

text \<open>Running through a critical section, and through the mapping of a resource.\<close>

lemma hrun_take:
  assumes "n = 6 + k"
  shows "hrun E u n (Map_lock len) s =
     (case find_res (sv_resources s) len (avail s) of
        None \<Rightarrow> hrun E u (3 + k) (Map_check None len) s
      | Some r \<Rightarrow> hrun E u k (Map_check (Some r) len) (taken u r s))"
proof (cases "find_res (sv_resources s) len (avail s)")
  case None
  with assms show ?thesis by (simp add: eval_nat_numeral avail_def)
next
  case (Some r)
  have "slist_remove r (srv_res_list (sv_server s)) = Some (remove1 r (srv_res_list (sv_server s)))"
    using find_res_in [OF Some] by (simp add: avail_def slist_remove_in)
  with assms Some show ?thesis
    by (simp add: eval_nat_numeral avail_def taken_def upd_defs)
qed

lemma hrun_give:
  "n = 6 + k \<Longrightarrow> hrun E u n (Unmap_lock r) s = hrun E u k (Unmap_reply 0) (pool_give u r s)"
  by (simp add: eval_nat_numeral pool_give_def upd_defs Let_def)

lemma finished_out:
  "finished (handle_map_out E u k a ret s) = hreply E u (\<lambda>m. pack_map_rsp (host E) m k a) s"
  "finished (handle_unmap_out E u ret s) = hreply E u (\<lambda>m. pack_unmap_rsp (host E) m ret) s"
  by (simp_all add: handle_out_eq hreply_send [symmetric])

lemma hrun_map_res:
  assumes n: "n = 5 + k" and un: "sv_units s u = Some un"
  shows "hrun E u n (Map_alloc r len) s = finished (handle_map_res E u len r s)"
  unfolding n handle_map_res_def
  by (simp add: eval_nat_numeral srv_call_eq un Let_def finished_out split: option.split)

lemma post_req_recv_units:
  "post_req_recv E u s = Some (err, s') \<Longrightarrow> sv_units s' u = None \<longleftrightarrow> sv_units s u = None"
  by (auto simp: post_req_recv_def bind_eq_Some_conv Let_def)

lemma hrun_map:
  assumes n: "n = 13 + k" and un: "sv_units s u = Some un"
  shows "hrun E u n Map_recv s = finished (rpmem_handle_map E u s)"
proof (cases "post_req_recv E u s")
  case None
  with n un show ?thesis by (simp add: rpmem_handle_map_def eval_nat_numeral)
next
  case (Some es)
  obtain err s1 where p: "post_req_recv E u s = Some (err, s1)" using Some by (cases es) simp
  let ?len = "req_len (host E) (conn_req (unit_conn un))"
  from post_req_recv_units [OF p] un obtain un1 where un1: "sv_units s1 u = Some un1" by auto
  obtain n1 n2 where n': "n = Suc n1" "n1 = 6 + Suc n2" "n2 = 5 + k" using n by simp
  show ?thesis
  proof (cases "err = 0")
    case False
    moreover have "0 < n1" using n'(2) by simp
    ultimately show ?thesis using p un
      by (simp add: n'(1) rpmem_handle_map_def finished_out hrun_reply Let_def)
  next
    case True
    have s: "hrun E u n Map_recv s = hrun E u n1 (Map_lock ?len) s1" using p un True by (simp add: n'(1))
    show ?thesis
    proof (cases "find_res (sv_resources s1) ?len (avail s1)")
      case None
      with p un un1 True show ?thesis
        by (cases "unit_res un1")
          (simp_all add: s hrun_take [OF n'(2)] rpmem_handle_map_def pool_take_eq finished_out eval_nat_numeral Let_def)
    next
      case (Some r)
      then have "hrun E u n Map_recv s = hrun E u n2 (Map_alloc r ?len) (taken u r s1)"
        using un1 by (simp add: s hrun_take [OF n'(2)])
      also have "\<dots> = finished (handle_map_res E u ?len r (taken u r s1))"
        by (rule hrun_map_res [OF n'(3)]) (simp add: un1)
      finally show ?thesis using p un un1 True Some by (simp add: rpmem_handle_map_def pool_take_eq Let_def)
    qed
  qed
qed

lemma hrun_unmap:
  assumes n: "n = 10 + k" and un: "sv_units s u = Some un"
  shows "hrun E u n Unmap_recv s = finished (rpmem_handle_unmap E u s)"
proof (cases "post_req_recv E u s")
  case None
  with n un show ?thesis by (simp add: rpmem_handle_unmap_def eval_nat_numeral)
next
  case (Some es)
  obtain err s1 where p: "post_req_recv E u s = Some (err, s1)" using Some by (cases es) simp
  obtain n1 where n': "n = Suc (Suc (Suc n1))" "n1 = 6 + Suc k" using n by simp
  have pos: "0 < n1" using n'(2) by simp
  show ?thesis
    using p un
    by (cases "err = 0"; cases "unit_res un"; simp add: n'(1) rpmem_handle_unmap_def finished_out hrun_reply Let_def)
      (auto simp: srv_call_eq hrun_give [OF n'(2)] hrun_reply [OF pos] finished_out split: bind_splits)
qed

lemma hrun_dispatch:
  assumes "sv_units s u \<noteq> None"
  shows "(case hdispatch E u s of None \<Rightarrow> None | Some pc \<Rightarrow> hrun E u 13 pc s) =
    map_option (\<lambda>(ret, s'). (Idle, s')) (rpmem_rcv_completion E u s)"
proof -
  from assms obtain un where un: "sv_units s u = Some un" by blast
  let ?opc = "req_opcode (host E) (conn_req (unit_conn un))"
  have "hrun E u 13 Open_read s = finished (rpmem_handle_open E u s)"
    "hrun E u 13 Close_reply s = finished (rpmem_handle_close E u s)"
    "hrun E u 13 Commit_recv s = finished (rpmem_handle_commit E u s)"
    using hrun_open [of 13 10 E u s] hrun_close [of 13 12 E u s] hrun_commit [of 13 10 E u s] by simp_all
  moreover have "hrun E u 13 Map_recv s = finished (rpmem_handle_map E u s)"
    "hrun E u 13 Unmap_recv s = finished (rpmem_handle_unmap E u s)"
    using hrun_map [of 13 0 s u un E] hrun_unmap [of 13 3 s u un E] un by simp_all
  ultimately show ?thesis
    by (auto simp: hdispatch_def rpmem_rcv_completion_def un Let_def finished_def option.map_comp
        map_option_case split: option.split)
qed

section \<open>Properties\<close>

text \<open>
  C6: a handler that is left alone is atomic. When no other thread runs meanwhile, the steps of a
  thread from the dispatch on lead, in at most 13 of them, to the state in which
  \<open>rpmem_rcv_completion\<close> leaves the server; they get stuck on a null pointer exactly when that
  function has no result.
\<close>
theorem uninterrupted_handler:
  assumes "sv_units s u \<noteq> None"
  shows "(case hdispatch E u s of None \<Rightarrow> None | Some pc \<Rightarrow> hrun E u 13 pc s) =
    map_option (\<lambda>(ret, s'). (Idle, s')) (rpmem_rcv_completion E u s)"
  using assms by (rule hrun_dispatch)

theorem uninterrupted_handler_witness:
  "\<exists>s'. hdispatch ok_env 1 (demo_state (pack_map_req LE zero_cmd 1024)) = Some Map_recv \<and>
     hrun ok_env 1 13 Map_recv (demo_state (pack_map_req LE zero_cmd 1024)) = Some (Idle, s') \<and>
     owner s' 1 = Some 0"
proof -
  let ?s = "demo_state (pack_map_req LE zero_cmd 1024)"
  have u: "sv_units ?s 1 \<noteq> None" by (simp add: demo_state_def)
  have d: "hdispatch ok_env 1 ?s = Some Map_recv"
    by (simp add: hdispatch_def demo_state_def demo_conn_def ok_env_def Let_def)
  obtain s' where s': "rpmem_rcv_completion ok_env 1 ?s = Some (0, s')" "owner s' 1 = Some 0"
    by (rule demo_map_served)
  with uninterrupted_handler [OF u, of ok_env] d show ?thesis by auto
qed

end
