(* ===== verification/Server_Interleaving.thy ===== *)
theory Server_Interleaving
  imports Server_Threads
begin

text \<open>
  The threads of the server running at once: the completion thread of every connection and the
  connection manager thread take their steps in any order, and only the spin lock
  \<^verbatim>\<open>res_lock\<close> makes them wait. The interface \<open>spin_locked\<close> is the discipline with
  which the handlers use the lock; its interpretation on \<open>hstep\<close> gives mutual exclusion. What the
  pool will be at the end of the running critical section, \<open>settled\<close>, satisfies the pool invariant
  in every state, and the steps of the threads refine the abstract pool of \<open>Server_Spec\<close>.
\<close>

section \<open>The lock\<close>

fun takes_lock :: "hpc \<Rightarrow> bool" where
  "takes_lock (Map_lock _) = True"
| "takes_lock (Unmap_lock _) = True"
| "takes_lock _ = False"

fun gives_lock :: "hpc \<Rightarrow> bool" where
  "gives_lock (Map_unlock _ _) = True"
| "gives_lock Unmap_unlock = True"
| "gives_lock _ = False"

text \<open>Between the lock and the unlock.\<close>

fun in_section :: "hpc \<Rightarrow> bool" where
  "in_section (Map_search _) = True"
| "in_section (Map_free _ _) = True"
| "in_section (Map_use _ _) = True"
| "in_section (Map_remove _ _) = True"
| "in_section (Map_unlock _ _) = True"
| "in_section (Unmap_insert _) = True"
| "in_section (Unmap_clear _) = True"
| "in_section (Unmap_free _) = True"
| "in_section (Unmap_use _) = True"
| "in_section Unmap_unlock = True"
| "in_section _ = False"

definition lock_after :: "('p \<Rightarrow> bool) \<Rightarrow> ('p \<Rightarrow> bool) \<Rightarrow> 'u \<Rightarrow> 'p \<Rightarrow> 'u option \<Rightarrow> 'u option" where
  "lock_after takes gives u pc l = (if takes pc then Some u else if gives pc then None else l)"

text \<open>
  A program uses the lock properly when the section begins with taking it, ends with releasing it,
  and is entered and left in no other way.
\<close>

locale spin_locked =
  fixes step :: "'u \<Rightarrow> 'p \<Rightarrow> 's \<Rightarrow> ('p \<times> 's) option"
    and takes gives sec :: "'p \<Rightarrow> bool"
  assumes takes_out: "takes pc \<Longrightarrow> \<not> sec pc"
    and gives_in: "gives pc \<Longrightarrow> sec pc"
    and step_sec: "step u pc s = Some (pc', s') \<Longrightarrow>
      sec pc' \<longleftrightarrow> takes pc \<or> sec pc \<and> \<not> gives pc"
begin

definition mutex :: "'u option \<Rightarrow> ('u \<Rightarrow> 'p) \<Rightarrow> bool" where
  "mutex l pcs \<longleftrightarrow> (\<forall>u. l = Some u \<longleftrightarrow> sec (pcs u))"

lemma mutex_step:
  assumes "mutex l pcs" and "step u (pcs u) s = Some (pc', s')" and "takes (pcs u) \<Longrightarrow> l = None"
  shows "mutex (lock_after takes gives u (pcs u) l) (pcs(u := pc'))"
proof -
  have m: "l = Some v \<longleftrightarrow> sec (pcs v)" for v using assms(1) by (simp add: mutex_def)
  have "lock_after takes gives u (pcs u) l = Some v \<longleftrightarrow> sec ((pcs(u := pc')) v)" for v
    using m [of u] m [of v] assms(3) takes_out [of "pcs u"] gives_in [of "pcs u"] step_sec [OF assms(2)]
    by (cases "v = u") (auto simp: lock_after_def)
  then show ?thesis by (simp add: mutex_def)
qed

lemma mutex_unique: "mutex l pcs \<Longrightarrow> sec (pcs u) \<Longrightarrow> sec (pcs v) \<Longrightarrow> u = v"
  unfolding mutex_def by (metis option.inject)

lemma mutex_free: "mutex None pcs \<Longrightarrow> \<not> sec (pcs u)"
  by (auto simp: mutex_def)

end

lemma hstep_cases_sec:
  "hstep E u pc s = Some (pc', s') \<Longrightarrow> in_section pc' \<longleftrightarrow> takes_lock pc \<or> in_section pc \<and> \<not> gives_lock pc"
  by (cases pc)
    (auto simp: hreply_def srv_call_eq bind_eq_Some_conv Let_def split: option.splits if_splits)

interpretation res_lock: spin_locked "hstep E" takes_lock gives_lock in_section for E
proof (unfold_locales, goal_cases)
  case (1 pc)
  then show ?case by (cases pc) simp_all
next
  case (2 pc)
  then show ?case by (cases pc) simp_all
next
  case (3 u pc s pc' s')
  then show ?case by (rule hstep_cases_sec)
qed

section \<open>Steps of the whole server\<close>

record threads =
  th_server :: server_state
  th_lock :: "uid option"
  th_pc :: "uid \<Rightarrow> hpc"

text \<open>
  A completion thread that is outside the handlers takes a received message; a thread inside a
  handler makes one step, which waits for the lock where the code does; the connection manager
  thread handles a connection request, in one step; and any thread may make an external call that is
  outside the handlers. A thread has steps as long as its connection is there: the completion thread
  of a connection that is freed after its queue pair could not be created is not followed further.
\<close>

inductive th_step :: "env \<Rightarrow> threads \<Rightarrow> threads \<Rightarrow> bool" for E where
  receive: "th_pc x u = Idle \<Longrightarrow> sv_units (th_server x) u \<noteq> None \<Longrightarrow>
    wc_status wc = IBV_WC_SUCCESS \<Longrightarrow> wc_opcode wc = IBV_WC_RECV \<Longrightarrow>
    s' = deliver E wc u (th_server x) \<Longrightarrow> hdispatch E u s' = Some pc' \<Longrightarrow>
    th_step E x \<lparr>th_server = s', th_lock = th_lock x, th_pc = (th_pc x)(u := pc')\<rparr>"
| run: "hstep E u (th_pc x u) (th_server x) = Some (pc', s') \<Longrightarrow>
    (takes_lock (th_pc x u) \<Longrightarrow> th_lock x = None) \<Longrightarrow>
    th_step E x \<lparr>th_server = s', th_lock = lock_after takes_lock gives_lock u (th_pc x u) (th_lock x),
      th_pc = (th_pc x)(u := pc')\<rparr>"
| connect: "sv_units (th_server x) (env_ptr E (Calloc_struct Rpmem_server_unit # sv_trace (th_server x))) = None \<Longrightarrow>
    rpmem_connect_request_handler E ev (th_server x) = Some s' \<Longrightarrow> th_step E x \<lparr>th_server = s', th_lock = th_lock x, th_pc = th_pc x\<rparr>"
| external: "th_step E x \<lparr>th_server = set_trace (c # sv_trace (th_server x)) (th_server x), th_lock = th_lock x,
      th_pc = th_pc x\<rparr>"

inductive th_reach :: "env \<Rightarrow> threads \<Rightarrow> threads \<Rightarrow> bool" for E x0 where
  start: "th_reach E x0 x0"
| step: "th_reach E x0 x \<Longrightarrow> th_step E x x' \<Longrightarrow> th_reach E x0 x'"

lemma th_reach_trans: "th_reach E x1 x2 \<Longrightarrow> th_reach E x0 x1 \<Longrightarrow> th_reach E x0 x2"
  by (induction rule: th_reach.induct) (auto intro: th_reach.intros)

definition all_idle :: "server_state \<Rightarrow> threads" where
  "all_idle s = \<lparr>th_server = s, th_lock = None, th_pc = (\<lambda>_. Idle)\<rparr>"

section \<open>The end of a critical section\<close>

text \<open>What is left to do in the critical section once its decision has been made.\<close>

fun finish :: "uid \<Rightarrow> hpc \<Rightarrow> server_state \<Rightarrow> server_state" where
  "finish u (Map_free r len) s =
     upd_server (\<lambda>sv. sv\<lparr>srv_free_size := srv_free_size sv - int_size (sv_resources s r),
       srv_in_use_size := srv_in_use_size sv + int_size (sv_resources s r),
       srv_res_list := remove1 r (srv_res_list sv)\<rparr>) s"
| "finish u (Map_use r len) s =
     upd_server (\<lambda>sv. sv\<lparr>srv_in_use_size := srv_in_use_size sv + int_size (sv_resources s r),
       srv_res_list := remove1 r (srv_res_list sv)\<rparr>) s"
| "finish u (Map_remove r len) s = upd_server (\<lambda>sv. sv\<lparr>srv_res_list := remove1 r (srv_res_list sv)\<rparr>) s"
| "finish u (Unmap_clear r) s =
     upd_server (\<lambda>sv. sv\<lparr>srv_free_size := srv_free_size sv + int_size (sv_resources s r),
       srv_in_use_size := srv_in_use_size sv - int_size (sv_resources s r)\<rparr>)
       (upd_unit u (\<lambda>un. un\<lparr>unit_res := None\<rparr>) s)"
| "finish u (Unmap_free r) s =
     upd_server (\<lambda>sv. sv\<lparr>srv_free_size := srv_free_size sv + int_size (sv_resources s r),
       srv_in_use_size := srv_in_use_size sv - int_size (sv_resources s r)\<rparr>) s"
| "finish u (Unmap_use r) s =
     upd_server (\<lambda>sv. sv\<lparr>srv_in_use_size := srv_in_use_size sv - int_size (sv_resources s r)\<rparr>) s"
| "finish u pc s = s"

lemma finish_out: "\<not> in_section pc \<Longrightarrow> finish u pc s = s"
  by (cases pc) simp_all

definition settled :: "threads \<Rightarrow> server_state" where
  "settled x = (case th_lock x of None \<Rightarrow> th_server x | Some u \<Rightarrow> finish u (th_pc x u) (th_server x))"

text \<open>What the pool consists of; the rest of the state has no influence on it.\<close>

definition same_pool :: "server_state \<Rightarrow> server_state \<Rightarrow> bool" where
  "same_pool s s' \<longleftrightarrow> same_counts s s' \<and> owner s' = owner s"

lemma same_pool_refl [simp]: "same_pool s s"
  by (simp add: same_pool_def same_counts_def)

lemma same_pool_inv: "same_pool s s' \<Longrightarrow> pool_inv s \<Longrightarrow> pool_inv s'"
  by (auto simp: same_pool_def elim: pool_inv_mono)

lemma same_pool_abs: "same_pool s s' \<Longrightarrow> abs_pool s' = abs_pool s"
  by (simp add: same_pool_def same_counts_def abs_pool_def)

lemma owner_upd_server [simp]: "owner (upd_server f s) = owner s"
  by (simp add: owner_def fun_eq_iff)

lemma owner_upd_res_none: "owner (upd_unit u (\<lambda>un. un\<lparr>unit_res := None\<rparr>) s) = (owner s)(u := None)"
  by (cases "sv_units s u") (auto simp: owner_def fun_eq_iff)

lemma finish_same_pool: "same_pool s s' \<Longrightarrow> same_pool (finish u pc s) (finish u pc s')"
  by (cases pc) (auto simp: same_pool_def same_counts_def avail_def int_size_def owner_upd_res_none)

lemma connect_same_pool:
  assumes "connect_effect u s s'" and "sv_units s u = None"
  shows "same_pool s s'"
  using connect_effect_abs [OF assms] assms(1)
  by (auto simp: same_pool_def same_counts_def abs_pool_def connect_effect_def)

section \<open>What one step of a thread does\<close>

lemma hreplyE:
  assumes "unit_ready s u"
  obtains c where "hreply E u f s = Some (Idle, replied u f c s)"
proof -
  from assms obtain c where "send_rsp E u f 0 s = Some (if env_int E (c # sv_trace s) \<noteq> 0 then -1 else 0, replied u f c s)"
    by (rule send_rspE)
  then show thesis by (intro that [of c]) (simp add: hreply_send [of E u f s 0])
qed

text \<open>
  What a thread knows between its steps: its connection holds the resource it works on (\<open>own\<close>),
  and a resource that is being taken is still, one that is being returned already on the list
  \<open>free\<close>.
\<close>

fun local_ok :: "hpc \<Rightarrow> rid option \<Rightarrow> rid list \<Rightarrow> bool" where
  "local_ok (Map_free r _) own free = (own = Some r \<and> r \<in> set free)"
| "local_ok (Map_use r _) own free = (own = Some r \<and> r \<in> set free)"
| "local_ok (Map_remove r _) own free = (own = Some r \<and> r \<in> set free)"
| "local_ok (Map_unlock (Some r) _) own free = (own = Some r)"
| "local_ok (Map_check (Some r) _) own free = (own = Some r)"
| "local_ok (Map_alloc r _) own free = (own = Some r)"
| "local_ok (Map_mmap r _) own free = (own = Some r)"
| "local_ok (Map_reg r _ _) own free = (own = Some r)"
| "local_ok (Unmap_dereg (Some r) _ _) own free = (own = Some r)"
| "local_ok (Unmap_munmap r _ _) own free = (own = Some r)"
| "local_ok (Unmap_lock r) own free = (own = Some r)"
| "local_ok (Unmap_insert r) own free = (own = Some r)"
| "local_ok (Unmap_clear r) own free = (own = Some r \<and> r \<in> set free)"
| "local_ok (Unmap_free r) own free = (r \<in> set free)"
| "local_ok _ own free = True"

lemma local_ok_option [simp]:
  "local_ok (Map_unlock res len) own free \<longleftrightarrow> (\<forall>r. res = Some r \<longrightarrow> own = Some r)"
  "local_ok (Map_check res len) own free \<longleftrightarrow> (\<forall>r. res = Some r \<longrightarrow> own = Some r)"
  "local_ok (Unmap_dereg res len' addr) own free \<longleftrightarrow> (\<forall>r. res = Some r \<longrightarrow> own = Some r)"
  by (cases res; simp)+

text \<open>The abstract operation that a step decides.\<close>

fun step_op :: "server_state \<Rightarrow> hpc \<Rightarrow> pool_op" where
  "step_op s (Map_search len) =
     (case find_res (sv_resources s) len (avail s) of None \<Rightarrow> Skip | Some r \<Rightarrow> Take r)"
| "step_op s (Unmap_insert r) = Give r"
| "step_op s _ = Skip"

lemmas hstep_simps = srv_call_eq bind_eq_Some_conv Let_def

lemma owner_unit: "sv_units s u = Some un \<Longrightarrow> owner s u = unit_res un"
  by (simp add: owner_def)

text \<open>
  A quiet step leaves the pool and the other connections alone and writes only the resource that its
  connection holds.
\<close>

definition quiet :: "uid \<Rightarrow> server_state \<Rightarrow> server_state \<Rightarrow> bool" where
  "quiet u s s' \<longleftrightarrow> sv_server s' = sv_server s \<and> owner s' = owner s \<and> isolated u s s' \<and>
     (\<forall>r. sv_resources s' r \<noteq> sv_resources s r \<longrightarrow> owner s u = Some r)"

lemma quiet_refl [simp]: "quiet u s s"
  by (simp add: quiet_def isolated_def)

lemma quiet_trace [simp]: "quiet u s (set_trace t s') = quiet u s s'"
  by (simp add: quiet_def isolated_def)

lemma quiet_res:
  "quiet u s s' \<Longrightarrow> owner s u = Some r \<Longrightarrow> (\<And>x. res_st_size (f x) = res_st_size x) \<Longrightarrow>
     quiet u s (upd_res r f s')"
  by (simp add: quiet_def isolated_def)

lemma quiet_recv:
  assumes "unit_ready s u" and "post_req_recv E u s = Some (err, s')"
  shows "quiet u s s'"
proof -
  from assms(1) obtain c where
    "post_req_recv E u s = Some (if env_int E (c # sv_trace s) \<noteq> 0 then -1 else 0, rearmed u c s)"
    by (rule post_req_recvE)
  with assms show ?thesis by (auto simp: quiet_def isolated_def)
qed

lemma quiet_reply:
  assumes "unit_ready s u" and "hreply E u f s = Some (pc', s')" and "\<And>m. wf_cmd m \<Longrightarrow> wf_cmd (f m)"
  shows "quiet u s s'"
proof -
  from assms(1) obtain c where "hreply E u f s = Some (Idle, replied u f c s)" by (rule hreplyE)
  with assms show ?thesis by (auto simp: quiet_def isolated_def)
qed

lemma same_pool_quiet: "quiet u s s' \<Longrightarrow> same_pool s s'"
  by (auto simp: quiet_def same_pool_def isolated_def)

lemma hstep_quiet:
  assumes h: "hstep E u pc s = Some (pc', s')" and r: "unit_ready s u" and l: "local_ok pc (owner s u) (avail s)"
    and q: "in_section pc \<Longrightarrow> gives_lock pc"
  shows "quiet u s s'"
  using h l q quiet_recv [OF r, of E] quiet_reply [OF r, of E]
  by (cases pc) (auto simp: hstep_simps intro!: quiet_res split: option.splits if_splits)

text \<open>A step inside the section that does not leave it; its effect shows once the section is finished.\<close>

lemma hstep_section:
  assumes h: "hstep E u pc s = Some (pc', s')" and r: "unit_ready s u" and l: "local_ok pc (owner s u) (avail s)"
    and q: "in_section pc" "\<not> gives_lock pc"
  shows "sv_resources s' = sv_resources s" and "isolated u s s'"
    and "\<forall>v. v \<noteq> u \<longrightarrow> owner s' v = owner s v"
    and "finish u pc' s' =
      (case step_op s pc of Skip \<Rightarrow> finish u pc s | Take q \<Rightarrow> taken u q (finish u pc s)
       | Give q \<Rightarrow> pool_give u q (finish u pc s))"
    and "pool_allowed (step_op s pc) u (abs_pool (finish u pc s))"
proof -
  obtain un where un: "sv_units s u = Some un" using unit_ready_valid [OF r] by blast
  show "sv_resources s' = sv_resources s"
    using h q by (cases pc) (auto simp: hstep_simps split: option.splits)
  show "isolated u s s'"
    using h q un r
    by (cases pc) (auto simp: hstep_simps isolated_def unit_ready_def split: option.splits if_splits)
  show "\<forall>v. v \<noteq> u \<longrightarrow> owner s' v = owner s v"
    using h q by (cases pc) (auto simp: hstep_simps owner_def split: option.splits)
  show "finish u pc' s' =
      (case step_op s pc of Skip \<Rightarrow> finish u pc s | Take q \<Rightarrow> taken u q (finish u pc s)
       | Give q \<Rightarrow> pool_give u q (finish u pc s))"
    using h q un l
    by (cases pc) (auto simp: hstep_simps avail_def taken_def pool_give_def upd_defs slist_remove_in split: option.splits)
  show "pool_allowed (step_op s pc) u (abs_pool (finish u pc s))"
    using h q l find_res_in by (cases pc) (auto simp: abs_pool_def split: option.splits)
qed

lemma hstep_local_ok:
  assumes h: "hstep E u pc s = Some (pc', s')" and r: "unit_ready s u" and l: "local_ok pc (owner s u) (avail s)"
  shows "local_ok pc' (owner s' u) (avail s')"
proof (cases "in_section pc \<and> \<not> gives_lock pc")
  case True
  obtain un where un: "sv_units s u = Some un" using unit_ready_valid [OF r] by blast
  from True h un l show ?thesis
    by (cases pc) (auto simp: hstep_simps owner_def avail_def dest: find_res_in split: option.splits)
next
  case False
  then have q: "quiet u s s'" using hstep_quiet [OF h r l] by blast
  obtain un where un: "sv_units s u = Some un" using unit_ready_valid [OF r] by blast
  have o: "owner s' u = owner s u" using q by (simp add: quiet_def)
  have "local_ok pc' (owner s u) (avail s')"
    using False h l un
    by (cases pc)
      (auto simp: hstep_simps hreply_def owner_unit split: option.splits if_splits)
  with o show ?thesis by simp
qed

section \<open>The invariant of the threads\<close>

definition th_inv :: "threads \<Rightarrow> bool" where
  "th_inv x \<longleftrightarrow>
     res_lock.mutex (th_lock x) (th_pc x) \<and>
     (\<forall>u. th_pc x u \<noteq> Idle \<longrightarrow> sv_units (th_server x) u \<noteq> None) \<and>
     (\<forall>u. local_ok (th_pc x u) (owner (th_server x) u) (avail (th_server x))) \<and>
     units_inv (th_server x) \<and> pool_inv (settled x)"

lemma local_ok_avail: "\<not> in_section pc \<Longrightarrow> local_ok pc own F \<Longrightarrow> local_ok pc own F'"
  by (cases "(pc, own, F)" rule: local_ok.cases) simp_all

lemma th_invD:
  assumes "th_inv x"
  shows "th_lock x = Some u \<longleftrightarrow> in_section (th_pc x u)"
    and "local_ok (th_pc x u) (owner (th_server x) u) (avail (th_server x))"
    and "th_pc x u \<noteq> Idle \<Longrightarrow> unit_ready (th_server x) u"
  using assms by (auto simp: th_inv_def units_inv_def res_lock.mutex_def)

text \<open>The pool that is being settled moves by whole operations.\<close>

definition pool_does :: "pool_op \<Rightarrow> uid \<Rightarrow> server_state \<Rightarrow> server_state \<Rightarrow> bool" where
  "pool_does opn u s s' \<longleftrightarrow>
     (case opn of Skip \<Rightarrow> same_pool s s'
      | Take r \<Rightarrow> r \<in> set (avail s) \<and> sv_units s u \<noteq> None \<and> s' = taken u r s
      | Give r \<Rightarrow> owner s u = Some r \<and> s' = pool_give u r s)"

lemma pool_does_inv: "pool_does opn u s s' \<Longrightarrow> pool_inv s \<Longrightarrow> pool_inv s'"
  by (auto simp: pool_does_def intro: same_pool_inv taken_inv give_inv split: pool_op.splits)

lemma pool_does_abs:
  assumes "pool_does opn u s s'"
  shows "pool_allowed opn u (abs_pool s)" and "abs_pool s' = pool_apply opn u (abs_pool s)"
  using assms
  by (auto simp: pool_does_def abs_pool_def same_pool_def same_counts_def owner_taken owner_give fun_eq_iff
      split: pool_op.splits)

lemma pool_does_const:
  assumes "pool_does opn u s s'"
  shows "srv_total_size (sv_server s') = srv_total_size (sv_server s)"
    and "int_size (sv_resources s' r) = int_size (sv_resources s r)"
  using assms by (auto simp: pool_does_def same_pool_def same_counts_def int_size_def split: pool_op.splits)

lemma finish_valid [simp]: "sv_units (finish u pc s) v = None \<longleftrightarrow> sv_units s v = None"
  by (cases pc) simp_all

lemma hstep_moves:
  assumes h: "hstep E u pc s = Some (pc', s')" and r: "unit_ready s u" and l: "local_ok pc (owner s u) (avail s)"
  shows "pool_does (step_op s pc) u (finish u pc s) (finish u pc' s')"
proof (cases "in_section pc \<and> \<not> gives_lock pc")
  case True
  then have q: "in_section pc" "\<not> gives_lock pc" by simp_all
  from hstep_section(4,5) [OF h r l q] unit_ready_valid [OF r] show ?thesis
    by (cases "step_op s pc") (auto simp: pool_does_def abs_pool_def)
next
  case False
  then have "quiet u s s'" using hstep_quiet [OF h r l] by blast
  moreover have "finish u pc s = s" using False by (cases pc) simp_all
  moreover have "finish u pc' s' = s'" using False h
    by (cases pc) (auto simp: hstep_simps hreply_def split: option.splits if_splits)
  moreover have "step_op s pc = Skip" using False by (cases pc) simp_all
  ultimately show ?thesis by (simp add: pool_does_def same_pool_quiet)
qed

lemma run_moves:
  assumes inv: "th_inv x" and h: "hstep E u (th_pc x u) (th_server x) = Some (pc', s')"
    and b: "takes_lock (th_pc x u) \<Longrightarrow> th_lock x = None"
    and x': "x' = \<lparr>th_server = s', th_lock = lock_after takes_lock gives_lock u (th_pc x u) (th_lock x),
      th_pc = (th_pc x)(u := pc')\<rparr>"
  shows "pool_does (step_op (th_server x) (th_pc x u)) u (settled x) (settled x')"
proof -
  let ?pc = "th_pc x u" and ?s = "th_server x"
  have r: "unit_ready ?s u" using h th_invD(3) [OF inv, of u] by (cases ?pc) auto
  note mv = hstep_moves [OF h r th_invD(2) [OF inv]]
  note m = th_invD(1) [OF inv, of u]
  have sec: "in_section pc' \<longleftrightarrow> takes_lock ?pc \<or> in_section ?pc \<and> \<not> gives_lock ?pc"
    by (rule hstep_cases_sec [OF h])
  show ?thesis
  proof (cases "in_section ?pc \<or> takes_lock ?pc")
    case True
    then have "settled x = finish u ?pc ?s" using m b finish_out [of ?pc u ?s]
      by (auto simp: settled_def)
    moreover have "settled x' = finish u pc' s'"
      using True m sec finish_out [of pc' u s'] by (auto simp: settled_def x' lock_after_def)
    ultimately show ?thesis using mv by simp
  next
    case False
    then have "\<not> gives_lock ?pc" by (cases ?pc) simp_all
    with False have l: "th_lock x' = th_lock x" by (simp add: x' lock_after_def)
    have "same_pool ?s s'"
      using False hstep_quiet [OF h r th_invD(2) [OF inv]] same_pool_quiet by blast
    moreover have "th_pc x' v = th_pc x v" if "th_lock x = Some v" for v
      using that m False by (auto simp: x')
    ultimately have "same_pool (settled x) (settled x')"
      using l by (auto simp: settled_def x' intro: finish_same_pool split: option.split)
    moreover have "step_op ?s ?pc = Skip" using False by (cases ?pc) simp_all
    ultimately show ?thesis by (simp add: pool_does_def)
  qed
qed

lemma hdispatch_out:
  assumes "hdispatch E u s = Some pc"
  shows "\<not> in_section pc" and "local_ok pc own F"
  using assms by (auto simp: hdispatch_def bind_eq_Some_conv Let_def split: if_splits)

lemma run_inv:
  assumes inv: "th_inv x" and h: "hstep E u (th_pc x u) (th_server x) = Some (pc', s')"
    and b: "takes_lock (th_pc x u) \<Longrightarrow> th_lock x = None"
  shows "th_inv \<lparr>th_server = s', th_lock = lock_after takes_lock gives_lock u (th_pc x u) (th_lock x),
    th_pc = (th_pc x)(u := pc')\<rparr>" (is "th_inv ?x'")
proof -
  let ?pc = "th_pc x u" and ?s = "th_server x"
  have r: "unit_ready ?s u" using h th_invD(3) [OF inv, of u] by (cases ?pc) auto
  note l = th_invD(2) [OF inv]
  have iso: "isolated u ?s s' \<and> (\<forall>v. v \<noteq> u \<longrightarrow> owner s' v = owner ?s v) \<and>
      (avail s' = avail ?s \<or> th_lock x = Some u)"
  proof (cases "in_section ?pc \<and> \<not> gives_lock ?pc")
    case True
    then show ?thesis
      using hstep_section(2,3) [OF h r l] th_invD(1) [OF inv, of u] by simp
  next
    case False
    then have "quiet u ?s s'" using hstep_quiet [OF h r l] by blast
    then show ?thesis by (simp add: quiet_def avail_def)
  qed
  have ok: "local_ok (th_pc ?x' v) (owner s' v) (avail s')" for v
  proof (cases "v = u")
    case True
    with hstep_local_ok [OF h r l] show ?thesis by simp
  next
    case False
    with iso l [of v] th_invD(1) [OF inv, of v] show ?thesis by (auto intro: local_ok_avail)
  qed
  have m: "res_lock.mutex (th_lock ?x') (th_pc ?x')"
    using res_lock.mutex_step [of "th_lock x" "th_pc x", OF _ h] inv b by (simp add: th_inv_def)
  have "pool_inv (settled ?x')"
    using pool_does_inv [OF run_moves [OF inv h b refl]] inv by (simp add: th_inv_def)
  moreover have "units_inv s'"
    using iso inv by (auto simp: th_inv_def units_inv_def isolated_def dom_def)
  moreover have "sv_units s' v \<noteq> None" if "th_pc ?x' v \<noteq> Idle" for v
    using iso inv that unit_ready_valid [OF r] by (auto simp: th_inv_def isolated_def split: if_splits)
  ultimately show ?thesis using ok m by (simp add: th_inv_def)
qed

text \<open>The other steps leave the pool as it is.\<close>

lemma th_inv_other:
  assumes inv: "th_inv x" and sp: "same_pool (th_server x) s'" and ui: "units_inv s'"
    and pcs: "\<And>v. pcs v \<noteq> th_pc x v \<Longrightarrow>
      \<not> in_section (pcs v) \<and> \<not> in_section (th_pc x v) \<and> (\<forall>own F. local_ok (pcs v) own F)"
    and un: "\<And>v. pcs v \<noteq> Idle \<Longrightarrow> sv_units s' v \<noteq> None"
  defines "x' \<equiv> \<lparr>th_server = s', th_lock = th_lock x, th_pc = pcs\<rparr>"
  shows "th_inv x' \<and> same_pool (settled x) (settled x')"
proof -
  have "th_lock x = Some v \<Longrightarrow> pcs v = th_pc x v" for v
    using th_invD(1) [OF inv, of v] pcs [of v] by auto
  then have st: "same_pool (settled x) (settled x')"
    using sp by (auto simp: settled_def x'_def intro: finish_same_pool split: option.split)
  then have "pool_inv (settled x')" using inv same_pool_inv by (auto simp: th_inv_def)
  moreover have "th_lock x = Some v \<longleftrightarrow> in_section (pcs v)" for v
    using th_invD(1) [OF inv, of v] pcs [of v] by (cases "pcs v = th_pc x v") auto
  moreover have "owner s' = owner (th_server x)" "avail s' = avail (th_server x)"
    using sp by (simp_all add: same_pool_def same_counts_def)
  then have "local_ok (pcs v) (owner s' v) (avail s')" for v
    using th_invD(2) [OF inv, of v] pcs [of v] by (cases "pcs v = th_pc x v") auto
  ultimately have "th_inv x'" using un ui by (simp add: th_inv_def x'_def res_lock.mutex_def)
  with st show ?thesis by simp
qed

lemma th_step_moves:
  assumes "th_step E x x'" and inv: "th_inv x"
  shows "th_inv x' \<and> (same_pool (settled x) (settled x') \<or>
    (\<exists>u. th_pc x u \<noteq> Idle \<and>
      pool_does (step_op (th_server x) (th_pc x u)) u (settled x) (settled x')))"
  using assms(1)
proof cases
  case (receive u wc s' pc')
  note f = deliver_frame [of E wc u "th_server x"]
  have "same_pool (th_server x) s'" using receive by (auto simp: same_pool_def f)
  moreover have "units_inv s'"
    using inv receive by (auto simp: th_inv_def units_inv_def f dom_def intro: deliver_ready)
  ultimately have "th_inv x' \<and> same_pool (settled x) (settled x')"
    unfolding receive(1)
    by (rule th_inv_other [OF inv])
      (use inv receive hdispatch_out [OF receive(7)] in \<open>auto simp: th_inv_def f split: if_splits\<close>)
  then show ?thesis by simp
next
  case (run u pc' s')
  moreover have "th_pc x u \<noteq> Idle" using run(2) by (cases "th_pc x u") simp_all
  ultimately show ?thesis using run_inv [OF inv run(2)] run_moves [OF inv run(2)] by blast
next
  case (connect ev s')
  let ?s = "th_server x" let ?u = "env_ptr E (Calloc_struct Rpmem_server_unit # sv_trace ?s)"
  have e: "connect_effect ?u ?s s'"
    by (rule connect_handler_effect [OF connect(3)])
  have "sv_units s' v \<noteq> None" if "th_pc x v \<noteq> Idle" for v
    using inv e connect(2) that by (cases "v = ?u") (auto simp: th_inv_def connect_effect_def)
  moreover have "units_inv s'"
    using connect_effect_units [OF e _ connect(2)] inv by (simp add: th_inv_def)
  ultimately show ?thesis
    unfolding connect(1)
    using th_inv_other [OF inv connect_same_pool [OF e connect(2)]] by blast
next
  case (external c)
  have "same_pool (th_server x) (set_trace (c # sv_trace (th_server x)) (th_server x))"
    by (auto simp: same_pool_def)
  then have "th_inv x' \<and> same_pool (settled x) (settled x')"
    unfolding external
    by (rule th_inv_other [OF inv]) (use inv in \<open>auto simp: th_inv_def units_inv_def\<close>)
  then show ?thesis by simp
qed

lemma all_idle_inv: "server_inv s \<Longrightarrow> th_inv (all_idle s)"
  by (simp add: th_inv_def all_idle_def res_lock.mutex_def server_inv_iff settled_def)

lemma th_reach_inv: "th_reach E x0 x \<Longrightarrow> th_inv x0 \<Longrightarrow> th_inv x"
  by (induction rule: th_reach.induct) (auto dest: th_step_moves)

end
