(* ===== verification/Server_Concurrency.thy ===== *)
theory Server_Concurrency
  imports Server_Interleaving
begin

text \<open>
  What the interleaved server guarantees: a resource has one user at every instant, also inside
  the critical sections; a thread writes only the resource of its connection; the lock is always
  released; the size that the open handler reads without the lock is a size the pool really had;
  and the runs in which handlers are not interrupted, those of \<open>Server_System\<close>, are among the
  interleaved ones.
\<close>

section \<open>One user at every instant\<close>

definition users_exclusive :: "server_state \<Rightarrow> bool" where
  "users_exclusive s \<longleftrightarrow> distinct (avail s) \<and> (\<forall>u v r. owner s u = Some r \<longrightarrow> owner s v = Some r \<longrightarrow> u = v)"

lemma distinct_remove1_back: "distinct (remove1 r xs) \<Longrightarrow> r \<notin> set (remove1 r xs) \<Longrightarrow> distinct xs"
  by (induction xs) (auto split: if_splits)

lemma users_exclusive_take:
  assumes "pool_exclusive s'" and "owner s' = owner s" and "avail s' = remove1 r (avail s)" and "owner s u = Some r"
  shows "users_exclusive s"
  using assms distinct_remove1_back [of r "avail s"] unfolding pool_exclusive_def users_exclusive_def by metis

lemma users_exclusive_give:
  assumes "pool_exclusive s'" and "owner s' = (owner s)(u := None)" and "avail s' = avail s"
    and "owner s u = Some r" and "r \<in> set (avail s)"
  shows "users_exclusive s"
proof -
  have o: "owner s' v = owner s v" if "v \<noteq> u" for v using assms(2) that by simp
  have n: "owner s v \<noteq> Some r" if "v \<noteq> u" for v
    using o [OF that] assms(1,3,5) unfolding pool_exclusive_def by metis
  have "v = w" if "owner s v = Some q" "owner s w = Some q" for v w q
  proof (cases "v = u \<or> w = u")
    case True
    with that n assms(4) show ?thesis by (metis option.inject)
  next
    case False
    with that o assms(1) show ?thesis unfolding pool_exclusive_def by metis
  qed
  with assms(1,3) show ?thesis by (auto simp: users_exclusive_def pool_exclusive_def)
qed

lemma finish_users:
  assumes "local_ok pc (owner s u) (avail s)" and "pool_exclusive (finish u pc s)"
  shows "users_exclusive s"
proof -
  consider "owner (finish u pc s) = owner s" "avail (finish u pc s) = avail s"
    | r where "owner (finish u pc s) = owner s" "avail (finish u pc s) = remove1 r (avail s)" "owner s u = Some r"
    | r where "owner (finish u pc s) = (owner s)(u := None)" "avail (finish u pc s) = avail s"
        "owner s u = Some r" "r \<in> set (avail s)"
    using assms(1) by (cases pc) (auto simp: avail_def owner_upd_res_none)
  then show ?thesis
  proof cases
    case 1
    with assms(2) show ?thesis by (auto simp: users_exclusive_def pool_exclusive_def)
  next
    case (2 r)
    with assms(2) show ?thesis by (blast intro: users_exclusive_take)
  next
    case (3 r)
    with assms(2) show ?thesis by (blast intro: users_exclusive_give)
  qed
qed

lemma th_inv_users:
  assumes "th_inv x"
  shows "users_exclusive (th_server x)"
proof (cases "th_lock x")
  case None
  with assms show ?thesis
    by (auto simp: th_inv_def settled_def pool_inv_def users_exclusive_def pool_exclusive_def)
next
  case (Some u)
  with assms have "pool_exclusive (finish u (th_pc x u) (th_server x))"
    by (simp add: th_inv_def settled_def pool_inv_def)
  with th_invD(2) [OF assms] show ?thesis by (rule finish_users)
qed

text \<open>Outside the critical sections of its own thread, the resource of a connection is not on the list.\<close>

lemma th_inv_not_free:
  assumes inv: "th_inv x" and o: "owner (th_server x) u = Some r" and u: "\<not> in_section (th_pc x u)"
  shows "r \<notin> set (avail (th_server x))"
proof (cases "th_lock x")
  case None
  with inv o show ?thesis by (auto simp: th_inv_def settled_def pool_inv_def pool_exclusive_def)
next
  case (Some v)
  let ?s = "th_server x" and ?f = "finish v (th_pc x v) (th_server x)"
  have "u \<noteq> v" using Some th_invD(1) [OF inv, of v] u by auto
  then have "owner ?f u = Some r" using o by (cases "th_pc x v") (auto simp: owner_upd_res_none)
  moreover have "pool_exclusive ?f" using inv Some by (simp add: th_inv_def settled_def pool_inv_def)
  ultimately have "r \<notin> set (avail ?f)" by (auto simp: pool_exclusive_def)
  moreover have "q \<in> set (avail ?f) \<or> owner ?s v = Some q" if "q \<in> set (avail ?s)" for q
    using th_invD(2) [OF inv, of v] that by (cases "th_pc x v") (auto simp: avail_def)
  moreover have "owner ?s v \<noteq> Some r"
    using th_inv_users [OF inv] o \<open>u \<noteq> v\<close> by (auto simp: users_exclusive_def)
  ultimately show ?thesis by blast
qed

section \<open>The lock is released\<close>

text \<open>The steps left until the lock is free.\<close>

fun section_left :: "hpc \<Rightarrow> nat" where
  "section_left (Map_search _) = 5"
| "section_left (Map_free _ _) = 4"
| "section_left (Map_use _ _) = 3"
| "section_left (Map_remove _ _) = 2"
| "section_left (Map_unlock _ _) = 1"
| "section_left (Unmap_insert _) = 5"
| "section_left (Unmap_clear _) = 4"
| "section_left (Unmap_free _) = 3"
| "section_left (Unmap_use _) = 2"
| "section_left Unmap_unlock = 1"
| "section_left _ = 0"

lemma section_left_pos: "in_section pc \<longleftrightarrow> 0 < section_left pc" and section_left_le: "section_left pc \<le> 5"
  by (cases pc; simp)+

lemma hstep_progress:
  assumes "in_section pc" and "local_ok pc (owner s u) (avail s)"
  obtains pc' s' where "hstep E u pc s = Some (pc', s')" "section_left pc' < section_left pc"
proof -
  have "\<exists>pc' s'. hstep E u pc s = Some (pc', s') \<and> section_left pc' < section_left pc"
    using assms by (cases pc) (auto simp: avail_def slist_remove_in split: option.split)
  then show thesis using that by blast
qed

text \<open>Steps of the thread of \<open>u\<close> alone.\<close>

inductive runs_alone :: "env \<Rightarrow> uid \<Rightarrow> nat \<Rightarrow> threads \<Rightarrow> threads \<Rightarrow> bool" for E u where
  none: "runs_alone E u 0 x x"
| more: "th_step E x x' \<Longrightarrow> (\<And>v. v \<noteq> u \<Longrightarrow> th_pc x' v = th_pc x v) \<Longrightarrow> th_pc x u \<noteq> Idle \<Longrightarrow>
    runs_alone E u n x' x'' \<Longrightarrow> runs_alone E u (Suc n) x x''"

lemma section_ends:
  "th_inv x \<Longrightarrow> th_lock x = Some u \<Longrightarrow>
     \<exists>n\<le> section_left (th_pc x u). \<exists>x'. runs_alone E u n x x' \<and> th_lock x' = None \<and> th_inv x'"
proof (induction "section_left (th_pc x u)" arbitrary: x rule: less_induct)
  case less
  have sec: "in_section (th_pc x u)" using less.prems th_invD(1) by blast
  obtain pc' s' where h: "hstep E u (th_pc x u) (th_server x) = Some (pc', s')"
    and d: "section_left pc' < section_left (th_pc x u)"
    using hstep_progress [OF sec th_invD(2) [OF less.prems(1)]] by blast
  define x' where "x' = \<lparr>th_server = s', th_lock = lock_after takes_lock gives_lock u (th_pc x u) (th_lock x),
      th_pc = (th_pc x)(u := pc')\<rparr>"
  have nt: "\<not> takes_lock (th_pc x u)" using sec by (cases "th_pc x u") simp_all
  then have st: "th_step E x x'" unfolding x'_def using h by (intro th_step.run) simp_all
  have inv': "th_inv x'" using th_step_moves [OF st less.prems(1)] by simp
  have first: "runs_alone E u (Suc n) x y" if "runs_alone E u n x' y" for n y
    using st _ _ that by (rule runs_alone.more) (use sec in \<open>auto simp: x'_def\<close>)
  show ?case
  proof (cases "th_lock x' = None")
    case True
    with first [OF runs_alone.none] inv' d show ?thesis by (intro exI [of _ 1] exI [of _ x']) auto
  next
    case False
    then have l: "th_lock x' = Some u" using nt less.prems(2) by (auto simp: x'_def lock_after_def split: if_splits)
    have "section_left (th_pc x' u) < section_left (th_pc x u)" using d by (simp add: x'_def)
    from less.hyps [OF this inv' l] obtain n y where n: "n \<le> section_left (th_pc x' u)" "runs_alone E u n x' y"
      "th_lock y = None" "th_inv y" by blast
    with first [OF n(2)] d show ?thesis by (intro exI [of _ "Suc n"] exI [of _ y]) (auto simp: x'_def)
  qed
qed

lemma hstep_moves_on: "hstep E u pc s = Some (pc', s') \<Longrightarrow> pc' \<noteq> pc"
  by (cases pc) (auto simp: hstep_simps hreply_def split: option.splits if_splits)

section \<open>The size read without the lock\<close>

lemma single_free_size:
  assumes inv: "th_inv x" and sg: "single_server (settled x)"
  shows "srv_free_size (sv_server (th_server x)) \<in> {0, srv_total_size (sv_server (th_server x))}"
proof -
  have free: "srv_free_size (sv_server s) = (if avail s = [] then 0 else srv_total_size (sv_server s))"
    and one: "owner s v = Some r \<Longrightarrow> avail s = [] \<and> r = 0" "r \<in> set (avail s) \<Longrightarrow> r = 0"
    if "pool_inv s" "single_server s" for s v r
    using that
    by (auto simp: single_server_def single_pool_def abs_pool_def pool_inv_def pool_accounts_def sizes_def
        split: if_splits)
  show ?thesis
  proof (cases "th_lock x")
    case None
    with inv sg free [of "th_server x"] show ?thesis by (simp add: th_inv_def settled_def)
  next
    case (Some u)
    let ?s = "th_server x"
    let ?f = "finish u (th_pc x u) ?s"
    have f: "pool_inv ?f" "single_server ?f" using inv sg Some by (simp_all add: th_inv_def settled_def)
    have tot: "srv_total_size (sv_server ?s) = int_size (sv_resources ?s 0)"
      using f(2) by (cases "th_pc x u") (simp_all add: single_server_def)
    have z: "set (srv_res_list (sv_server ?f)) \<subseteq> {0}" using one(2) [OF f] by (auto simp: avail_def)
    show ?thesis
      using free [OF f] one(1) [OF f] z th_invD(2) [OF inv, of u] tot
      by (cases "th_pc x u") (auto simp: avail_def split: if_splits)
  qed
qed

lemma single_server_does:
  assumes "pool_does opn u s s'" and "single_server s"
  shows "single_server s'"
  using assms pool_does_abs [OF assms(1)] pool_does_const [OF assms(1)]
  by (auto simp: single_server_def intro: single_pool_apply)

lemma single_server_same: "same_pool s s' \<Longrightarrow> single_server s \<Longrightarrow> single_server s'"
  using single_server_does [of Skip] by (simp add: pool_does_def)

lemma th_step_single: "th_step E x x' \<Longrightarrow> th_inv x \<Longrightarrow> single_server (settled x) \<Longrightarrow> single_server (settled x')"
  using th_step_moves [of E x x'] by (auto intro: single_server_same single_server_does)

lemma same_pool_const: "same_pool s s' \<Longrightarrow> srv_total_size (sv_server s') = srv_total_size (sv_server s)"
  by (simp add: same_pool_def same_counts_def)

text \<open>The sizes the threads have read for their replies.\<close>

fun read_size :: "hpc \<Rightarrow> cint option" where
  "read_size (Open_recv sz) = Some sz"
| "read_size (Open_reply sz) = Some sz"
| "read_size _ = None"

definition sizes_ok :: "threads \<Rightarrow> bool" where
  "sizes_ok x \<longleftrightarrow> (\<forall>u sz. read_size (th_pc x u) = Some sz \<longrightarrow> sz \<in> {0, srv_total_size (sv_server (th_server x))})"

lemma hstep_total: "hstep E u pc s = Some (pc', s') \<Longrightarrow> unit_ready s u \<Longrightarrow> local_ok pc (owner s u) (avail s) \<Longrightarrow>
    srv_total_size (sv_server s') = srv_total_size (sv_server s)"
  using hstep_quiet [of E u pc s pc' s'] hstep_section(2) [of E u pc s pc' s']
  by (auto simp: quiet_def isolated_def)

lemma hstep_read:
  "hstep E u pc s = Some (pc', s') \<Longrightarrow> read_size pc' = Some sz \<Longrightarrow>
     read_size pc = Some sz \<or> sz = srv_free_size (sv_server s)"
  by (cases pc) (auto simp: hstep_simps hreply_def split: option.splits if_splits)

lemma hdispatch_read: "hdispatch E u s = Some pc \<Longrightarrow> read_size pc = None"
  by (auto simp: hdispatch_def bind_eq_Some_conv Let_def split: if_splits)

lemma th_step_sizes:
  assumes "th_step E x x'" and inv: "th_inv x" "single_server (settled x)" and ok: "sizes_ok x"
  shows "sizes_ok x'"
  using assms(1)
proof cases
  case (receive u wc s' pc')
  then show ?thesis using ok hdispatch_read [OF receive(7)] by (auto simp: sizes_ok_def deliver_frame)
next
  case (run u pc' s')
  have r: "unit_ready (th_server x) u" using run(2) th_invD(3) [OF inv(1), of u] by (cases "th_pc x u") auto
  have "srv_total_size (sv_server s') = srv_total_size (sv_server (th_server x))"
    by (rule hstep_total [OF run(2) r th_invD(2) [OF inv(1)]])
  then show ?thesis using ok hstep_read [OF run(2)] single_free_size [OF inv] run(1) by (fastforce simp: sizes_ok_def)
next
  case (connect ev s')
  let ?u = "env_ptr E (Calloc_struct Rpmem_server_unit # sv_trace (th_server x))"
  have "connect_effect ?u (th_server x) s'"
    by (rule connect_handler_effect [OF connect(3)])
  from connect_same_pool [OF this connect(2)] ok show ?thesis
    by (simp add: connect(1) sizes_ok_def same_pool_const)
next
  case (external c)
  then show ?thesis using ok by (simp add: sizes_ok_def)
qed

lemma fresh_th_reach:
  assumes "th_reach E (all_idle s0) x" and "fresh_server s0"
  shows "th_inv x \<and> single_server (settled x) \<and> sizes_ok x"
  using assms
proof (induction rule: th_reach.induct)
  case start
  then show ?case using fresh_server_inv [of s0] all_idle_inv [of s0]
    by (simp add: settled_def all_idle_def sizes_ok_def)
next
  case (step x x')
  then show ?case using th_step_moves [of E x x'] th_step_single [of E x x'] th_step_sizes [of E x x'] by blast
qed

section \<open>Uninterrupted runs\<close>

definition alone :: "uid \<Rightarrow> hpc \<Rightarrow> server_state \<Rightarrow> threads" where
  "alone u pc s = \<lparr>th_server = s, th_lock = (if in_section pc then Some u else None), th_pc = (\<lambda>_. Idle)(u := pc)\<rparr>"

lemma alone_idle: "alone u Idle s = all_idle s"
  by (simp add: alone_def all_idle_def fun_upd_idem)

lemma alone_step:
  assumes "hstep E u pc s = Some (pc', s')"
  shows "th_step E (alone u pc s) (alone u pc' s')"
proof -
  have "takes_lock pc \<Longrightarrow> \<not> in_section pc" "gives_lock pc \<Longrightarrow> in_section pc" by (cases pc; simp)+
  then show ?thesis
    using th_step.run [of E u "alone u pc s" pc' s'] assms hstep_cases_sec [OF assms]
    by (auto simp: alone_def lock_after_def split: if_splits)
qed

lemma hrun_reach: "hrun E u n pc s = Some (pc', s') \<Longrightarrow> th_reach E (alone u pc s) (alone u pc' s')"
proof (induction n arbitrary: pc s)
  case 0
  then show ?case by (simp add: th_reach.start)
next
  case (Suc n)
  show ?case
  proof (cases "pc = Idle")
    case True
    with Suc.prems show ?thesis by (simp add: th_reach.start)
  next
    case False
    with Suc.prems obtain pc1 s1 where h: "hstep E u pc s = Some (pc1, s1)" "hrun E u n pc1 s1 = Some (pc', s')"
      by (auto simp: bind_eq_Some_conv)
    show ?thesis
      by (rule th_reach_trans [OF Suc.IH [OF h(2)]]) (rule th_reach.step [OF th_reach.start alone_step [OF h(1)]])
  qed
qed

lemma completion_interleaved:
  assumes "server_handle_wc E wc u (deliver E wc u s) = Some s'" and u: "sv_units s u \<noteq> None"
  shows "th_reach E (all_idle s) (all_idle s')"
proof (cases "wc_status wc = IBV_WC_SUCCESS \<and> wc_opcode wc = IBV_WC_RECV")
  case True
  let ?d = "deliver E wc u s"
  from True assms(1) obtain ret where h: "rpmem_rcv_completion E u ?d = Some (ret, s')"
    by (auto simp: server_handle_wc_def)
  obtain pc where pc: "hdispatch E u ?d = Some pc" "hrun E u 13 pc ?d = Some (Idle, s')"
    using hrun_dispatch [OF deliver_valid [OF u], of E E wc u] h by (auto split: option.splits)
  have "th_step E (all_idle s) (alone u pc ?d)"
    using th_step.receive [of "all_idle s" u wc ?d E pc] True u pc(1) hdispatch_out(1) [OF pc(1)]
    by (simp add: all_idle_def alone_def)
  then have "th_reach E (all_idle s) (alone u pc ?d)" by (blast intro: th_reach.intros)
  from th_reach_trans [OF hrun_reach [OF pc(2)] this] show ?thesis by (simp add: alone_idle)
next
  case False
  then have "s' = s"
    using assms by (auto simp: server_handle_wc_def rpmem_snd_completion_def deliver_def
        split: if_splits ibv_wc_opcode.splits option.splits)
  then show ?thesis by (simp add: th_reach.start)
qed

lemma srv_step_interleaved:
  assumes "srv_step E s s'"
  shows "th_reach E (all_idle s) (all_idle s')"
  using assms
proof cases
  case (completion wc u)
  then show ?thesis by (rule completion_interleaved)
next
  case (connect ev)
  then have "th_step E (all_idle s) (all_idle s')"
    using th_step.connect [of "all_idle s" E ev s'] by (simp add: all_idle_def)
  then show ?thesis by (blast intro: th_reach.intros)
next
  case (external c)
  then have "th_step E (all_idle s) (all_idle s')"
    using th_step.external [of E "all_idle s" c] by (simp add: all_idle_def)
  then show ?thesis by (blast intro: th_reach.intros)
qed

section \<open>A thread in the middle of a handler\<close>

lemma alone_inv:
  assumes "server_inv s" and "sv_units s u \<noteq> None" and "local_ok pc (owner s u) (avail s)" and "finish u pc s = s"
  shows "th_inv (alone u pc s)"
  using assms by (auto simp: th_inv_def alone_def res_lock.mutex_def settled_def server_inv_iff)

lemma demo_searching: "th_inv (alone 1 (Map_search 1024) (demo_state zero_cmd))"
  by (rule alone_inv [OF demo_server_inv]) (simp_all add: demo_state_def)

lemma demo_holding:
  assumes "local_ok pc (Some 0) []" and "\<And>s. finish 1 pc s = s"
  shows "th_inv (alone 1 pc (taken 1 0 (demo_state zero_cmd)))"
proof -
  let ?s = "taken 1 0 (demo_state zero_cmd)"
  have u: "sv_units (demo_state zero_cmd) 1 \<noteq> None" by (simp add: demo_state_def)
  have "pool_inv ?s" by (rule taken_inv [OF demo_pool_inv u]) (simp add: demo_avail)
  moreover have "units_inv ?s" using demo_server_inv [of zero_cmd] u
    by (auto simp: server_inv_iff units_inv_def)
  ultimately show ?thesis
    using u assms by (intro alone_inv) (simp_all add: server_inv_iff owner_taken demo_avail)
qed

section \<open>Properties\<close>

text \<open>
  C4: the states of a server whose threads interleave. In every state that the server can reach
  once \<^verbatim>\<open>main\<close> has made it listen, with the threads of all connections running at
  once and interrupting each other inside their handlers: the lock is held exactly by the thread that is in a critical
  section, so at most one is; two connections never hold the same resource and no resource is on the
  list twice, also in the middle of a critical section; and whenever the lock is free, the invariant
  of the server holds and the resource is either free with all of its size advertised, or held by
  exactly one connection with nothing left to advertise.
\<close>
theorem interleaved_server_states:
  assumes "main_listen E self argc optind opts inp res t = Some (Listening s0 inp')"
    and "th_reach E (all_idle s0) x"
  shows "(\<forall>u. th_lock x = Some u \<longleftrightarrow> in_section (th_pc x u)) \<and>
    (\<forall>u v r. owner (th_server x) u = Some r \<longrightarrow> owner (th_server x) v = Some r \<longrightarrow> u = v) \<and>
    distinct (avail (th_server x)) \<and>
    (th_lock x = None \<longrightarrow> server_inv (th_server x) \<and> one_holder (th_server x))"
proof -
  have i: "th_inv x" and sg: "single_server (settled x)"
    using fresh_th_reach [OF assms(2) listening_fresh(1) [OF assms(1)]] by simp_all
  have "server_inv (th_server x) \<and> one_holder (th_server x)" if "th_lock x = None"
    using i sg that single_one_holder by (simp add: th_inv_def settled_def server_inv_iff)
  with th_inv_users [OF i] th_invD(1) [OF i] show ?thesis by (simp add: users_exclusive_def)
qed

theorem interleaved_server_states_witness:
  "\<exists>s0 s inp. main_listen ok_env 4096 7 7 demo_opts (stray_args 99) demo_res [] = Some (Listening s0 inp) \<and>
     rpmem_connect_request_handler ok_env \<lparr>ev_id = 9, ev_event = RDMA_CM_EVENT_CONNECT_REQUEST\<rparr> s0 = Some s \<and>
     th_reach ok_env (all_idle s0) (all_idle s) \<and> one_holder s"
proof -
  let ?ev = "\<lparr>ev_id = 9, ev_event = RDMA_CM_EVENT_CONNECT_REQUEST\<rparr>"
  obtain s0 inp where s0: "main_listen ok_env 4096 7 7 demo_opts (stray_args 99) demo_res [] = Some (Listening s0 inp)"
    using demo_listen by blast
  obtain s where s: "rpmem_connect_request_handler ok_env ?ev s0 = Some s"
    using connect_request_effect [OF refl] by blast
  have "sv_units s0 = (\<lambda>_. None)" using listening_fresh(1) [OF s0] by (simp add: fresh_server_def)
  then have r: "th_reach ok_env (all_idle s0) (all_idle s)"
    by (intro srv_step_interleaved srv_step.connect [OF _ s]) simp
  with interleaved_server_states [OF s0 r] s s0 show ?thesis by (auto simp: all_idle_def)
qed

text \<open>
  C5: the interleaved threads implement the abstract pool. Every step of every thread either
  leaves the pool as it will be at the end of the running critical section unchanged, or is the
  search of a map request, made under the lock, which takes the free resource it found, or is the
  insertion of an unmap request, made under the lock, which gives back the resource its connection
  holds. The pool changes at these two points only, by whole operations.
\<close>
theorem threads_refine_pool:
  assumes "th_inv x" and "th_step E x x'"
  shows "abs_pool (settled x') = abs_pool (settled x) \<or>
    (\<exists>u len r. th_pc x u = Map_search len \<and> th_lock x = Some u \<and>
       find_res (sv_resources (th_server x)) len (avail (th_server x)) = Some r \<and>
       pool_allowed (Take r) u (abs_pool (settled x)) \<and>
       abs_pool (settled x') = pool_apply (Take r) u (abs_pool (settled x))) \<or>
    (\<exists>u r. th_pc x u = Unmap_insert r \<and> th_lock x = Some u \<and>
       pool_allowed (Give r) u (abs_pool (settled x)) \<and>
       abs_pool (settled x') = pool_apply (Give r) u (abs_pool (settled x)))"
proof -
  consider "same_pool (settled x) (settled x')"
    | u where "pool_does (step_op (th_server x) (th_pc x u)) u (settled x) (settled x')"
    using th_step_moves [OF assms(2,1)] by blast
  then show ?thesis
  proof cases
    case 1
    then show ?thesis by (simp add: same_pool_abs)
  next
    case (2 u)
    note p = pool_does_abs [OF 2] and l = th_invD(1) [OF assms(1), of u]
    show ?thesis
    proof (cases "step_op (th_server x) (th_pc x u)")
      case Skip
      with p show ?thesis by simp
    next
      case (Take r)
      then obtain len where "th_pc x u = Map_search len"
        "find_res (sv_resources (th_server x)) len (avail (th_server x)) = Some r"
        by (cases "th_pc x u") (auto split: option.splits)
      with p l Take show ?thesis by auto
    next
      case (Give r)
      then have "th_pc x u = Unmap_insert r" by (cases "th_pc x u") (auto split: option.splits)
      with p l Give show ?thesis by auto
    qed
  qed
qed

theorem threads_refine_pool_witness:
  "\<exists>x'. th_step ok_env (alone 1 (Map_search 1024) (demo_state zero_cmd)) x' \<and>
     abs_pool (settled x') = ([], [1 \<mapsto> 0])"
proof -
  let ?s = "demo_state zero_cmd"
  have f: "find_res (sv_resources ?s) 1024 (avail ?s) = Some 0"
    unfolding demo_avail by (simp add: int_size_def demo_state_def)
  then obtain s' where s': "hstep ok_env 1 (Map_search 1024) ?s = Some (Map_free 0 1024, s')"
    by (simp add: avail_def)
  from alone_step [OF s'] have st: "th_step ok_env (alone 1 (Map_search 1024) ?s) (alone 1 (Map_free 0 1024) s')" .
  have p: "abs_pool (settled (alone 1 (Map_search 1024) ?s)) = ([0], \<lambda>_. None)"
    using demo_avail [of zero_cmd] demo_owner [of zero_cmd]
    by (simp add: settled_def alone_def abs_pool_def fun_eq_iff)
  have s: "settled (alone 1 (Map_free 0 1024) s') = finish 1 (Map_free 0 1024) s'" by (simp add: settled_def alone_def)
  have "avail (finish 1 (Map_free 0 1024) s') = remove1 0 (avail ?s)"
    using s' f by (auto simp: avail_def)
  then have "avail (settled (alone 1 (Map_free 0 1024) s')) = []" unfolding s demo_avail by simp
  then show ?thesis
    using threads_refine_pool [OF demo_searching st] st p f
    by (auto simp: alone_def abs_pool_def intro!: exI [of _ "alone 1 (Map_free 0 1024) s'"])
qed

text \<open>
  C13: the lock is always released. Whatever state the threads have reached, when a thread holds
  the lock it needs at most five steps of its own, none of which can wait for another thread or hit
  a null pointer, to release it; so no thread waits for the lock for ever when the threads are
  scheduled fairly.
\<close>
theorem lock_released:
  assumes "th_inv x" and "th_lock x = Some u"
  shows "\<exists>n\<le>5. \<exists>x'. runs_alone E u n x x' \<and> th_lock x' = None \<and> th_inv x'"
  using section_ends [OF assms, of E] section_left_le [of "th_pc x u"] by (meson order_trans)

theorem lock_released_witness:
  "\<exists>n\<le>5. \<exists>x'. runs_alone ok_env 1 n (alone 1 (Map_search 1024) (demo_state zero_cmd)) x' \<and> th_lock x' = None"
  using lock_released [OF demo_searching, of 1 ok_env] by (auto simp: alone_def)

text \<open>
  C22: the size advertised is one the pool had. The open handler reads the free size without the
  lock, possibly while another thread is updating the counters; still, the size that its response
  carries is 0 or the whole size of the resource, never a value in between or out of range.
\<close>
theorem open_size_of_pool:
  assumes "main_listen E self argc optind opts inp res t = Some (Listening s0 inp')"
    and "th_reach E (all_idle s0) x" and "th_pc x u = Open_reply sz"
  shows "\<exists>s'. hstep E u (th_pc x u) (th_server x) = Some (Idle, s') \<and>
    unpack_open_rsp e (rsp_of s' u) old = (0, sz) \<and>
    (sz = 0 \<or> sz = srv_total_size (sv_server (th_server x)))"
proof -
  have i: "th_inv x" and ok: "sizes_ok x"
    using fresh_th_reach [OF assms(2) listening_fresh(1) [OF assms(1)]] by simp_all
  have r: "unit_ready (th_server x) u" using th_invD(3) [OF i] assms(3) by simp
  obtain c where h: "hreply E u (pack_open_rsp (host E) sz) (th_server x) =
      Some (Idle, replied u (pack_open_rsp (host E) sz) c (th_server x))"
    by (rule hreplyE [OF r])
  have "read_size (th_pc x u) = Some sz" by (simp add: assms(3))
  with ok have "sz \<in> {0, srv_total_size (sv_server (th_server x))}" unfolding sizes_ok_def by blast
  with h r show ?thesis by (simp add: assms(3) open_rsp.roundtrip)
qed

theorem open_size_of_pool_witness:
  "\<exists>s0 inp x s'. main_listen ok_env 4096 7 7 demo_opts (stray_args 99) demo_res [] = Some (Listening s0 inp) \<and>
     th_reach ok_env (all_idle s0) x \<and> th_pc x 65536 = Open_reply 8192 \<and>
     hstep ok_env 65536 (Open_reply 8192) (th_server x) = Some (Idle, s') \<and>
     unpack_open_rsp BE (rsp_of s' 65536) 0 = (0, 8192)"
proof -
  let ?ev = "\<lparr>ev_id = 9, ev_event = RDMA_CM_EVENT_CONNECT_REQUEST\<rparr>"
  let ?wc = "\<lparr>wc_status = IBV_WC_SUCCESS, wc_opcode = IBV_WC_RECV\<rparr>"
  obtain s0 inp where s0: "main_listen ok_env 4096 7 7 demo_opts (stray_args 99) demo_res [] = Some (Listening s0 inp)"
    "srv_free_size (sv_server s0) = 8192"
    by (simp add: main_eval ok_env_def int_size_def)
  have n: "sv_units s0 = (\<lambda>_. None)" using listening_fresh(1) [OF s0(1)] by (simp add: fresh_server_def)
  obtain s c where s: "rpmem_connect_request_handler ok_env ?ev s0 = Some s"
    "sv_units s 65536 = Some \<lparr>unit_conn = c, unit_res = None\<rparr>" "conn_req c = zero_cmd" "conn_req_mr c = Some ok_mr"
    "srv_free_size (sv_server s) = 8192"
    by (simp add: rpmem_connect_request_handler_def rpmem_conn_init_def rpmem_create_qp_def call_defs ci_defs
        post_req_recv_def post_simps srv_call_eq Let_def ok_env_def s0(2))
  have d: "deliver ok_env ?wc 65536 s = s" by (simp add: deliver_def ok_env_def)
  have "hdispatch ok_env 65536 s = Some Open_read" by (simp add: hdispatch_def s(2,3) Let_def ok_env_def)
  then have a: "th_step ok_env (all_idle s) (alone 65536 Open_read s)"
    using th_step.receive [of "all_idle s" 65536 ?wc s ok_env Open_read] d s(2) by (simp add: all_idle_def alone_def)
  obtain s1 where "hrun ok_env 65536 (Suc (Suc 0)) Open_read s = Some (Open_reply 8192, s1)"
    by (simp add: s(2,4,5) post_req_recv_eq Let_def)
  note b = hrun_reach [OF this]
  have "th_reach ok_env (all_idle s0) (all_idle s)"
    using n s(1) by (intro srv_step_interleaved srv_step.connect) simp
  from th_reach_trans [OF b th_reach.step [OF this a]]
  have r: "th_reach ok_env (all_idle s0) (alone 65536 (Open_reply 8192) s1)" .
  have pc: "th_pc (alone 65536 (Open_reply 8192) s1) 65536 = Open_reply 8192" by (simp add: alone_def)
  from open_size_of_pool [OF s0(1) r pc, of BE 0] s0(1) r pc show ?thesis by metis
qed

text \<open>
  C12: no two threads write the same resource. When a step of any thread changes the descriptor of
  a resource (its mapping, its memory region), that resource is held by the connection of that very
  thread, no other connection holds it and it is not on the free list: outside the lock the threads
  work on disjoint resources.
\<close>
theorem resource_writes_owned:
  assumes "th_inv x" and "th_step E x x'" and "sv_resources (th_server x') r \<noteq> sv_resources (th_server x) r"
  shows "\<exists>u. th_pc x u \<noteq> th_pc x' u \<and> owner (th_server x) u = Some r \<and>
    (\<forall>v. v \<noteq> u \<longrightarrow> owner (th_server x) v \<noteq> Some r \<and> th_pc x' v = th_pc x v) \<and> r \<notin> set (avail (th_server x))"
  using assms(2)
proof cases
  case (run u pc' s')
  note h = run(2)
  have rdy: "unit_ready (th_server x) u" using h th_invD(3) [OF assms(1), of u] by (cases "th_pc x u") auto
  note l = th_invD(2) [OF assms(1)]
  have q: "\<not> in_section (th_pc x u) \<or> gives_lock (th_pc x u)"
    using hstep_section(1) [OF h rdy l] assms(3) run(1) by (cases "gives_lock (th_pc x u)") auto
  then have o: "owner (th_server x) u = Some r"
    using hstep_quiet [OF h rdy l] assms(3) run(1) by (auto simp: quiet_def)
  have "\<not> gives_lock (th_pc x u)" using h assms(3) run(1) by (cases "th_pc x u") auto
  with q have "\<not> in_section (th_pc x u)" by simp
  moreover have "owner (th_server x) v \<noteq> Some r" if "v \<noteq> u" for v
    using th_inv_users [OF assms(1)] o that by (auto simp: users_exclusive_def)
  moreover have "th_pc x u \<noteq> pc'" using hstep_moves_on [OF h] by simp
  ultimately show ?thesis using o th_inv_not_free [OF assms(1) o] run(1) by auto
qed (use assms(3) connect_handler_effect in \<open>fastforce simp: deliver_frame connect_effect_def\<close>)+

theorem resource_writes_owned_witness:
  "\<exists>x'. th_step ok_env (alone 1 (Map_reg 0 1024 65536) (taken 1 0 (demo_state zero_cmd))) x' \<and>
     res_mr (sv_resources (th_server x') 0) = Some ok_mr \<and>
     0 \<notin> set (avail (taken 1 0 (demo_state zero_cmd)))"
proof -
  let ?s = "taken 1 0 (demo_state zero_cmd)"
  have inv: "th_inv (alone 1 (Map_reg 0 1024 65536) ?s)" by (rule demo_holding) simp_all
  obtain pc' s' where h: "hstep ok_env 1 (Map_reg 0 1024 65536) ?s = Some (pc', s')"
    "res_mr (sv_resources s' 0) = Some ok_mr" "sv_resources s' 0 \<noteq> sv_resources ?s 0"
    by (simp add: srv_call_eq Let_def ok_env_def demo_state_def)
  show ?thesis
    using resource_writes_owned [OF inv alone_step [OF h(1)], of 0] alone_step [OF h(1)] h(2,3)
    by (auto simp: alone_def)
qed

text \<open>
  Handlers that are not interrupted are one way to interleave. Every state that the server
  reaches when each handler runs as one step is reached by the interleaved threads too, with no
  thread inside a handler: the states with the lock free include all those of the coarse steps.
\<close>
theorem atomic_runs_interleaved:
  assumes "srv_reach E s0 s"
  shows "th_reach E (all_idle s0) (all_idle s)"
  using assms
  by (induction rule: srv_reach.induct) (auto intro: th_reach.start th_reach_trans srv_step_interleaved)

theorem atomic_runs_interleaved_witness:
  "\<exists>s'. srv_step ok_env (demo_state (pack_map_req LE zero_cmd 1024)) s' \<and> owner s' 1 = Some 0 \<and>
     th_reach ok_env (all_idle (demo_state (pack_map_req LE zero_cmd 1024))) (all_idle s')"
proof -
  let ?s = "demo_state (pack_map_req LE zero_cmd 1024)"
  let ?wc = "\<lparr>wc_status = IBV_WC_SUCCESS, wc_opcode = IBV_WC_RECV\<rparr>"
  obtain s' where s': "rpmem_rcv_completion ok_env 1 ?s = Some (0, s')" "owner s' 1 = Some 0"
    by (rule demo_map_served)
  have "deliver ok_env ?wc 1 ?s = ?s" by (simp add: deliver_def ok_env_def)
  then have "srv_step ok_env ?s s'"
    using srv_step.completion [of ok_env ?wc 1 ?s s'] s' by (simp add: server_handle_wc_def demo_state_def)
  with s'(2) atomic_runs_interleaved [OF srv_reach_step [OF this]] show ?thesis by blast
qed

end
