(* ===== verification/List_Macros.thy ===== *)
theory List_Macros
  imports Rpmem_Prelude
begin

text \<open>
  The macros the program is written with: the singly linked lists of
  \<^verbatim>\<open>sys/queue.h\<close>, which are stored in the elements themselves, the loop
  \<^verbatim>\<open>SLIST_FOREACH_SAFE\<close> and the way from a member to its structure,
  \<^verbatim>\<open>container_of\<close> (\<^verbatim>\<open>rpmem_common.h\<close>). The interface \<open>list_impl\<close> says
  when such a list stands for a list of the other theories; it holds for the pointers as long as no
  element is inserted twice.
\<close>

section \<open>Members and their structures\<close>

text \<open>Addresses are 64 bits wide; \<open>off\<close> is the \<^verbatim>\<open>offsetof\<close> of the member.\<close>

definition member_addr :: "u64 \<Rightarrow> u64 \<Rightarrow> u64" where
  "member_addr off p = p + off"

definition container_of :: "u64 \<Rightarrow> u64 \<Rightarrow> u64" where
  "container_of off p = p - off"

lemma container_of_member [simp]:
  "container_of off (member_addr off p) = p" "member_addr off (container_of off p) = p"
  by (simp_all add: container_of_def member_addr_def)

text \<open>
  A member of a member, as the memory region structure inside the file structure that the user's
  pointer leads back from.
\<close>

lemma container_of_nested:
  "container_of off1 (container_of off2 (member_addr off2 (member_addr off1 p))) = p"
  by simp

section \<open>Linked lists\<close>

record 'a slist =
  slh_first :: "'a option"
  sle_next :: "'a \<Rightarrow> 'a option"

definition slist_init :: "'a slist \<Rightarrow> 'a slist" where
  "slist_init h = h\<lparr>slh_first := None\<rparr>"

definition slist_insert_head :: "'a \<Rightarrow> 'a slist \<Rightarrow> 'a slist" where
  "slist_insert_head x h = h\<lparr>sle_next := (sle_next h)(x := slh_first h), slh_first := Some x\<rparr>"

text \<open>
  The loop of \<^verbatim>\<open>SLIST_REMOVE\<close> that looks for the element before \<open>x\<close>. It has no result
  when it runs past the end of the list, into the null pointer, or round a cycle.
\<close>

partial_function (option) slist_before :: "('a \<Rightarrow> 'a option) \<Rightarrow> 'a \<Rightarrow> 'a option \<Rightarrow> 'a option" where
  "slist_before nx x cur =
     (case cur of None \<Rightarrow> None | Some c \<Rightarrow> if nx c = Some x then Some c else slist_before nx x (nx c))"

definition slist_remove_elm :: "'a \<Rightarrow> 'a slist \<Rightarrow> 'a slist option" where
  "slist_remove_elm x h =
     (if slh_first h = Some x then Some (h\<lparr>slh_first := sle_next h x\<rparr>)
      else do {
        c \<leftarrow> slist_before (sle_next h) x (slh_first h);
        n \<leftarrow> sle_next h c;
        Some (h\<lparr>sle_next := (sle_next h)(c := sle_next h n)\<rparr>)
      })"

text \<open>
  \<^verbatim>\<open>SLIST_FOREACH_SAFE\<close>: the next pointer is read before the body runs. The body works on
  a state, which holds the list (\<open>nx\<close> reads it), and says whether it breaks out of the loop; the
  result is the loop variable afterwards.
\<close>

partial_function (option) slist_foreach_safe ::
  "('s \<Rightarrow> 'a \<Rightarrow> 'a option) \<Rightarrow> ('a \<Rightarrow> 's \<Rightarrow> (bool \<times> 's) option) \<Rightarrow> 'a option \<Rightarrow> 's \<Rightarrow> ('a option \<times> 's) option" where
  "slist_foreach_safe nx body var s =
     (case var of None \<Rightarrow> Some (None, s)
      | Some v \<Rightarrow>
          Option.bind (body v s) (\<lambda>(brk, s').
            if brk then Some (Some v, s') else slist_foreach_safe nx body (nx s v) s'))"

section \<open>What a linked list stands for\<close>

primrec slist_path :: "('a \<Rightarrow> 'a option) \<Rightarrow> 'a option \<Rightarrow> 'a list \<Rightarrow> bool" where
  "slist_path nx p [] \<longleftrightarrow> p = None"
| "slist_path nx p (x # xs) \<longleftrightarrow> p = Some x \<and> slist_path nx (nx x) xs"

definition slist_repr :: "'a slist \<Rightarrow> 'a list \<Rightarrow> bool" where
  "slist_repr h xs \<longleftrightarrow> slist_path (sle_next h) (slh_first h) xs"

lemma slist_path_unique: "slist_path nx p xs \<Longrightarrow> slist_path nx p ys \<Longrightarrow> xs = ys"
proof (induction xs arbitrary: p ys)
  case Nil
  then show ?case by (cases ys) simp_all
next
  case (Cons x xs)
  then show ?case by (cases ys) auto
qed

lemma slist_path_suffix: "slist_path nx p (us @ x # vs) \<Longrightarrow> slist_path nx (Some x) (x # vs)"
  by (induction us arbitrary: p) auto

lemma slist_path_distinct: "slist_path nx p xs \<Longrightarrow> distinct xs"
proof (induction xs arbitrary: p)
  case Nil
  then show ?case by simp
next
  case (Cons a xs)
  have "a \<notin> set xs"
  proof
    assume "a \<in> set xs"
    then obtain us vs where xs: "xs = us @ a # vs" by (meson split_list)
    have "slist_path nx (Some a) (a # us @ a # vs)" "slist_path nx (Some a) (a # vs)"
      using Cons.prems xs slist_path_suffix [of nx "nx a" us a vs] by auto
    then have "us @ a # vs = vs" using slist_path_unique by blast
    then have "length (us @ a # vs) = length vs" by (rule arg_cong)
    then show False by simp
  qed
  with Cons show ?case by auto
qed

lemma slist_path_upd [simp]: "x \<notin> set xs \<Longrightarrow> slist_path (nx(x := q)) p xs = slist_path nx p xs"
  by (induction xs arbitrary: p) auto

lemma slist_before_missing: "slist_path nx p xs \<Longrightarrow> x \<notin> set xs \<Longrightarrow> slist_before nx x p = None"
proof (induction xs arbitrary: p)
  case Nil
  then show ?case by (simp add: slist_before.simps)
next
  case (Cons a xs)
  then have "nx a \<noteq> Some x" by (cases xs) auto
  with Cons show ?case by (subst slist_before.simps) simp
qed

lemma slist_before_found:
  "slist_path nx p (us @ c # x # vs) \<Longrightarrow> slist_before nx x p = Some c"
proof (induction us arbitrary: p)
  case Nil
  then show ?case by (simp add: slist_before.simps)
next
  case (Cons a us)
  have "x \<notin> set (us @ [c])" using slist_path_distinct [OF Cons.prems] by auto
  then have "nx a \<noteq> Some x" using Cons.prems by (cases us) auto
  with Cons show ?case by (subst slist_before.simps) simp
qed

lemma slist_path_skip:
  "slist_path nx p (us @ c # x # vs) \<Longrightarrow> slist_path (nx(c := nx x)) p (us @ c # vs)"
proof (induction us arbitrary: p)
  case Nil
  have "c \<notin> set vs" using slist_path_distinct [OF Nil.prems] by simp
  then show ?case using Nil slist_path_upd [of c vs nx "nx x" "nx x"] by (simp add: fun_upd_def)
next
  case (Cons a us)
  have "a \<noteq> c" using slist_path_distinct [OF Cons.prems] by auto
  with Cons show ?case by simp
qed

section \<open>The interface\<close>

text \<open>
  What the list operations of the other theories, insertion at the head and \<open>slist_remove\<close>, need
  from a list in memory.
\<close>

locale list_impl =
  fixes repr :: "'h \<Rightarrow> 'a list \<Rightarrow> bool"
    and insert :: "'a \<Rightarrow> 'h \<Rightarrow> 'h"
    and remove :: "'a \<Rightarrow> 'h \<Rightarrow> 'h option"
  assumes insert_repr: "repr h xs \<Longrightarrow> x \<notin> set xs \<Longrightarrow> repr (insert x h) (x # xs)"
    and remove_repr: "repr h xs \<Longrightarrow> x \<in> set xs \<Longrightarrow> \<exists>h'. remove x h = Some h' \<and> repr h' (remove1 x xs)"
    and remove_missing: "repr h xs \<Longrightarrow> x \<notin> set xs \<Longrightarrow> remove x h = None"
    and repr_unique: "repr h xs \<Longrightarrow> repr h ys \<Longrightarrow> xs = ys"
begin

lemma remove_refines: "repr h xs \<Longrightarrow> rel_option repr (remove x h) (slist_remove x xs)"
  using remove_repr [of h xs x] remove_missing [of h xs x]
  by (cases "x \<in> set xs") (auto simp: slist_remove_in slist_remove_None [THEN iffD2])

lemma remove_inserted:
  assumes "repr h xs" and "x \<notin> set xs"
  shows "\<exists>h'. remove x (insert x h) = Some h' \<and> repr h' xs"
  using remove_repr [OF insert_repr [OF assms], of x] by simp

end

interpretation slist: list_impl slist_repr slist_insert_head slist_remove_elm
proof (unfold_locales, goal_cases)
  case (1 h xs x)
  then show ?case by (simp add: slist_repr_def slist_insert_head_def)
next
  case (2 h xs x)
  from 2(2) obtain us vs where xs: "xs = us @ x # vs" "x \<notin> set us" by (meson split_list_first)
  show ?case
  proof (cases us rule: rev_cases)
    case Nil
    then show ?thesis using 2 xs by (auto simp: slist_repr_def slist_remove_elm_def)
  next
    case (snoc us' c)
    let ?nx = "sle_next h"
    have p: "slist_path ?nx (slh_first h) (us' @ c # x # vs)" using 2(1) xs snoc by (simp add: slist_repr_def)
    have f: "slh_first h \<noteq> Some x" using p xs(2) snoc by (cases us') auto
    have n: "?nx c = Some x" using slist_path_suffix [OF p] by simp
    show ?thesis
      using slist_before_found [OF p] slist_path_skip [OF p] f n xs snoc
      by (simp add: slist_remove_elm_def slist_repr_def remove1_append)
  qed
next
  case (3 h xs x)
  then have "slh_first h \<noteq> Some x" by (cases xs) (auto simp: slist_repr_def)
  with 3 show ?case by (simp add: slist_remove_elm_def slist_before_missing slist_repr_def)
next
  case (4 h xs ys)
  then show ?case by (auto simp: slist_repr_def dest: slist_path_unique)
qed

lemma slist_repr_distinct: "slist_repr h xs \<Longrightarrow> distinct xs"
  by (auto simp: slist_repr_def dest: slist_path_distinct)

lemma slist_repr_init: "slist_repr (slist_init h) []"
  by (simp add: slist_repr_def slist_init_def)

text \<open>
  Inserting an element a second time closes a cycle: the memory then holds no list any more.
\<close>

lemma slist_path_reaches:
  "slist_path nx p (us @ x # vs) \<Longrightarrow> x \<notin> set us \<Longrightarrow> slist_path (nx(x := q)) p ys \<Longrightarrow> \<exists>zs. ys = us @ x # zs"
proof (induction us arbitrary: p ys)
  case Nil
  then show ?case by (cases ys) auto
next
  case (Cons a us)
  then show ?case by (cases ys) auto
qed

lemma slist_insert_twice:
  assumes "slist_repr h xs" and "x \<in> set xs"
  shows "\<not> slist_repr (slist_insert_head x h) ys"
proof
  assume r: "slist_repr (slist_insert_head x h) ys"
  from assms(2) obtain us vs where xs: "xs = us @ x # vs" "x \<notin> set us" by (meson split_list_first)
  from r obtain ys' where ys: "ys = x # ys'" "slist_path ((sle_next h)(x := slh_first h)) (slh_first h) ys'"
    by (cases ys) (simp_all add: slist_repr_def slist_insert_head_def)
  have "\<exists>zs. ys' = us @ x # zs"
    using slist_path_reaches [OF _ xs(2) ys(2)] assms(1) xs(1) by (simp add: slist_repr_def)
  then show False using slist_repr_distinct [OF r] ys(1) by auto
qed

text \<open>A loop whose body leaves the list alone until it breaks is a search.\<close>

lemma foreach_search:
  assumes "slist_path (nx s) p xs"
    and "\<And>v. v \<in> set xs \<Longrightarrow> \<not> P v \<Longrightarrow> body v s = Some (False, s)"
    and "\<And>v. v \<in> set xs \<Longrightarrow> P v \<Longrightarrow> body v s = map_option (Pair True) (act v)"
  shows "slist_foreach_safe nx body p s =
    (case List.find P xs of None \<Rightarrow> Some (None, s) | Some v \<Rightarrow> map_option (Pair (Some v)) (act v))"
  using assms
proof (induction xs arbitrary: p)
  case Nil
  then show ?case by (simp add: slist_foreach_safe.simps)
next
  case (Cons a xs)
  show ?case
  proof (cases "P a")
    case True
    with Cons show ?thesis
      by (subst slist_foreach_safe.simps) (cases "act a"; simp)
  next
    case False
    with Cons show ?thesis by (subst slist_foreach_safe.simps) simp
  qed
qed

end
