(* ===== verification/Linked_Lists.thy ===== *)
theory Linked_Lists
  imports Server_Concurrency Client_System List_Macros
begin

text \<open>
  The critical sections of the map and unmap handlers once more, on the linked list in memory that
  \<^verbatim>\<open>res_list\<close> really is, with the loop of the code. They refine the sections of
  \<open>Server_Pool\<close>, which use a list of the logic, and no step of the interleaved threads ever breaks
  the chain of pointers; nor does a call of the client break its \<^verbatim>\<open>file_list\<close>.
\<close>

section \<open>The sections on pointers\<close>

text \<open>
  The body of the loop of \<^verbatim>\<open>rpmem_handle_map\<close>; it works on the pointers \<open>h\<close> and on the
  state \<open>s\<close>, of which it does not use \<open>srv_res_list\<close>.
\<close>

definition map_loop_body ::
  "uid \<Rightarrow> cint \<Rightarrow> rid \<Rightarrow> rid slist \<times> server_state \<Rightarrow> (bool \<times> (rid slist \<times> server_state)) option" where
  "map_loop_body u len res = (\<lambda>(h, s).
     if len <s int_size (sv_resources s res) then do {
       let s = upd_unit u (\<lambda>un. un\<lparr>unit_res := Some res\<rparr>) s;
       let s = upd_server (\<lambda>sv. sv\<lparr>srv_free_size := srv_free_size sv - int_size (sv_resources s res)\<rparr>) s;
       let s = upd_server (\<lambda>sv. sv\<lparr>srv_in_use_size := srv_in_use_size sv + int_size (sv_resources s res)\<rparr>) s;
       h \<leftarrow> slist_remove_elm res h;
       Some (True, (h, s))
     } else Some (False, (h, s)))"

definition map_section ::
  "uid \<Rightarrow> cint \<Rightarrow> rid slist \<Rightarrow> server_state \<Rightarrow> (rid option \<times> rid slist \<times> server_state) option" where
  "map_section u len h s = slist_foreach_safe (\<lambda>(h, s). sle_next h) (map_loop_body u len) (slh_first h) (h, s)"

definition unmap_section :: "uid \<Rightarrow> rid \<Rightarrow> rid slist \<Rightarrow> server_state \<Rightarrow> rid slist \<times> server_state" where
  "unmap_section u res h s =
     (let h = slist_insert_head res h;
          s = upd_unit u (\<lambda>un. un\<lparr>unit_res := None\<rparr>) s;
          s = upd_server (\<lambda>sv. sv\<lparr>srv_free_size := srv_free_size sv + int_size (sv_resources s res)\<rparr>) s;
          s = upd_server (\<lambda>sv. sv\<lparr>srv_in_use_size := srv_in_use_size sv - int_size (sv_resources s res)\<rparr>) s
      in (h, s))"

section \<open>Refinement\<close>

definition with_list :: "rid list \<Rightarrow> server_state \<Rightarrow> server_state" where
  "with_list rs s = upd_server (\<lambda>sv. sv\<lparr>srv_res_list := rs\<rparr>) s"

lemma find_res_find: "find_res R len rs = List.find (\<lambda>r. len <s int_size (R r)) rs"
  by (induction rs) simp_all

lemma map_section_eq:
  assumes "slist_repr h rs"
  shows "map_section u len h s =
    (case find_res (sv_resources s) len rs of None \<Rightarrow> Some (None, h, s)
     | Some r \<Rightarrow> map_option (\<lambda>h'. (Some r, h', with_list (avail s) (taken u r s))) (slist_remove_elm r h))"
proof -
  have "slist_path (sle_next h) (slh_first h) rs" using assms by (simp add: slist_repr_def)
  then have "map_section u len h s =
      (case List.find (\<lambda>r. len <s int_size (sv_resources s r)) rs of None \<Rightarrow> Some (None, (h, s))
       | Some r \<Rightarrow> map_option (Pair (Some r))
           (map_option (\<lambda>h'. (h', with_list (avail s) (taken u r s))) (slist_remove_elm r h)))"
    unfolding map_section_def
    by (intro foreach_search)
      (auto simp: map_loop_body_def with_list_def taken_def avail_def upd_defs Let_def map_option_case split: option.split)
  then show ?thesis by (simp add: find_res_find option.map_comp comp_def split: option.split)
qed

lemma with_list_taken: "with_list (remove1 r (avail s)) (with_list rs (taken u r s)) = taken u r s"
  by (simp add: with_list_def taken_def avail_def upd_defs)

lemma map_section_refines:
  assumes h: "slist_repr h (avail s)"
  shows "\<exists>res h' s1 s2. map_section u len h s = Some (res, h', s1) \<and> pool_take u len s = Some (res, s2) \<and>
    slist_repr h' (avail s2) \<and> with_list (avail s2) s1 = s2"
proof (cases "find_res (sv_resources s) len (avail s)")
  case None
  then show ?thesis
    using h by (simp add: map_section_eq [OF h] pool_take_eq with_list_def avail_def upd_server_def)
next
  case (Some r)
  obtain h' where "slist_remove_elm r h = Some h'" "slist_repr h' (remove1 r (avail s))"
    using slist.remove_repr [OF h] find_res_in [OF Some] by blast
  then show ?thesis using Some by (simp add: map_section_eq [OF h] pool_take_eq with_list_taken)
qed

lemma unmap_section_refines:
  assumes "slist_repr h (avail s)" and "r \<notin> set (avail s)"
  shows "slist_repr (fst (unmap_section u r h s)) (avail (pool_give u r s)) \<and>
    with_list (avail (pool_give u r s)) (snd (unmap_section u r h s)) = pool_give u r s"
  using slist.insert_repr [OF assms]
  by (simp add: unmap_section_def pool_give_def with_list_def avail_def upd_defs Let_def)

section \<open>The chain of pointers under interleaving\<close>

lemma insert_fresh:
  assumes inv: "th_inv x" and pc: "th_pc x u = Unmap_insert r"
  shows "r \<notin> set (avail (th_server x))"
proof -
  have "th_lock x = Some u" using th_invD(1) [OF inv, of u] pc by simp
  with inv pc have "pool_exclusive (th_server x)" by (simp add: th_inv_def settled_def pool_inv_def)
  moreover have "owner (th_server x) u = Some r" using th_invD(2) [OF inv, of u] pc by simp
  ultimately show ?thesis by (auto simp: pool_exclusive_def)
qed

lemma hstep_avail:
  assumes "hstep E u pc s = Some (pc', s')" and "unit_ready s u" and "local_ok pc (owner s u) (avail s)"
  shows "avail s' = avail s \<or> (\<exists>r len. pc = Map_remove r len \<and> r \<in> set (avail s) \<and> avail s' = remove1 r (avail s)) \<or>
    (\<exists>r. pc = Unmap_insert r \<and> avail s' = r # avail s)"
proof (cases "in_section pc \<and> \<not> gives_lock pc")
  case True
  then show ?thesis
    using assms by (cases pc) (auto simp: hstep_simps avail_def slist_remove_Some_iff split: option.splits)
next
  case False
  then have "quiet u s s'" using hstep_quiet [OF assms] by blast
  then show ?thesis by (simp add: quiet_def avail_def)
qed

section \<open>The file list of the client\<close>

lemma open_list:
  assumes h: "rpmem_open E dst s = Some (r, s')"
    and fresh: "cl_files s (env_ptr E (Calloc_struct Priv_rpmem_file # cl_trace s)) = None"
  shows "cl_file_list s' = cl_file_list s \<or> (\<exists>p. cl_files s p = None \<and> cl_file_list s' = p # cl_file_list s)"
proof -
  obtain p ch cid t3 where st: "open_start E s = (p, ch, cid, t3)" by (cases "open_start E s") auto
  with fresh have "cl_files s p = None" by (auto simp: open_start_def Let_def)
  with h st show ?thesis by (cases rule: open_result) auto
qed

lemma client_step_list:
  assumes "client_step E s s'"
  shows "cl_file_list s' = cl_file_list s \<or> (\<exists>p. cl_files s p = None \<and> cl_file_list s' = p # cl_file_list s) \<or>
    (\<exists>p. p \<in> set (cl_file_list s) \<and> cl_file_list s' = remove1 p (cl_file_list s))"
  using assms
proof cases
  case (open_call dst r)
  then show ?thesis using open_list by blast
next
  case (close_call p ret)
  then show ?thesis using close_effect by blast
qed (auto dest: map_op.keeps_list unmap_op.keeps_list commit_op.keeps_list cm_between.keeps_list cq_between.keeps_list)

text \<open>
  Opening a file links it into the list in memory, closing it unlinks it, and the pointers stand for
  the file list of the model again after every step of the client.
\<close>
theorem file_list_intact:
  assumes "client_inv s" and "client_step E s s'" and "slist_repr h (cl_file_list s)"
  shows "\<exists>h'. slist_repr h' (cl_file_list s') \<and>
    (h' = h \<or> (\<exists>p. h' = slist_insert_head p h) \<or> (\<exists>p. slist_remove_elm p h = Some h'))"
  using client_step_list [OF assms(2)]
proof (elim disjE exE conjE)
  fix p assume p: "cl_files s p = None" "cl_file_list s' = p # cl_file_list s"
  then have "p \<notin> set (cl_file_list s)" using assms(1) by (auto simp: client_inv_def)
  from slist.insert_repr [OF assms(3) this] p show ?thesis by auto
next
  fix p assume p: "p \<in> set (cl_file_list s)" "cl_file_list s' = remove1 p (cl_file_list s)"
  from slist.remove_repr [OF assms(3) p(1)] p show ?thesis by auto
qed (use assms(3) in auto)

section \<open>Properties\<close>

text \<open>
  C15: the list in memory does what the list of the model does. When the pointers stand for the
  free list, the search loop of a map request ends, finds what the search of the model finds and
  unlinks it, so that the pointers stand for the new free list; and inserting a resource that is not
  on the list yet, as an unmap request does, gives the pointers of the longer list. All else in the
  state is changed in the same way.
\<close>
theorem pointers_refine_pool:
  assumes "slist_repr h (avail s)"
  shows "(\<exists>res h' s1 s2. map_section u len h s = Some (res, h', s1) \<and> pool_take u len s = Some (res, s2) \<and>
      slist_repr h' (avail s2) \<and> with_list (avail s2) s1 = s2) \<and>
    (r \<notin> set (avail s) \<longrightarrow>
      slist_repr (fst (unmap_section u r h s)) (avail (pool_give u r s)) \<and>
      with_list (avail (pool_give u r s)) (snd (unmap_section u r h s)) = pool_give u r s)"
  using map_section_refines [OF assms] unmap_section_refines [OF assms] by simp

theorem pointers_refine_pool_witness:
  "\<exists>h' s1. map_section 1 1024 \<lparr>slh_first = Some 0, sle_next = (\<lambda>_. None)\<rparr> (demo_state zero_cmd) = Some (Some 0, h', s1) \<and>
     slist_repr h' [] \<and> owner s1 1 = Some 0"
proof -
  let ?h = "\<lparr>slh_first = Some 0, sle_next = (\<lambda>_. None)\<rparr> :: rid slist" and ?s = "demo_state zero_cmd"
  have h: "slist_repr ?h (avail ?s)" by (simp add: demo_avail slist_repr_def)
  have f: "find_res (sv_resources ?s) 1024 (avail ?s) = Some 0"
    unfolding demo_avail by (simp add: int_size_def demo_state_def)
  obtain res h' s1 s2 where r: "map_section 1 1024 ?h ?s = Some (res, h', s1)"
    "pool_take 1 1024 ?s = Some (res, s2)" "slist_repr h' (avail s2)" "with_list (avail s2) s1 = s2"
    using pointers_refine_pool [OF h, of 1 1024] by blast
  have s2: "res = Some 0" "s2 = taken 1 0 ?s" using r(2) f by (simp_all add: pool_take_eq)
  have "owner s2 1 = Some 0" by (simp add: s2 owner_taken demo_state_def)
  moreover have "owner (with_list (avail s2) s1) = owner s1" by (simp add: with_list_def)
  then have "owner s2 = owner s1" unfolding r(4) .
  ultimately show ?thesis using r(1,3) s2 by (simp add: demo_avail)
qed

text \<open>
  C14: the free list stays a list. When the threads interleave, each step leaves the pointers of
  the free list alone, or is an unlinking or an insertion made under the lock; and after it the
  pointers stand for the free list again. In particular no resource is ever inserted twice, which
  would close the chain into a cycle and make the next search run for ever with the lock held.
\<close>
theorem free_list_intact:
  assumes "th_inv x" and "th_step E x x'" and "slist_repr h (avail (th_server x))"
  shows "\<exists>h'. slist_repr h' (avail (th_server x')) \<and>
    (h' = h \<or>
     (\<exists>u r len. th_lock x = Some u \<and> th_pc x u = Map_remove r len \<and> slist_remove_elm r h = Some h') \<or>
     (\<exists>u r. th_lock x = Some u \<and> th_pc x u = Unmap_insert r \<and> h' = slist_insert_head r h))"
  using assms(2)
proof cases
  case (run u pc' s')
  have rdy: "unit_ready (th_server x) u" using run(2) th_invD(3) [OF assms(1), of u] by (cases "th_pc x u") auto
  note l = th_invD(1) [OF assms(1), of u]
  from hstep_avail [OF run(2) rdy th_invD(2) [OF assms(1)]] show ?thesis
  proof (elim disjE exE conjE)
    assume "avail s' = avail (th_server x)"
    with assms(3) run(1) show ?thesis by auto
  next
    fix r len assume r: "th_pc x u = Map_remove r len" "r \<in> set (avail (th_server x))"
      "avail s' = remove1 r (avail (th_server x))"
    with slist.remove_repr [OF assms(3) r(2)] l run(1) show ?thesis by auto
  next
    fix r assume r: "th_pc x u = Unmap_insert r" "avail s' = r # avail (th_server x)"
    with slist.insert_repr [OF assms(3) insert_fresh [OF assms(1) r(1)]] l run(1) show ?thesis by auto
  qed
next
  case (connect ev s')
  have "avail s' = avail (th_server x)"
    using connect_handler_effect [OF connect(3)] by (auto simp: connect_effect_def avail_def)
  with connect(1) assms(3) show ?thesis by auto
qed (use assms(3) in \<open>auto simp: deliver_frame avail_def\<close>)

theorem free_list_intact_witness:
  "\<exists>x'. th_step ok_env (alone 1 (Unmap_insert 0) (taken 1 0 (demo_state zero_cmd))) x' \<and>
     slist_repr \<lparr>slh_first = Some 0, sle_next = (\<lambda>_. None)\<rparr> (avail (th_server x'))"
proof -
  let ?s = "taken 1 0 (demo_state zero_cmd)" and ?h = "\<lparr>slh_first = None, sle_next = (\<lambda>_. None)\<rparr> :: rid slist"
  have inv: "th_inv (alone 1 (Unmap_insert 0) ?s)" by (rule demo_holding) simp_all
  have e: "avail ?s = []" by (simp add: demo_avail)
  obtain s' where s': "hstep ok_env 1 (Unmap_insert 0) ?s = Some (Unmap_clear 0, s')" "avail s' = [0]"
    by (simp add: avail_def e [unfolded avail_def])
  note st = alone_step [OF s'(1)]
  have "slist_repr ?h (avail (th_server (alone 1 (Unmap_insert 0) ?s)))"
    by (simp add: slist_repr_def alone_def demo_avail)
  from free_list_intact [OF inv st this] obtain h' where "slist_repr h' [0]" "h' = ?h \<or> h' = slist_insert_head 0 ?h"
    using s'(2) by (auto simp: alone_def)
  then have "slist_repr \<lparr>slh_first = Some 0, sle_next = (\<lambda>_. None)\<rparr> [0]"
    by (auto simp: slist_insert_head_def slist_repr_def)
  then show ?thesis using st s'(2) by (auto simp: alone_def)
qed

end
