(* ===== verification/Command_Line.thy ===== *)
theory Command_Line
  imports Server_Main
begin

text \<open>
  The command line of the server as the user types it: the option tables of
  \<^verbatim>\<open>process_inargs\<close>, the text of \<^verbatim>\<open>usage\<close>, and the program on an
  argument vector. What \<^verbatim>\<open>getopt_long\<close> makes of the vector is a parameter, a
  function of the option string, the option table and the words; what the program relies on is the
  predicate \<open>getopt_documented\<close>.
\<close>

section \<open>The option tables\<close>

record long_option =
  lo_name :: string
  lo_has_arg :: bool
  lo_val :: char

definition long_options :: "long_option list" where
  "long_options =
     [\<lparr>lo_name = ''addr'', lo_has_arg = True, lo_val = CHR ''a''\<rparr>,
      \<lparr>lo_name = ''port'', lo_has_arg = True, lo_val = CHR ''p''\<rparr>,
      \<lparr>lo_name = ''resource'', lo_has_arg = True, lo_val = CHR ''r''\<rparr>,
      \<lparr>lo_name = ''help'', lo_has_arg = False, lo_val = CHR ''h''\<rparr>]"

definition short_options :: string where
  "short_options = ''a:p:r:h''"

text \<open>The text the program prints, line by line.\<close>

definition usage :: "string \<Rightarrow> string list" where
  "usage argv0 =
     [''Usage:'',
      ''  '' @ argv0 @ ''            start RPMEM server'',
      '''',
      ''Options:'',
      ''  -a, --addr=<addr>           server IP address'',
      ''  -p, --port=<port>           server port'',
      ''  -r, --resources=<path>      resource for mapping'',
      ''  -h, --help                  display this output'']"

section \<open>Reading an argument vector\<close>

text \<open>The options a run of calls returns, with their arguments, and the words that are left over.\<close>

type_synonym getopt = "string \<Rightarrow> long_option list \<Rightarrow> string list \<Rightarrow> (char \<times> string) list \<times> string list"

definition add_option :: "char \<times> string \<Rightarrow> (char \<times> string) list \<times> string list \<Rightarrow> (char \<times> string) list \<times> string list" where
  "add_option opt r = (opt # fst r, snd r)"

text \<open>
  What is documented of the function: a dash and a letter that the option string has with a colon
  take the next word as argument; two dashes with the exact name of an option of the table that takes
  an argument, and an equals sign, return the value in the table with the rest of the word; a name
  that no option of the table begins with returns a question mark.
\<close>

definition getopt_documented :: "getopt \<Rightarrow> bool" where
  "getopt_documented g \<longleftrightarrow>
     (\<forall>os lo. g os lo [] = ([], [])) \<and>
     (\<forall>xs c ys lo arg rest. c \<notin> set xs \<union> {CHR '':'', CHR ''-''} \<longrightarrow>
        g (xs @ c # CHR '':'' # ys) lo ([CHR ''-'', c] # arg # rest) =
          add_option (c, arg) (g (xs @ c # CHR '':'' # ys) lo rest)) \<and>
     (\<forall>os lo opn arg rest. opn \<in> set lo \<and> lo_has_arg opn \<and> distinct (map lo_name lo) \<and>
          CHR ''='' \<notin> set (lo_name opn) \<and> lo_name opn \<noteq> [] \<longrightarrow>
        g os lo ((''--'' @ lo_name opn @ ''='' @ arg) # rest) = add_option (lo_val opn, arg) (g os lo rest)) \<and>
     (\<forall>os lo name arg rest. CHR ''='' \<notin> set name \<and> name \<noteq> [] \<and>
          (\<forall>opn\<in>set lo. take (length name) (lo_name opn) \<noteq> name) \<longrightarrow>
        (\<exists>x. g os lo ((''--'' @ name @ ''='' @ arg) # rest) = add_option (CHR ''?'', x) (g os lo rest)))"

text \<open>\<^verbatim>\<open>main\<close> on an argument vector, the name of the program first.\<close>

definition server_command ::
  "getopt \<Rightarrow> env \<Rightarrow> ptr \<Rightarrow> string list \<Rightarrow> inargs \<Rightarrow> rpmem_resource \<Rightarrow> trace \<Rightarrow> startup option" where
  "server_command g E self argv inp res t =
     (let (opts, others) = g short_options long_options (tl argv)
      in main_listen E self (length argv) (length argv - length others) opts inp res t)"

section \<open>Typed options\<close>









section \<open>Properties\<close>


text \<open>
  A concrete function that does what is documented: it goes through the words, takes groups of
  short options apart and accepts beginnings of names.
\<close>

fun short_lookup :: "string \<Rightarrow> char \<Rightarrow> bool option" where
  "short_lookup [] c = None"
| "short_lookup (x # xs) c =
     (if x = c \<and> c \<noteq> CHR '':'' then Some (xs \<noteq> [] \<and> hd xs = CHR '':'') else short_lookup xs c)"

definition long_lookup :: "long_option list \<Rightarrow> string \<Rightarrow> long_option option" where
  "long_lookup lo name =
     (case filter (\<lambda>opn. lo_name opn = name) lo of
        opn # _ \<Rightarrow> Some opn
      | [] \<Rightarrow> (case filter (\<lambda>opn. take (length name) (lo_name opn) = name) lo of
                [opn] \<Rightarrow> Some opn | _ \<Rightarrow> None))"

fun demo_getopt :: getopt where
  "demo_getopt os lo [] = ([], [])"
| "demo_getopt os lo (w # rest) =
     (if take 2 w = ''--'' then
        (let name = takeWhile (\<lambda>c. c \<noteq> CHR ''='') (drop 2 w); arg = dropWhile (\<lambda>c. c \<noteq> CHR ''='') (drop 2 w) in
         case long_lookup lo name of
           None \<Rightarrow> add_option (CHR ''?'', []) (demo_getopt os lo rest)
         | Some opn \<Rightarrow> add_option (lo_val opn, tl arg) (demo_getopt os lo rest))
      else if take 1 w = ''-'' \<and> length w = 2 then
        (case (short_lookup os (w ! 1), rest) of
           (Some True, arg # rest) \<Rightarrow> add_option (w ! 1, arg) (demo_getopt os lo rest)
         | (Some False, _) \<Rightarrow> add_option (w ! 1, []) (demo_getopt os lo rest)
         | _ \<Rightarrow> add_option (CHR ''?'', []) (demo_getopt os lo rest))
      else (let (opts, others) = demo_getopt os lo rest in (opts, w # others)))"

lemma takeWhile_eq_sign:
  "CHR ''='' \<notin> set xs \<Longrightarrow> takeWhile (\<lambda>c. c \<noteq> CHR ''='') (xs @ CHR ''='' # ys) = xs \<and>
    dropWhile (\<lambda>c. c \<noteq> CHR ''='') (xs @ CHR ''='' # ys) = CHR ''='' # ys"
  by (induction xs) auto

lemma short_lookup_colon: "c \<notin> set xs \<Longrightarrow> c \<noteq> CHR '':'' \<Longrightarrow> short_lookup (xs @ c # CHR '':'' # ys) c = Some True"
  by (induction xs) auto

lemma long_lookup_exact:
  assumes "opn \<in> set lo" and "distinct (map lo_name lo)"
  shows "long_lookup lo (lo_name opn) = Some opn"
proof -
  have "filter (\<lambda>x. lo_name x = lo_name opn) lo = [opn]"
    using assms by (induction lo) (auto simp: filter_empty_conv image_iff)
  then show ?thesis by (simp add: long_lookup_def)
qed

lemma long_lookup_none:
  assumes "\<forall>opn\<in>set lo. take (length name) (lo_name opn) \<noteq> name"
  shows "long_lookup lo name = None"
proof -
  have "\<forall>opn\<in>set lo. lo_name opn \<noteq> name" using assms by auto
  then have "filter (\<lambda>opn. lo_name opn = name) lo = []" "filter (\<lambda>opn. take (length name) (lo_name opn) = name) lo = []"
    using assms by (simp_all add: filter_empty_conv)
  then show ?thesis by (simp add: long_lookup_def)
qed

lemma demo_getopt_documented: "getopt_documented demo_getopt"
  unfolding getopt_documented_def
  by (auto simp: short_lookup_colon takeWhile_eq_sign long_lookup_exact long_lookup_none Let_def)


text \<open>
  The option the usage text announces does not exist. The text printed by
  \<^verbatim>\<open>usage\<close> has the line for an option \<^verbatim>\<open>--resources\<close>, which is not a
  name of the option table nor the beginning of one: typed as the text says, first and with nothing
  uninitialised in the way, the program ends with status 1 without an external call.
\<close>
theorem announced_option_refused:
  assumes "getopt_documented g" and "in_server_addr inp = Stray NULL"
  shows "''  -r, --resources=<path>      resource for mapping'' \<in> set (usage argv0) \<and>
    server_command g E self (argv0 # (''--resources='' @ path) # rest) inp res t = Some (Exited 1 t)"
proof -
  have n: "CHR ''='' \<notin> set ''resources'' \<and> ''resources'' \<noteq> [] \<and>
      (\<forall>opn\<in>set long_options. take (length ''resources'') (lo_name opn) \<noteq> ''resources'')"
    by (simp add: long_options_def)
  have "\<exists>x. g short_options long_options ((''--'' @ ''resources'' @ ''='' @ path) # rest) =
      add_option (CHR ''?'', x) (g short_options long_options rest)"
    using assms(1) n unfolding getopt_documented_def by blast
  then obtain x where "g short_options long_options ((''--resources='' @ path) # rest) =
      add_option (CHR ''?'', x) (g short_options long_options rest)" by auto
  then show ?thesis using assms(2)
    by (simp add: usage_def server_command_def main_listen_def process_inargs_def add_option_def inargs_cleanup_def
        split_beta Let_def)
qed

theorem announced_option_refused_witness:
  "server_command demo_getopt ok_env 4096 [''rpmem_server'', ''--resources=/dev/pmem0'', ''-a'', ''10.0.0.1''] (stray_args NULL) demo_res [] =
     Some (Exited 1 [])"
  using announced_option_refused [OF demo_getopt_documented, of "stray_args NULL" "''rpmem_server''" ok_env 4096 "''/dev/pmem0''" "[''-a'', ''10.0.0.1'']" demo_res "[]"]
  by simp

end
