(* ===== verification/Logging.thy ===== *)
theory Logging
  imports C_Strings
begin

text \<open>
  Logging (\<^verbatim>\<open>rpmem_log.h\<close>, \<^verbatim>\<open>rpmem_log.c\<close>): the level filter of
  the macro \<^verbatim>\<open>rpmem_log\<close>, and \<^verbatim>\<open>rpmem_vlog\<close>, which formats into a
  buffer of 2048 bytes and passes that buffer to \<^verbatim>\<open>printf\<close> as a format. Of the format
  language the conversions the program logs with are modelled, \<^verbatim>\<open>%p\<close> and
  \<^verbatim>\<open>%d\<close>, and \<^verbatim>\<open>%%\<close>. The result is what is printed; a conversion
  without its argument has no defined result (\<open>None\<close>).
\<close>

section \<open>Levels\<close>

datatype rpmem_log_level =
    RPMEM_LOG_LEVEL_ERROR | RPMEM_LOG_LEVEL_WARN | RPMEM_LOG_LEVEL_INFO | RPMEM_LOG_LEVEL_DEBUG
  | RPMEM_LOG_LEVEL_LAST

primrec log_level_val :: "rpmem_log_level \<Rightarrow> nat" where
  "log_level_val RPMEM_LOG_LEVEL_ERROR = 0"
| "log_level_val RPMEM_LOG_LEVEL_WARN = 1"
| "log_level_val RPMEM_LOG_LEVEL_INFO = 2"
| "log_level_val RPMEM_LOG_LEVEL_DEBUG = 3"
| "log_level_val RPMEM_LOG_LEVEL_LAST = 4"

text \<open>The levels are compared as the numbers of the enumeration.\<close>

instantiation rpmem_log_level :: linorder
begin

definition less_eq_rpmem_log_level :: "rpmem_log_level \<Rightarrow> rpmem_log_level \<Rightarrow> bool" where
  "less_eq_rpmem_log_level a b \<longleftrightarrow> log_level_val a \<le> log_level_val b"

definition less_rpmem_log_level :: "rpmem_log_level \<Rightarrow> rpmem_log_level \<Rightarrow> bool" where
  "less_rpmem_log_level a b \<longleftrightarrow> log_level_val a < log_level_val b"

instance
proof
  fix a b :: rpmem_log_level
  show "a \<le> b \<Longrightarrow> b \<le> a \<Longrightarrow> a = b"
    by (cases a; cases b) (simp_all add: less_eq_rpmem_log_level_def)
qed (auto simp: less_eq_rpmem_log_level_def less_rpmem_log_level_def)

end

section \<open>Formats\<close>

datatype log_arg = Arg_ptr u64 | Arg_int cint

definition hex_digit :: "nat \<Rightarrow> char" where
  "hex_digit d = char_of (if d < 10 then 48 + d else 87 + d)"

fun hex_string :: "nat \<Rightarrow> string" where
  "hex_string n = (if n < 16 then [hex_digit n] else hex_string (n div 16) @ [hex_digit (n mod 16)])"

declare hex_string.simps [simp del]

definition show_ptr :: "u64 \<Rightarrow> string" where
  "show_ptr p = (if p = 0 then ''(nil)'' else ''0x'' @ hex_string (unat p))"

definition show_int :: "cint \<Rightarrow> string" where
  "show_int i = (if i <s 0 then CHR ''-'' # dec_string (nat (- sint i)) else dec_string (nat (sint i)))"

fun c_format :: "string \<Rightarrow> log_arg list \<Rightarrow> string option" where
  "c_format [] args = Some []"
| "c_format (c # cs) args =
     (if c \<noteq> CHR ''%'' then map_option ((#) c) (c_format cs args)
      else
        (case cs of
           [] \<Rightarrow> None
         | d # ds \<Rightarrow>
             if d = CHR ''%'' then map_option ((#) c) (c_format ds args)
             else
               (case args of
                  [] \<Rightarrow> None
                | Arg_ptr p # rest \<Rightarrow>
                    if d = CHR ''p'' then map_option ((@) (show_ptr p)) (c_format ds rest) else None
                | Arg_int i # rest \<Rightarrow>
                    if d = CHR ''d'' then map_option ((@) (show_int i)) (c_format ds rest) else None)))"

section \<open>Logging\<close>

text \<open>
  \<^verbatim>\<open>vsnprintf\<close> stores at most 2047 characters; the stored text is then the format of a
  \<^verbatim>\<open>printf\<close> without arguments.
\<close>

definition rpmem_vlog :: "string \<Rightarrow> log_arg list \<Rightarrow> string option" where
  "rpmem_vlog fmt args = do {
     text \<leftarrow> c_format fmt args;
     let buf = take 2047 text;
     c_format buf []
   }"

definition rpmem_log :: "rpmem_log_level \<Rightarrow> rpmem_log_level \<Rightarrow> string \<Rightarrow> log_arg list \<Rightarrow> string option" where
  "rpmem_log logging_level level fmt args =
     (if level < RPMEM_LOG_LEVEL_LAST \<and> level \<le> logging_level
      then rpmem_vlog fmt args else Some [])"

text \<open>The levels of the two programs, and the one message they log: a completion.\<close>

definition client_logging_level :: rpmem_log_level where
  "client_logging_level = RPMEM_LOG_LEVEL_DEBUG"

definition server_logging_level :: rpmem_log_level where
  "server_logging_level = RPMEM_LOG_LEVEL_ERROR"

definition log_completion :: "rpmem_log_level \<Rightarrow> u64 \<Rightarrow> cint \<Rightarrow> cint \<Rightarrow> u64 \<Rightarrow> string option" where
  "log_completion lvl conn opcode status wc =
     rpmem_log lvl RPMEM_LOG_LEVEL_DEBUG (''conn %p handle opcode %d status %d wc %p'' @ [CHR 0x0A])
       [Arg_ptr conn, Arg_int opcode, Arg_int status, Arg_ptr wc]"

section \<open>Text without conversions\<close>

lemma c_format_plain: "CHR ''%'' \<notin> set s \<Longrightarrow> c_format s args = Some s"
  by (induction s args rule: c_format.induct) auto

lemma char_no_percent: "48 \<le> n \<Longrightarrow> n < 256 \<Longrightarrow> char_of (n :: nat) \<noteq> CHR ''%''"
  by (simp add: char_of_eq_iff take_bit_nat_eq_self)

lemma dec_no_percent: "CHR ''%'' \<notin> set (dec_string n)"
proof (induction n rule: dec_string.induct)
  case (1 n)
  have d: "CHR ''%'' \<noteq> char_of (48 + d)" if "d < 10" for d :: nat
    using that char_no_percent [of "48 + d"] by simp
  show ?case
    using 1 d [of n] d [of "n mod 10"] by (cases "n < 10") (simp_all add: dec_string.simps [of n] del: char_of_eq_iff)
qed

lemma hex_no_percent: "CHR ''%'' \<notin> set (hex_string n)"
proof (induction n rule: hex_string.induct)
  case (1 n)
  have d: "CHR ''%'' \<noteq> hex_digit d" if "d < 16" for d
    using that char_no_percent [of "48 + d"] char_no_percent [of "87 + d"] by (auto simp: hex_digit_def)
  show ?case
    using 1 d [of n] d [of "n mod 16"] by (cases "n < 16") (simp_all add: hex_string.simps [of n])
qed

lemma show_no_percent: "CHR ''%'' \<notin> set (show_ptr p)" "CHR ''%'' \<notin> set (show_int i)"
  using dec_no_percent hex_no_percent by (auto simp: show_ptr_def show_int_def)

lemma dec_length: "n < 10 ^ Suc k \<Longrightarrow> length (dec_string n) \<le> Suc k"
proof (induction k arbitrary: n)
  case 0
  then show ?case by (simp add: dec_string.simps)
next
  case (Suc k)
  then have "n div 10 < 10 ^ Suc k" by (simp add: div_less_iff_less_mult)
  from Suc.IH [OF this] show ?case by (simp add: dec_string.simps [of n])
qed

lemma hex_length: "n < 16 ^ Suc k \<Longrightarrow> length (hex_string n) \<le> Suc k"
proof (induction k arbitrary: n)
  case 0
  then show ?case by (simp add: hex_string.simps)
next
  case (Suc k)
  then have "n div 16 < 16 ^ Suc k" by (simp add: div_less_iff_less_mult)
  from Suc.IH [OF this] show ?case by (simp add: hex_string.simps [of n])
qed

lemma show_length: "length (show_ptr p) \<le> 18" "length (show_int i) \<le> 11"
proof -
  have "unat p < 16 ^ Suc 15" using unsigned_less [of p, where ?'a = nat] by simp
  from hex_length [OF this] show "length (show_ptr p) \<le> 18" by (simp add: show_ptr_def)
  have "nat (- sint i) < 10 ^ Suc 9" "nat (sint i) < 10 ^ Suc 9"
    using sint_greater_eq [of i] sint_less [of i] by auto
  from dec_length [OF this(1)] dec_length [OF this(2)] show "length (show_int i) \<le> 11"
    by (simp add: show_int_def)
qed

section \<open>Property\<close>

text \<open>
  The log prints each completion as it is. The client prints the whole line for every
  completion, whatever the addresses and numbers are: the text is short enough for the buffer and
  holds nothing that a second formatting would interpret. The server, at its level, prints nothing.
\<close>
theorem completion_log_printed:
  "log_completion client_logging_level conn opcode status wc =
     Some (''conn '' @ show_ptr conn @ '' handle opcode '' @ show_int opcode @ '' status '' @ show_int status @
       '' wc '' @ show_ptr wc @ [CHR 0x0A]) \<and>
   log_completion server_logging_level conn opcode status wc = Some []"
proof -
  let ?t = "''conn '' @ show_ptr conn @ '' handle opcode '' @ show_int opcode @ '' status '' @ show_int status @
       '' wc '' @ show_ptr wc @ [CHR 0x0A]"
  have f: "c_format (''conn %p handle opcode %d status %d wc %p'' @ [CHR 0x0A])
      [Arg_ptr conn, Arg_int opcode, Arg_int status, Arg_ptr wc] = Some ?t" by simp
  have "CHR ''%'' \<notin> set ?t" using show_no_percent by auto
  from c_format_plain [OF this, of "[]"] have p: "c_format ?t [] = Some ?t" .
  have "length ?t \<le> 2047"
    using show_length(1) [of conn] show_length(1) [of wc] show_length(2) [of opcode] show_length(2) [of status] by simp
  then have "take 2047 ?t = ?t" by (rule take_all)
  then show ?thesis
    using f p by (simp add: log_completion_def rpmem_log_def rpmem_vlog_def client_logging_level_def
        server_logging_level_def less_eq_rpmem_log_level_def less_rpmem_log_level_def Let_def del: c_format.simps)
qed

end
