(* ===== verification/Spec2Isabelle.thy ===== *)
theory Spec2Isabelle
  imports Lost_Resources Client_Semaphores Linked_Lists Command_Line Logging
begin

text \<open>
  Remote persistent memory over RDMA.

  \<^bold>\<open>The program.\<close> A server (\<^verbatim>\<open>rpmem_server.c\<close>) exports a file or block device. A
  client linked with the library \<^verbatim>\<open>rpmem.c\<close> opens a connection to it, maps a region,
  works on a local copy, commits it and unmaps it. The two exchange messages of 48 bytes
  (\<^verbatim>\<open>rpmem_protocol.c\<close>) through send and receive work requests, and move the data
  itself with RDMA reads and writes (\<^verbatim>\<open>rpmem_common.c\<close>). Each side has a connection
  manager thread and, for each connection, a completion thread; the client's callers wait on
  semaphores that the threads post. Three example programs use the library.

  \<^bold>\<open>The theories\<close>, in the order of their imports:

    \<^item> \<open>Rpmem_Prelude\<close>: machine types (a C int is a 32-bit word), byte orders, fields of a buffer,
      the lists of \<^verbatim>\<open>sys/queue.h\<close>, simplification collections.
    \<^item> \<open>Wire_Protocol\<close> (\<^verbatim>\<open>rpmem_protocol.[ch]\<close>): every pack and unpack function on a
      byte list, with the byte order of the host as an argument, and the fields the server reads.
    \<^item> \<open>Platform\<close>: the calls into libibverbs, librdmacm, POSIX and the C library as a datatype, the
      history of calls, the environment \<open>env\<close> that gives their results as a function of the history,
      the objects a history holds (\<open>live\<close>), and runs of polls.
    \<^item> \<open>Verbs_Common\<close> (\<^verbatim>\<open>rpmem_common.[ch]\<close>): the connection, \<open>get_addr\<close>, the three
      functions that post work requests; the interface \<open>acquire\<close> of code that obtains resources.
    \<^item> \<open>Server_Pool\<close>, \<open>Server_Handlers\<close>, \<open>Server_Requests\<close> (\<^verbatim>\<open>rpmem_server.c\<close> 61--477):
      the server's state, the search and return of resources under the lock, the five request
      handlers and their dispatch, the completion thread; the interfaces \<open>res_pool\<close> and
      \<open>request_handler\<close>, which all five handlers implement.
    \<^item> \<open>Server_Spec\<close>: the abstract pool (a free list and an assignment of resources to
      connections) and the proof that the handlers refine it, through the interface \<open>pool_handler\<close>.
      \<open>Server_Calls\<close>: which external calls a request can make the server do, and what they
      leave mapped.
    \<^item> \<open>Server_Setup\<close> (479--717): \<open>rpmem_conn_init\<close> with its labels, queue pairs, connection
      requests, the connection manager thread. \<open>Server_System\<close>: the server as a step relation whose
      steps are the actions of its threads in any order, with its reachable states.
    \<^item> \<open>Server_Threads\<close> (131--388): the handlers as their threads execute them, step by step (one access
      to shared memory or external call, or several that no other thread can tell apart). \<open>Server_Interleaving\<close>: the threads of all connections
      in any order, with the lock \<^verbatim>\<open>res_lock\<close>, its discipline as the interface
      \<open>spin_locked\<close>, and the invariant of the threads. \<open>Server_Concurrency\<close>: what follows from it.
    \<^item> \<open>List_Macros\<close> (\<^verbatim>\<open>rpmem_common.h\<close> 50--73): \<open>container_of\<close> and the linked lists
      in memory, with the interface \<open>list_impl\<close>. \<open>Linked_Lists\<close>: the free list and the file list on
      pointers.
    \<^item> \<open>C_Strings\<close>: \<open>strtol\<close>, \<open>atoi\<close> and decimal numerals. \<open>Server_Main\<close> (52--56, 104--129,
      731--889): the options, binding, and \<open>main\<close> with its labels. \<open>Command_Line\<close> (719--747): the option
      tables, the usage text and \<open>main\<close> on an argument vector.
    \<^item> \<open>Client_Events\<close>, \<open>Client_Api\<close>, \<open>Client_Spec\<close> (\<^verbatim>\<open>rpmem.[ch]\<close>): the file
      structure, the two helper threads and their event handlers (the interfaces \<open>helper_thread\<close> and
      \<open>completion_thread\<close>, which lifts what one completion does to polls, rounds and threads), and
      \<open>rpmem_open\<close>, \<open>rpmem_close\<close>, \<open>rpmem_map\<close>, \<open>rpmem_unmap\<close>, \<open>rpmem_commit\<close> with every label.
      \<open>Client_System\<close>: several files and any sequence of calls, through the interface \<open>file_op\<close>.
      \<open>Client_Semaphores\<close>: the accounting of the command semaphore, through \<open>balanced_op\<close>.
    \<^item> \<open>Example_Clients\<close> (\<^verbatim>\<open>simple_*.c\<close>) and \<open>Logging\<close> (\<^verbatim>\<open>rpmem_log.[ch]\<close>).
    \<^item> \<open>End_To_End\<close>, \<open>Sessions\<close> and this theory: client and server connected by their messages, for
      one call and for a whole run of \<^verbatim>\<open>simple_commit\<close> against a server that also
      serves other connections. \<open>Lost_Resources\<close>: the requests after which a connection keeps a
      resource it should not.

  \<^bold>\<open>How the code is represented.\<close> State is passed explicitly: \<open>server_state\<close> and
  \<open>client_state\<close> hold the structures the code reaches through pointers, as maps from addresses, and
  the history of external calls, newest first. A function of the code is a definition of the same
  name; each cleanup label with the code after it is a definition of its own, and a
  \<^verbatim>\<open>goto\<close> is a call of it. The result is an option: \<open>None\<close> is a run that has no result,
  because it dereferences null or uninitialised memory, reads out of bounds, or waits for a semaphore
  that is not posted. The server has two step relations: \<open>srv_step\<close>, where a handler is one step,
  and \<open>th_step\<close>, where a step is a small one of one thread and only the lock orders them. The first
  is contained in the second, a handler that is not interrupted has the same effect in both, and
  the pool, the only state that connections share, takes the same operations in both.

  \<^bold>\<open>External code\<close> (verbs, connection manager, POSIX calls, \<^verbatim>\<open>getopt_long\<close>) is never
  defined: its results are the environment, a parameter of every definition that makes such a
  call, or an argument. Properties hold for every environment, or name what they need of it as a
  hypothesis; witnesses use concrete environments such as \<open>ok_env\<close>.

  \<^bold>\<open>Loops and fuel.\<close> The polling loops terminate by the measure 64 minus the completions handled,
  each round handling at least one; list searches are structural on lists, and on pointers a
  \<open>partial_function\<close> that is shown to return. A handler left alone needs at most 13 steps. A
  thread runs for a number of rounds which is an argument: the theorems about threads hold for every
  number. When a caller waits, the environment says how many rounds the thread has made by then (\<open>env_rounds\<close>), so that
  a property of a call quantifies over all of them.

  \<^bold>\<open>What is shown.\<close> Messages: round trips between hosts of any byte order, rejection of foreign
  opcodes, a host-independent format. Server: one matching reply per request, the pool invariant
  and its refinement, isolation of connections, the external calls a request can cause, the exact
  condition of a crash, clean failure of
  set-up and start-up, the states reachable after start-up, the port it listens on. Its threads,
  interleaved: mutual exclusion, one user of a resource at every instant, no two writers of a
  resource, the release of the lock, whole pool operations at their linearization points, a free
  list whose pointers never form a cycle, and a size read without the lock that is still one the
  pool had. Client: balanced resources of every call, the order of the work it posts, the invariant of its file
  list, what an open, mapped or committed result means, bounded event handling, and a semaphore that
  counts answers less requests, so that a call returns exactly when its own answer was polled. Both: a region the
  client maps is the one the server registered, a commit it reports was synchronised, an unmap it
  reports returned the resource, a size it is told can be mapped; and over a session, that an exit
  status of 0 means the region was written, synchronised and released. The properties that describe
  defects state exactly when they occur: a busy connection loses its thread, a failing poll is read
  out of bounds, a refused map looks granted, failures that leave a caller blocked, a resource lost
  with the connection that closes, an unmap of another range than the mapped one, a registration
  removed twice, a length cut to 32 bits, and uninitialised arguments.

  \<^bold>\<open>Not modelled.\<close> The contents of mapped memory and of the resource file, which the RDMA device
  and the kernel move: the model has the work requests, mappings and \<^verbatim>\<open>msync\<close> calls. Text
  printed for the user, except the log. Weak memory: an access is atomic and seen by all threads at
  once. Interleavings inside a client's call: its helper threads run while the caller waits and
  between its calls, in whole rounds. The connection manager thread inside the handling of a
  connection request, and the completion thread of a connection that is freed because its queue pair
  could not be created, which goes on with the freed structure. Signals, cancellation points and the allocator: a freed structure is removed from its map, so that a later use of it has no result.
\<close>

section \<open>Properties of client and server together\<close>



text \<open>
  C3: a commit the client reports as done was synchronised by the server. When \<open>rpmem_commit\<close>
  returns 0 and all the device may deliver after its request is the server's reply to it, the
  server's last call before its reply was \<open>msync\<close> on the remote address of the client's region and
  that call succeeded; the client had posted the write of the region before the request. The length
  is the one that fits a C int: the length of the region cut to 32 bits and extended with its sign.
  That is the whole region if it is shorter than \<open>2 ^ 31\<close> bytes; of a longer one the server synchronises,
  and the client writes, only as much as the lower 32 bits say, while the commit is reported as done.
\<close>
theorem committed_region_is_synced:
  assumes "cl_files s p = Some f" and "wf_conn (pf_conn f)" and "rpmem_commit Ec p s = Some (0, s')"
    and "unit_ready ss u"
    and "req_of ss u = pack_commit_req (host Ec) (conn_req (pf_conn f)) (ucast (rmr_len (pmr_rmr (pf_priv_mr f))))
      (pmr_remote_addr (pf_priv_mr f))"
    and "rpmem_rcv_completion Es u ss = Some (ret, ss')" and "answered Ec (req_of ss u # sends (cl_trace s)) (rsp_of ss' u)"
  shows "\<exists>c n t mr. sv_trace ss' = c # Msync (pmr_remote_addr (pf_priv_mr f)) n # t \<and>
    n = scast (ucast (rmr_len (pmr_rmr (pf_priv_mr f))) :: cint) \<and>
    (rmr_len (pmr_rmr (pf_priv_mr f)) < 2 ^ 31 \<longrightarrow> n = rmr_len (pmr_rmr (pf_priv_mr f))) \<and>
    env_int Es (tl (sv_trace ss')) = 0 \<and>
    (region_wr IBV_WR_RDMA_WRITE (pf_priv_mr f) mr, []) = posted (cl_trace s') ! 1 \<and>
    snd (posted (cl_trace s') ! 0) = req_of ss u"
proof -
  have wf: "wf_cmd (conn_req (pf_conn f))" using assms(2) by auto
  note ans = assms(7) [unfolded assms(5)]
  have z: "wire_word (rsp_of ss' u) = 0"
    using client_commit_answer [OF assms(1-3) answered_wf [OF ans]] answered_eq [OF ans] by blast
  have "wire_opcode (req_of ss u) = opcode_val RPMEM_COMMIT_REQ" using wf by (simp add: assms(5))
  then obtain ret1 where "rpmem_handle_commit Es u ss = Some (ret1, ss')"
    using assms(6) unfolding rcv_completion_eq [OF assms(4)] by (auto simp: reply_of_def)
  from handle_commit_success [OF assms(4) this z] wf obtain c t where
    t: "sv_trace ss' = c # Msync (pmr_remote_addr (pf_priv_mr f))
        (scast (ucast (rmr_len (pmr_rmr (pf_priv_mr f))) :: cint)) # t"
      "env_int Es (tl (sv_trace ss')) = 0"
    by (auto simp: assms(5))
  have "\<exists>mr wr. posted (cl_trace s') = (wr, commit_msg Ec f) #
      (region_wr IBV_WR_RDMA_WRITE (pf_priv_mr f) mr, []) # posted (cl_trace s)"
    by (rule commit_result [OF assms(1,3)]) auto
  then obtain mr wr where "posted (cl_trace s') = (wr, commit_msg Ec f) #
      (region_wr IBV_WR_RDMA_WRITE (pf_priv_mr f) mr, []) # posted (cl_trace s)" by blast
  with t length_through_int show ?thesis
    by (intro exI [of _ c] exI [of _ "scast (ucast (rmr_len (pmr_rmr (pf_priv_mr f))) :: cint)"] exI [of _ t] exI [of _ mr])
      (simp add: commit_msg_def assms(5))
qed

theorem committed_region_is_synced_witness:
  "\<exists>ss' s' c t. rpmem_rcv_completion ok_env 1 (demo_state (commit_msg ok_env mapped_file)) = Some (0, ss') \<and>
     rpmem_commit (cl_env (rsp_of ss' 1)) 4096 mapped_client = Some (0, s') \<and>
     sv_trace ss' = c # Msync 9 512 # t"
proof -
  have w: "wf_cmd (conn_req (pf_conn mapped_file))" using mapped_simps(3) by blast
  let ?m = "commit_msg ok_env mapped_file"
  let ?ss = "demo_state ?m"
  have m: "?m = pack_commit_req LE (conn_req (pf_conn mapped_file)) (ucast (rmr_len (pmr_rmr (pf_priv_mr mapped_file))))
      (pmr_remote_addr (pf_priv_mr mapped_file))"
    by (simp add: commit_msg_def ok_env_def)
  have wm: "wf_cmd ?m" "wire_opcode ?m = opcode_val RPMEM_COMMIT_REQ" using w by (simp_all add: m)
  have r: "unit_ready ?ss 1" using wm by (simp add: demo_ready)
  obtain ss' where h: "rpmem_handle_commit ok_env 1 ?ss = Some (0, ss')"
    "rsp_of ss' 1 = pack_commit_rsp (host ok_env) (rsp_of ?ss 1) 0"
    using handle_commit_replies [OF r, of ok_env] by (auto simp: ok_env_def)
  have sv: "rpmem_rcv_completion ok_env 1 ?ss = Some (0, ss')"
    using h(1) wm unfolding rcv_completion_eq [OF r] by (simp add: reply_of_def)
  have a: "wf_cmd (rsp_of ss' 1)" "wire_opcode (rsp_of ss' 1) = opcode_val RPMEM_COMMIT_RSP"
    "wire_word (rsp_of ss' 1) = 0"
    using r by (simp_all add: h(2))
  obtain s' where s': "rpmem_commit (cl_env (rsp_of ss' 1)) 4096 mapped_client = Some (0, s')"
    using mapped_commit [OF a] by blast
  have "rmr_len (pmr_rmr (pf_priv_mr mapped_file)) = 512" by (simp add: mapped_file_def)
  with committed_region_is_synced [OF _ _ s' r _ sv] a m sv s' show ?thesis
    by (auto simp: answered_def)
qed

text \<open>
  C8: an unmap the client reports as done returned the resource. When \<open>rpmem_unmap\<close> returns 0 and
  all the device may deliver after its request is the server's reply to it, the connection had a
  resource, which is now at the head of the server's free list and no longer the connection's.
\<close>
theorem unmapped_region_is_returned:
  assumes "cl_files s p = Some f" and "wf_conn (pf_conn f)" and "rpmem_unmap Ec p s = Some (0, s')"
    and "unit_ready ss u"
    and "req_of ss u = pack_unmap_req (host Ec) (conn_req (pf_conn f)) (ucast (rmr_len (pmr_rmr (pf_priv_mr f))))
      (pmr_remote_addr (pf_priv_mr f))"
    and "rpmem_rcv_completion Es u ss = Some (ret, ss')" and "answered Ec (req_of ss u # sends (cl_trace s)) (rsp_of ss' u)"
  shows "\<exists>q. owner ss u = Some q \<and> owner ss' = (owner ss)(u := None) \<and> avail ss' = q # avail ss"
proof -
  have wf: "wf_cmd (conn_req (pf_conn f))" using assms(2) by auto
  note ans = assms(7) [unfolded assms(5)]
  have z: "wire_word (rsp_of ss' u) = 0"
    using client_unmap_answer [OF assms(1-3) answered_wf [OF ans]] answered_eq [OF ans] by blast
  have "wire_opcode (req_of ss u) = opcode_val RPMEM_UNMAP_REQ" using wf by (simp add: assms(5))
  then obtain ret1 where "rpmem_handle_unmap Es u ss = Some (ret1, ss')"
    using assms(6) unfolding rcv_completion_eq [OF assms(4)] by (auto simp: reply_of_def)
  from handle_unmap_success [OF assms(4) this z] show ?thesis by (auto simp: abs_pool_def)
qed

theorem unmapped_region_is_returned_witness:
  "\<exists>ss' s'. rpmem_rcv_completion ok_env 1 (held_state (pack_unmap_req LE (conn_req (pf_conn mapped_file)) 512 9)) =
       Some (0, ss') \<and>
     rpmem_unmap (cl_env (rsp_of ss' 1)) 4096 mapped_client = Some (0, s') \<and> avail ss' = [0]"
proof -
  have w: "wf_cmd (conn_req (pf_conn mapped_file))" using mapped_simps(3) by blast
  let ?m = "pack_unmap_req LE (conn_req (pf_conn mapped_file)) 512 9"
  let ?ss = "held_state ?m" and ?un = "\<lparr>unit_conn = demo_conn ?m, unit_res = Some 0\<rparr>"
  have r: "unit_ready ?ss 1" using w by (simp add: held_ready)
  have u: "sv_units ?ss 1 = Some ?un" "conn_req_mr (unit_conn ?un) = Some ok_mr"
    by (simp_all add: demo_conn_def)
  have q: "unit_res ?un = Some 0" "res_mr (sv_resources ?ss 0) = Some ok_mr" by simp_all
  have z: "env_int ok_env t = 0" for t by (simp add: ok_env_def)
  obtain ret ss' where h: "rpmem_handle_unmap ok_env 1 ?ss = Some (ret, ss')"
    "rsp_of ss' 1 = pack_unmap_rsp (host ok_env) (rsp_of ?ss 1) 0"
    using handle_unmap_returns [OF r u q refl refl z z] by auto
  have sv: "rpmem_rcv_completion ok_env 1 ?ss = Some (0, ss')"
    using h(1) w unfolding rcv_completion_eq [OF r] by (simp add: reply_of_def)
  have a: "wf_cmd (rsp_of ss' 1)" "wire_opcode (rsp_of ss' 1) = opcode_val RPMEM_UNMAP_RSP"
    "wire_word (rsp_of ss' 1) = 0"
    using r by (simp_all add: h(2))
  obtain s' where s': "rpmem_unmap (cl_env (rsp_of ss' 1)) 4096 mapped_client = Some (0, s')"
    using demo_unmap_answer [OF a(1,2), of mapped_file ok_mr ok_mr ok_mr mapped_client 4096] a(3) by auto
  have l: "rmr_len (pmr_rmr (pf_priv_mr mapped_file)) = 512" by (simp add: mapped_file_def)
  with unmapped_region_is_returned [OF _ _ s' r _ sv] a sv s' show ?thesis
    by (auto simp: answered_def)
qed

text \<open>
  C21: what the server advertises can be mapped. In every state a started server reaches, when the
  answer to an open request carries a size above 1024, the resource is free, and the length the
  example clients ask for after that answer is one for which the search of the free list finds it.
\<close>
theorem advertised_size_can_be_mapped:
  assumes "main_listen E self argc optind opts inp res t = Some (Listening s0 inp')" and "srv_reach E s0 s"
    and "unit_ready s u" and "wire_opcode (req_of s u) = opcode_val RPMEM_OPEN_REQ"
    and "rpmem_rcv_completion E u s = Some (ret, s1)" and "unpack_open_rsp e (rsp_of s1 u) v = (0, sz)"
    and "1024 <s sz"
  shows "sz = int_size (sv_resources s1 0) \<and>
    find_res (sv_resources s1) (example_map_size sz) (avail s1) = Some 0"
proof -
  note fr = fresh_reach [OF listening_fresh(1) [OF assms(1)] assms(2)]
  obtain ret1 where "rpmem_handle_open E u s = Some (ret1, s1)"
    using assms(4,5) unfolding rcv_completion_eq [OF assms(3)] by (auto simp: reply_of_def)
  note o = handle_open_reply [OF assms(3) this]
  have "wf_cmd (rsp_of s u)" using assms(3) by (auto simp: rsp_of_def elim!: unit_readyE)
  with o assms(6) have sz: "sz = srv_free_size (sv_server s)" by (simp add: unpack_wire)
  with fr(2) assms(7) have "avail s = [0]" "srv_free_size (sv_server s) = srv_total_size (sv_server s)"
    by (auto simp: one_holder_def word_sless_alt)
  with fr(3) sz o example_map_size_fits [of sz] assms(7) show ?thesis by simp
qed

lemma demo_accept:
  "\<exists>s. rpmem_connect_request_handler ok_env ev s0 = Some s \<and>
     srv_free_size (sv_server s) = srv_free_size (sv_server s0) \<and> req_of s 65536 = zero_cmd"
  by (simp add: rpmem_connect_request_handler_def rpmem_conn_init_def rpmem_create_qp_def srv_int_def srv_ptr_def
      call_defs post_req_recv_def post_simps ok_env_def req_of_def conn_zero_def zero_cmd_def upd_conn_def upd_unit_def
      upd_server_def set_trace_def Let_def)

lemma demo_listen_size:
  "\<exists>s0 inp. main_listen ok_env 4096 7 7 demo_opts (stray_args 99) demo_res [] = Some (Listening s0 inp) \<and>
     srv_free_size (sv_server s0) = 8192"
  by (simp add: main_eval ok_env_def int_size_def)

theorem advertised_size_can_be_mapped_witness:
  "\<exists>s0 inp s s1. main_listen ok_env 4096 7 7 demo_opts (stray_args 99) demo_res [] = Some (Listening s0 inp) \<and>
     rpmem_connect_request_handler ok_env \<lparr>ev_id = 9, ev_event = RDMA_CM_EVENT_CONNECT_REQUEST\<rparr> s0 = Some s \<and>
     rpmem_rcv_completion ok_env 65536 s = Some (0, s1) \<and>
     find_res (sv_resources s1) (example_map_size 8192) (avail s1) = Some 0"
proof -
  let ?ev = "\<lparr>ev_id = 9, ev_event = RDMA_CM_EVENT_CONNECT_REQUEST\<rparr>"
  obtain s0 inp where s0: "main_listen ok_env 4096 7 7 demo_opts (stray_args 99) demo_res [] = Some (Listening s0 inp)"
    "srv_free_size (sv_server s0) = 8192"
    using demo_listen_size by blast
  obtain s where s: "rpmem_connect_request_handler ok_env ?ev s0 = Some s" "srv_free_size (sv_server s) = 8192"
    "req_of s 65536 = zero_cmd"
    using demo_accept [of ?ev s0] s0(2) by auto
  have "sv_units s0 = (\<lambda>_. None)" using listening_fresh(1) [OF s0(1)] by (simp add: fresh_server_def)
  then have re: "srv_reach ok_env s0 s"
    by (intro srv_reach_step srv_step.connect [OF _ s(1)]) simp
  have "sv_units s 65536 \<noteq> None" using s(3) by (auto simp: req_of_def zero_cmd_def RPMEM_CMD_SIZE_def split: option.splits)
  then have r: "unit_ready s 65536"
    using fresh_reach(1) [OF listening_fresh(1) [OF s0(1)] re] by (auto simp: server_inv_def)
  have oc: "wire_opcode (req_of s 65536) = opcode_val RPMEM_OPEN_REQ" by (simp add: s(3))
  obtain ret s1 where h: "rpmem_handle_open ok_env 65536 s = Some (ret, s1)"
    using handle_open_serves [OF r] by blast
  have "wf_cmd (rsp_of s 65536)" using r by (auto simp: rsp_of_def elim!: unit_readyE)
  then have "unpack_open_rsp LE (rsp_of s1 65536) 0 = (0, 8192)"
    using handle_open_reply [OF r h] s(2) by (simp add: unpack_wire)
  moreover have rc: "rpmem_rcv_completion ok_env 65536 s = Some (0, s1)"
    using h oc unfolding rcv_completion_eq [OF r] by (simp add: reply_of_def)
  ultimately show ?thesis
    using advertised_size_can_be_mapped [OF s0(1) re r oc rc, of LE 0 8192] s0(1) s(1)
    by (auto simp: word_sless_alt)
qed

end
